(* ===== verification/Prelude.thy ===== *)
theory Prelude
  imports Main "HOL-Library.Word"
begin

text \<open>
  Shared vocabulary of the development: the parts of the Go language and of its standard library
  that the harness relies on, and the generic facts the component theories share.

  \<^item> A Go \<^verbatim>\<open>string\<close> is an immutable byte sequence; a HOL \<^typ>\<open>string\<close> is a list of 8-bit characters,
    so it is used as it is. \<open>decodeRune\<close> is \<^verbatim>\<open>utf8.DecodeRuneInString\<close> (with \<open>None\<close> for
    \<^verbatim>\<open>RuneError\<close> of width one) and \<open>validString\<close> is \<^verbatim>\<open>utf8.ValidString\<close>.
  \<^item> \<open>quote\<close> is \<^verbatim>\<open>strconv.Quote\<close>, the \<^verbatim>\<open>%q\<close> verb of \<^verbatim>\<open>fmt\<close>; the Unicode table behind
    \<^verbatim>\<open>unicode.IsPrint\<close> above Latin-1 is an argument. \<open>decimal\<close> is the \<^verbatim>\<open>%d\<close> verb.
  \<^item> \<open>uint64\<close> is a 64-bit word; Go's \<^verbatim>\<open>int\<close> is \<^typ>\<open>int\<close> (the counters of the harness are bounded by
    budgets that are themselves Go ints, so they do not wrap).
\<close>

named_theorems harness_simps \<open>defining equations the component proofs unfold\<close>

type_synonym uint64 = "64 word"

section \<open>UTF-8\<close>

abbreviation byte :: "char \<Rightarrow> nat" where
  "byte c \<equiv> of_char c"

definition contByte :: "nat \<Rightarrow> nat \<Rightarrow> char \<Rightarrow> bool" where
  "contByte lo hi c \<longleftrightarrow> lo \<le> byte c \<and> byte c \<le> hi"

definition secondRange :: "nat \<Rightarrow> nat \<times> nat" where
  "secondRange b =
     (if b = 0xE0 then (0xA0, 0xBF) else if b = 0xED then (0x80, 0x9F)
      else if b = 0xF0 then (0x90, 0xBF) else if b = 0xF4 then (0x80, 0x8F)
      else (0x80, 0xBF))"

text \<open>The width of a rune from its first byte; 0 for a byte that starts no rune.\<close>

definition runeWidth :: "nat \<Rightarrow> nat" where
  "runeWidth b =
     (if b < 0x80 then 1 else if b < 0xC2 then 0 else if b < 0xE0 then 2
      else if b < 0xF0 then 3 else if b < 0xF5 then 4 else 0)"

definition decodeRune :: "string \<Rightarrow> (nat \<times> nat) option" where
  "decodeRune s =
     (case s of [] \<Rightarrow> None
      | c0 # t \<Rightarrow>
        (let b0 = byte c0; w = runeWidth b0; (lo, hi) = secondRange b0 in
         if w = 0 \<or> length t < w - 1 then None
         else if w = 1 then Some (b0, 1)
         else if \<not> contByte lo hi (t ! 0) \<or> \<not> list_all (contByte 0x80 0xBF) (take (w - 2) (drop 1 t)) then None
         else Some (foldl (\<lambda>r c. r * 64 + (byte c - 0x80))
                      (b0 - (if w = 2 then 0xC0 else if w = 3 then 0xE0 else 0xF0))
                      (take (w - 1) t), w)))"

lemma decodeRune_width: "decodeRune s = Some (r, w) \<Longrightarrow> 0 < w \<and> w \<le> length s"
  by (auto simp: decodeRune_def Let_def Suc_le_eq split: list.splits if_splits prod.splits)

function validString :: "string \<Rightarrow> bool" where
  "validString s =
     (s = [] \<or> (case decodeRune s of None \<Rightarrow> False | Some (r, w) \<Rightarrow> validString (drop w s)))"
  by pat_completeness auto
termination
  by (relation "measure length") (auto dest!: decodeRune_width)

declare validString.simps [simp del]

lemma validString_Nil [simp]: "validString []"
  by (simp add: validString.simps)

lemma validString_ASCII: "byte c < 0x80 \<Longrightarrow> validString (c # s) = validString s"
  by (subst validString.simps) (simp add: decodeRune_def runeWidth_def Let_def split: prod.splits)

section \<open>Formatting verbs\<close>

definition hexDigit :: "nat \<Rightarrow> char" where
  "hexDigit n = (''0123456789abcdef'') ! (n mod 16)"

fun hexN :: "nat \<Rightarrow> nat \<Rightarrow> string" where
  "hexN 0 n = []"
| "hexN (Suc k) n = hexN k (n div 16) @ [hexDigit n]"

fun natDecimal :: "nat \<Rightarrow> string" where
  "natDecimal n =
     (if n < 10 then [(''0123456789'') ! n] else natDecimal (n div 10) @ [(''0123456789'') ! (n mod 10)])"

declare natDecimal.simps [simp del]

definition decimal :: "int \<Rightarrow> string" where
  "decimal i = (if i < 0 then CHR ''-'' # natDecimal (nat (- i)) else natDecimal (nat i))"

definition isPrint :: "(nat \<Rightarrow> bool) \<Rightarrow> nat \<Rightarrow> bool" where
  "isPrint table r =
     (if r \<le> 0xFF then (0x20 \<le> r \<and> r < 0x7F) \<or> (0xA1 \<le> r \<and> r \<noteq> 0xAD) else table r)"

definition escapedRune :: "(nat \<Rightarrow> bool) \<Rightarrow> nat \<Rightarrow> string \<Rightarrow> string" where
  "escapedRune table r raw =
     (if r = 0x22 \<or> r = 0x5C then CHR 0x5C # raw
      else if isPrint table r then raw
      else if r = 7 then [CHR 0x5C, CHR ''a''] else if r = 8 then [CHR 0x5C, CHR ''b'']
      else if r = 12 then [CHR 0x5C, CHR ''f''] else if r = 10 then [CHR 0x5C, CHR ''n'']
      else if r = 13 then [CHR 0x5C, CHR ''r''] else if r = 9 then [CHR 0x5C, CHR ''t'']
      else if r = 11 then [CHR 0x5C, CHR ''v'']
      else if r < 0x20 \<or> r = 0x7F then [CHR 0x5C, CHR ''x''] @ hexN 2 r
      else if r < 0x10000 then [CHR 0x5C, CHR ''u''] @ hexN 4 r
      else [CHR 0x5C, CHR ''U''] @ hexN 8 r)"

function quoteBody :: "(nat \<Rightarrow> bool) \<Rightarrow> string \<Rightarrow> string" where
  "quoteBody table s =
     (if s = [] then []
      else case decodeRune s of
        None \<Rightarrow> [CHR 0x5C, CHR ''x''] @ hexN 2 (byte (hd s)) @ quoteBody table (tl s)
      | Some (r, w) \<Rightarrow> escapedRune table r (take w s) @ quoteBody table (drop w s))"
  by pat_completeness auto
termination
  by (relation "measure (\<lambda>(table, s). length s)") (auto dest!: decodeRune_width)

declare quoteBody.simps [simp del]

definition quote :: "(nat \<Rightarrow> bool) \<Rightarrow> string \<Rightarrow> string" where
  "quote table s = CHR 0x22 # quoteBody table s @ [CHR 0x22]"

text \<open>
  \<^verbatim>\<open>time.Duration.String\<close>: hours, minutes and seconds with a trimmed fraction, and the units
  \<^verbatim>\<open>ms\<close>, \<^verbatim>\<open>us\<close> (written with the micro sign) and \<^verbatim>\<open>ns\<close> below one second.
\<close>

definition trimZeros :: "string \<Rightarrow> string" where
  "trimZeros s = rev (dropWhile (\<lambda>c. c = CHR ''0'') (rev s))"

fun digitsN :: "nat \<Rightarrow> nat \<Rightarrow> string" where
  "digitsN 0 n = []"
| "digitsN (Suc k) n = digitsN k (n div 10) @ [(''0123456789'') ! (n mod 10)]"

definition fmtFrac :: "nat \<Rightarrow> nat \<Rightarrow> string" where
  "fmtFrac prec n =
     (let f = trimZeros (digitsN prec (n mod 10 ^ prec)) in
      natDecimal (n div 10 ^ prec) @ (if f = [] then [] else CHR ''.'' # f))"

definition natDuration :: "nat \<Rightarrow> string" where
  "natDuration u =
     (if u = 0 then ''0s''
      else if u < 1000 then natDecimal u @ ''ns''
      else if u < 1000000 then fmtFrac 3 u @ [CHR 0xC2, CHR 0xB5, CHR ''s'']
      else if u < 1000000000 then fmtFrac 6 u @ ''ms''
      else
        (let s = u div 1000000000; m = s div 60; h = m div 60;
             secs = fmtFrac 9 (u mod 60000000000) @ ''s''
         in (if h > 0 then natDecimal h @ ''h'' else []) @
            (if m > 0 then natDecimal (m mod 60) @ ''m'' else []) @ secs))"

definition durationString :: "int \<Rightarrow> string" where
  "durationString d = (if d < 0 then CHR ''-'' # natDuration (nat (- d)) else natDuration (nat d))"

section \<open>Lists, options and words\<close>

lemma length_filter_snoc [simp]:
  "length (filter P (xs @ [x])) = length (filter P xs) + (if P x then 1 else 0)"
  by simp

lemma unat_add_lt:
  fixes a b :: "'a::len word"
  shows "unat a + unat b < 2 ^ LENGTH('a) \<Longrightarrow> unat (a + b) = unat a + unat b"
  by (simp add: unat_word_ariths take_bit_eq_mod)

lemma unat_word_of_int_uint64:
  "0 \<le> i \<Longrightarrow> i < 2 ^ 64 \<Longrightarrow> unat (word_of_int i :: uint64) = nat i"
  by (simp add: unat_eq_nat_uint uint_word_of_int_eq take_bit_eq_mod)

lemma unat_of_nat_uint64: "n < 2 ^ 64 \<Longrightarrow> unat (of_nat n :: uint64) = n"
  by (simp add: unat_of_nat take_bit_eq_mod)

lemma unat_next: "(tok :: uint64) + 1 \<noteq> 0 \<Longrightarrow> unat (tok + 1) = unat tok + 1"
proof -
  assume nz: "tok + 1 \<noteq> 0"
  have u: "unat (tok + 1) = (unat tok + 1) mod 2 ^ 64"
    by (simp add: unat_word_ariths take_bit_eq_mod)
  have "unat tok < 2 ^ 64" using unsigned_less [of tok] by simp
  moreover have "unat tok + 1 \<noteq> 2 ^ 64"
  proof
    assume "unat tok + 1 = 2 ^ 64"
    with u have "unat (tok + 1) = 0" by simp
    then have "tok + 1 = 0" by (simp only: unsigned_eq_0_iff)
    with nz show False by (rule notE)
  qed
  ultimately show ?thesis using u by simp
qed

end
