(* ===== verification/Go_Errors.thy ===== *)
theory Go_Errors
  imports Prelude
begin

text \<open>
  Go error values as the harness uses them. A package-level \<^verbatim>\<open>errors.New\<close> variable is a
  \<open>Sentinel\<close>; \<^verbatim>\<open>fmt.Errorf\<close> is the list of its formatted pieces, so that the operands of
  \<^verbatim>\<open>%w\<close> (which \<^verbatim>\<open>errors.Is\<close> unwraps) stay apart from those of \<^verbatim>\<open>%v\<close>, \<^verbatim>\<open>%s\<close>, \<^verbatim>\<open>%q\<close> and \<^verbatim>\<open>%d\<close>
  (which it does not); \<open>Join\<close> is \<^verbatim>\<open>errors.Join\<close>; \<open>HTTPError\<close> is \<^verbatim>\<open>*ModelProviderHTTPError\<close>;
  \<open>Opaque\<close> is an error made outside the repository, known by its text only. \<open>GoPanic\<close> stands for
  a run-time panic raised by the code itself (an index out of range); the development proves it
  unreachable where it can occur.

  \<open>errorsIs\<close>, \<open>errorsAsHTTP\<close> and \<open>errorText\<close> are \<^verbatim>\<open>errors.Is\<close>, \<^verbatim>\<open>errors.As\<close> with a
  \<^verbatim>\<open>*ModelProviderHTTPError\<close> target and the \<^verbatim>\<open>Error()\<close> method.
\<close>

section \<open>Sentinel errors\<close>

datatype sentinel =
    ErrInvalidRequest | ErrInvalidDecision | ErrInvalidTransition | ErrStepLimitExceeded
  | ErrToolExecutorMissing | ErrDuplicateToolCall
  | ErrCheckpointStore | ErrCheckpointConflict | ErrExecutionExists | ErrExecutionNotFound
  | ErrInvalidCheckpoint
  | ErrExecutionBusy | ErrRecoveryUnsupported | ErrExecutionTerminal | ErrToolOutcomeUnknown
  | ErrToolReplay | errToolReplayUnsupported | ErrToolReconciliation
  | ErrModelTimeout | ErrToolTimeout
  | ErrExecutionFenced | ErrExecutionLeaseRequired | ErrLeaseFencingUnsupported
  | ErrExecutionLeaseLost | ErrInvalidLeaseRenewal
  | ErrMCPInputRequired
  | ErrModelAdapterConfig | ErrModelProvider | ErrModelResponse
  | ErrInvalidTrace
  | ContextCanceled | ContextDeadlineExceeded
  | IoEOF | OsErrNotExist | OsErrExist | SyscallEWOULDBLOCK | SqlErrNoRows

fun sentinelText :: "sentinel \<Rightarrow> string" where
  "sentinelText ErrInvalidRequest = ''invalid harness request''"
| "sentinelText ErrInvalidDecision = ''invalid model decision''"
| "sentinelText ErrInvalidTransition = ''invalid execution transition''"
| "sentinelText ErrStepLimitExceeded = ''harness step limit exceeded''"
| "sentinelText ErrToolExecutorMissing = ''tool executor is required''"
| "sentinelText ErrDuplicateToolCall = ''tool call ID already completed''"
| "sentinelText ErrCheckpointStore = ''checkpoint store failed''"
| "sentinelText ErrCheckpointConflict = ''checkpoint revision conflict''"
| "sentinelText ErrExecutionExists = ''execution already exists''"
| "sentinelText ErrExecutionNotFound = ''execution not found''"
| "sentinelText ErrInvalidCheckpoint = ''invalid checkpoint''"
| "sentinelText ErrExecutionBusy = ''execution is already running''"
| "sentinelText ErrRecoveryUnsupported = ''execution recovery is unsupported''"
| "sentinelText ErrExecutionTerminal = ''execution has already terminated''"
| "sentinelText ErrToolOutcomeUnknown = ''pending tool outcome is unknown''"
| "sentinelText ErrToolReplay = ''idempotent tool replay failed''"
| "sentinelText errToolReplayUnsupported = ''idempotent tool replay unsupported''"
| "sentinelText ErrToolReconciliation = ''tool outcome reconciliation failed''"
| "sentinelText ErrModelTimeout = ''model callback timeout''"
| "sentinelText ErrToolTimeout = ''tool callback timeout''"
| "sentinelText ErrExecutionFenced = ''execution lease fenced''"
| "sentinelText ErrExecutionLeaseRequired = ''execution lease required''"
| "sentinelText ErrLeaseFencingUnsupported = ''execution lease fencing unsupported''"
| "sentinelText ErrExecutionLeaseLost = ''execution lease lost''"
| "sentinelText ErrInvalidLeaseRenewal = ''invalid execution lease renewal interval''"
| "sentinelText ErrMCPInputRequired = ''MCP tool requires additional client input''"
| "sentinelText ErrModelAdapterConfig = ''invalid model adapter configuration''"
| "sentinelText ErrModelProvider = ''model provider error''"
| "sentinelText ErrModelResponse = ''invalid model provider response''"
| "sentinelText ErrInvalidTrace = ''invalid execution trace''"
| "sentinelText ContextCanceled = ''context canceled''"
| "sentinelText ContextDeadlineExceeded = ''context deadline exceeded''"
| "sentinelText IoEOF = ''EOF''"
| "sentinelText OsErrNotExist = ''file does not exist''"
| "sentinelText OsErrExist = ''file already exists''"
| "sentinelText SyscallEWOULDBLOCK = ''resource temporarily unavailable''"
| "sentinelText SqlErrNoRows = ''sql: no rows in result set''"

section \<open>Error values\<close>

datatype goerr =
    Sentinel sentinel
  | Errorf "piece list"
  | Join "goerr list"
  | HTTPError int string
  | Opaque string
  | GoPanic string
and piece =
    Lit string       \<comment> \<open>text of the format string\<close>
  | Str string       \<comment> \<open>\<^verbatim>\<open>%s\<close> of a string\<close>
  | Quoted string    \<comment> \<open>\<^verbatim>\<open>%q\<close>\<close>
  | Num int          \<comment> \<open>\<^verbatim>\<open>%d\<close>\<close>
  | Dur int          \<comment> \<open>\<^verbatim>\<open>%s\<close> of a \<^verbatim>\<open>time.Duration\<close>, in nanoseconds\<close>
  | W goerr          \<comment> \<open>\<^verbatim>\<open>%w\<close>\<close>
  | V goerr          \<comment> \<open>\<^verbatim>\<open>%v\<close> of an error\<close>

text \<open>\<^verbatim>\<open>errors.Is\<close>: the error itself, then what it unwraps to.\<close>

fun errorsIs :: "goerr \<Rightarrow> sentinel \<Rightarrow> bool"
and errorsIsPieces :: "piece list \<Rightarrow> sentinel \<Rightarrow> bool"
and errorsIsAny :: "goerr list \<Rightarrow> sentinel \<Rightarrow> bool" where
  "errorsIs (Sentinel x) t = (x = t)"
| "errorsIs (Errorf ps) t = errorsIsPieces ps t"
| "errorsIs (Join es) t = errorsIsAny es t"
| "errorsIs (HTTPError c b) t = (t = ErrModelProvider)"
| "errorsIs (Opaque s) t = False"
| "errorsIs (GoPanic s) t = False"
| "errorsIsPieces [] t = False"
| "errorsIsPieces (W e # ps) t = (errorsIs e t \<or> errorsIsPieces ps t)"
| "errorsIsPieces (_ # ps) t = errorsIsPieces ps t"
| "errorsIsAny [] t = False"
| "errorsIsAny (e # es) t = (errorsIs e t \<or> errorsIsAny es t)"

text \<open>\<^verbatim>\<open>errors.As\<close> with a \<^verbatim>\<open>*ModelProviderHTTPError\<close>: the first one in depth-first order.\<close>

fun errorsAsHTTP :: "goerr \<Rightarrow> (int \<times> string) option"
and errorsAsHTTPPieces :: "piece list \<Rightarrow> (int \<times> string) option"
and errorsAsHTTPAny :: "goerr list \<Rightarrow> (int \<times> string) option" where
  "errorsAsHTTP (HTTPError c b) = Some (c, b)"
| "errorsAsHTTP (Errorf ps) = errorsAsHTTPPieces ps"
| "errorsAsHTTP (Join es) = errorsAsHTTPAny es"
| "errorsAsHTTP _ = None"
| "errorsAsHTTPPieces [] = None"
| "errorsAsHTTPPieces (W e # ps) =
     (case errorsAsHTTP e of Some x \<Rightarrow> Some x | None \<Rightarrow> errorsAsHTTPPieces ps)"
| "errorsAsHTTPPieces (_ # ps) = errorsAsHTTPPieces ps"
| "errorsAsHTTPAny [] = None"
| "errorsAsHTTPAny (e # es) =
     (case errorsAsHTTP e of Some x \<Rightarrow> Some x | None \<Rightarrow> errorsAsHTTPAny es)"

text \<open>\<^verbatim>\<open>(*ModelProviderHTTPError).Error\<close>.\<close>

definition httpErrorText :: "int \<Rightarrow> string \<Rightarrow> string" where
  "httpErrorText code body =
     (if body = [] then sentinelText ErrModelProvider @ '': HTTP '' @ decimal code
      else sentinelText ErrModelProvider @ '': HTTP '' @ decimal code @ '': '' @ body)"

text \<open>\<^verbatim>\<open>Error()\<close>: the rendered message; the first argument is the table of \<^verbatim>\<open>unicode.IsPrint\<close>.\<close>

fun errorText :: "(nat \<Rightarrow> bool) \<Rightarrow> goerr \<Rightarrow> string"
and piecesText :: "(nat \<Rightarrow> bool) \<Rightarrow> piece list \<Rightarrow> string"
and joinText :: "(nat \<Rightarrow> bool) \<Rightarrow> goerr list \<Rightarrow> string" where
  "errorText tb (Sentinel x) = sentinelText x"
| "errorText tb (Errorf ps) = piecesText tb ps"
| "errorText tb (Join es) = joinText tb es"
| "errorText tb (HTTPError c b) = httpErrorText c b"
| "errorText tb (Opaque s) = s"
| "errorText tb (GoPanic s) = s"
| "piecesText tb [] = []"
| "piecesText tb (Lit s # ps) = s @ piecesText tb ps"
| "piecesText tb (Str s # ps) = s @ piecesText tb ps"
| "piecesText tb (Quoted s # ps) = quote tb s @ piecesText tb ps"
| "piecesText tb (Num i # ps) = decimal i @ piecesText tb ps"
| "piecesText tb (Dur d # ps) = durationString d @ piecesText tb ps"
| "piecesText tb (W e # ps) = errorText tb e @ piecesText tb ps"
| "piecesText tb (V e # ps) = errorText tb e @ piecesText tb ps"
| "joinText tb [] = []"
| "joinText tb [e] = errorText tb e"
| "joinText tb (e # e' # es) = errorText tb e @ [CHR 0x0A] @ joinText tb (e' # es)"

text \<open>\<^verbatim>\<open>errors.Join\<close> of two possibly nil errors: nil operands are dropped.\<close>

fun errorsJoin :: "goerr option \<Rightarrow> goerr \<Rightarrow> goerr" where
  "errorsJoin None e = Join [e]"
| "errorsJoin (Some d) e = Join [d, e]"

text \<open>The shape \<^verbatim>\<open>fmt.Errorf("%w: text", sentinel)\<close> that most error returns have.\<close>

definition errMsg :: "sentinel \<Rightarrow> string \<Rightarrow> goerr" where
  "errMsg x msg = Errorf [W (Sentinel x), Lit ('': '' @ msg)]"

lemma errorsIs_errMsg [simp]: "errorsIs (errMsg x msg) t = (x = t)"
  by (simp add: errMsg_def)

lemma errorText_errMsg [simp]: "errorText tb (errMsg x msg) = sentinelText x @ '': '' @ msg"
  by (simp add: errMsg_def)

lemma sentinelText_nonempty [simp]: "sentinelText x \<noteq> []"
  by (cases x) simp_all

lemma errorsIs_errorsJoin [simp]:
  "errorsIs (errorsJoin d e) t = ((\<exists>x. d = Some x \<and> errorsIs x t) \<or> errorsIs e t)"
  by (cases d) auto

end
