(* ===== verification/Lifecycle.thy ===== *)
theory Lifecycle
  imports Go_Errors
begin

text \<open>
  The data model and the execution state machine of \<^verbatim>\<open>runtime.go\<close>: statuses, transitions, model
  decisions, tool calls, steps and results.

  A Go string type with named constants (\<^verbatim>\<open>Status\<close>, \<^verbatim>\<open>DecisionKind\<close>) is a datatype with one
  constructor per constant and one, \<open>\<dots>Other s\<close>, for a value \<open>s\<close> that is none of the constants (the
  zero value is the one with the empty string). A pointer that may be nil is an option; the
  \<^verbatim>\<open>clone\<dots>\<close> helpers copy slices, which HOL values do not need, so they are identities here and
  the copies they make are the values themselves.
\<close>

section \<open>Statuses and transitions\<close>

datatype Status =
    StatusCreated | StatusRunningModel | StatusRunningTool
  | StatusCompleted | StatusFailed | StatusCancelled | StatusOther string

fun statusText :: "Status \<Rightarrow> string" where
  "statusText StatusCreated = ''created''"
| "statusText StatusRunningModel = ''running_model''"
| "statusText StatusRunningTool = ''running_tool''"
| "statusText StatusCompleted = ''completed''"
| "statusText StatusFailed = ''failed''"
| "statusText StatusCancelled = ''cancelled''"
| "statusText (StatusOther s) = s"

record Transition =
  tn_From :: Status
  tn_To :: Status

record execution =
  ex_status :: Status
  ex_transitions :: "Transition list"

definition newExecution :: execution where
  "newExecution = \<lparr>ex_status = StatusCreated, ex_transitions = []\<rparr>"

fun validTransition :: "Status \<Rightarrow> Status \<Rightarrow> bool" where
  "validTransition StatusCreated to = (to = StatusRunningModel)"
| "validTransition StatusRunningModel to =
     (to = StatusRunningTool \<or> to = StatusCompleted \<or> to = StatusFailed \<or> to = StatusCancelled)"
| "validTransition StatusRunningTool to =
     (to = StatusRunningModel \<or> to = StatusFailed \<or> to = StatusCancelled)"
| "validTransition _ to = False"

definition transition :: "execution \<Rightarrow> Status \<Rightarrow> execution \<times> goerr option" where
  "transition e next =
     (if \<not> validTransition (ex_status e) next then
        (e, Some (Errorf [W (Sentinel ErrInvalidTransition), Lit '': '', Str (statusText (ex_status e)),
                          Lit '' -> '', Str (statusText next)]))
      else
        (\<lparr>ex_status = next,
          ex_transitions = ex_transitions e @ [\<lparr>tn_From = ex_status e, tn_To = next\<rparr>]\<rparr>, None))"

section \<open>Decisions, tool calls and results\<close>

datatype DecisionKind = DecisionFinal | DecisionToolCall | DecisionOther string

fun decisionKindText :: "DecisionKind \<Rightarrow> string" where
  "decisionKindText DecisionFinal = ''final''"
| "decisionKindText DecisionToolCall = ''tool_call''"
| "decisionKindText (DecisionOther s) = s"

record ToolCall =
  tc_ID :: string
  tc_Name :: string
  tc_Arguments :: string

record ToolResult =
  tr_CallID :: string
  tr_Output :: string

record Decision =
  d_Kind :: DecisionKind
  d_Output :: string
  d_ToolCall :: ToolCall

definition zeroToolCall :: ToolCall where
  "zeroToolCall = \<lparr>tc_ID = [], tc_Name = [], tc_Arguments = []\<rparr>"

definition zeroDecision :: Decision where
  "zeroDecision = \<lparr>d_Kind = DecisionOther [], d_Output = [], d_ToolCall = zeroToolCall\<rparr>"

definition Validate :: "Decision \<Rightarrow> goerr option" where
  "Validate d =
     (case d_Kind d of
        DecisionFinal \<Rightarrow> None
      | DecisionToolCall \<Rightarrow>
          if tc_ID (d_ToolCall d) = [] then Some (errMsg ErrInvalidDecision ''tool call ID is required'')
          else if tc_Name (d_ToolCall d) = [] then Some (errMsg ErrInvalidDecision ''tool name is required'')
          else None
      | DecisionOther k \<Rightarrow>
          Some (Errorf [W (Sentinel ErrInvalidDecision), Lit '': unknown decision kind '', Quoted k]))"

record Step =
  sp_Index :: int
  sp_Call :: ToolCall
  sp_Result :: ToolResult

record ModelInput =
  mi_Prompt :: string
  mi_Steps :: "Step list"

record Request =
  rq_ExecutionID :: string
  rq_Prompt :: string

record Result =
  rs_ExecutionID :: string
  rs_Status :: Status
  rs_Output :: string
  rs_Steps :: "Step list"
  rs_Transitions :: "Transition list"

definition zeroResult :: Result where
  "zeroResult = \<lparr>rs_ExecutionID = [], rs_Status = StatusOther [], rs_Output = [], rs_Steps = [],
     rs_Transitions = []\<rparr>"

definition cloneSteps :: "Step list \<Rightarrow> Step list" where
  "cloneSteps steps = steps"

definition snapshot :: "execution \<Rightarrow> Step list \<Rightarrow> string \<Rightarrow> Result" where
  "snapshot e steps output =
     \<lparr>rs_ExecutionID = [], rs_Status = ex_status e, rs_Output = output, rs_Steps = cloneSteps steps,
      rs_Transitions = ex_transitions e\<rparr>"

text \<open>The step that a completed tool call appends to the history.\<close>

definition completedStep :: "Step list \<Rightarrow> ToolCall \<Rightarrow> string \<Rightarrow> Step" where
  "completedStep steps call output =
     \<lparr>sp_Index = int (length steps) + 1, sp_Call = call,
      sp_Result = \<lparr>tr_CallID = tc_ID call, tr_Output = output\<rparr>\<rparr>"

declare newExecution_def [harness_simps] cloneSteps_def [harness_simps] snapshot_def [harness_simps]
  completedStep_def [harness_simps]

section \<open>Histories\<close>

text \<open>
  \<open>followTransitions\<close> is the loop by which a checkpoint's history is checked: the status reached
  from a start status along a list of transitions, \<open>None\<close> where a transition does not start at the
  current status or is not valid.
\<close>

fun followTransitions :: "Status \<Rightarrow> Transition list \<Rightarrow> Status option" where
  "followTransitions st [] = Some st"
| "followTransitions st (t # ts) =
     (if tn_From t \<noteq> st \<or> \<not> validTransition st (tn_To t) then None
      else followTransitions (tn_To t) ts)"

definition terminal :: "Status \<Rightarrow> bool" where
  "terminal st \<longleftrightarrow> st = StatusCompleted \<or> st = StatusFailed \<or> st = StatusCancelled"

definition startsTool :: "Transition \<Rightarrow> bool" where
  "startsTool t \<longleftrightarrow> tn_To t = StatusRunningTool"

definition finishesTool :: "Transition \<Rightarrow> bool" where
  "finishesTool t \<longleftrightarrow> tn_From t = StatusRunningTool \<and> tn_To t = StatusRunningModel"

abbreviation started :: "Transition list \<Rightarrow> nat" where
  "started ts \<equiv> length (filter startsTool ts)"

abbreviation finished :: "Transition list \<Rightarrow> nat" where
  "finished ts \<equiv> length (filter finishesTool ts)"

text \<open>An execution is well formed when its history leads from \<open>created\<close> to its status.\<close>

definition wfExecution :: "execution \<Rightarrow> bool" where
  "wfExecution e \<longleftrightarrow> followTransitions StatusCreated (ex_transitions e) = Some (ex_status e)"

lemma followTransitions_append [simp]:
  "followTransitions st (xs @ ys) =
     (case followTransitions st xs of None \<Rightarrow> None | Some st' \<Rightarrow> followTransitions st' ys)"
  by (induction xs arbitrary: st) auto

lemma followTransitions_snoc:
  "followTransitions st (ts @ [t]) = Some st' \<longleftrightarrow>
     followTransitions st ts = Some (tn_From t) \<and> validTransition (tn_From t) (tn_To t) \<and> st' = tn_To t"
  by (cases "followTransitions st ts") (auto simp del: validTransition.simps)

lemma validTransition_terminal: "terminal st \<Longrightarrow> \<not> validTransition st to"
  by (auto simp: terminal_def)

lemma validTransition_reaches:
  "validTransition st to \<Longrightarrow> to \<noteq> StatusCreated \<and> (\<forall>s. to \<noteq> StatusOther s)"
  by (cases st) auto

lemma followTransitions_other:
  "followTransitions st ts = Some (StatusOther s) \<Longrightarrow> ts = [] \<and> st = StatusOther s"
proof (induction ts rule: rev_induct)
  case (snoc t ts)
  then show ?case by (auto split: option.splits if_splits dest: validTransition_reaches)
qed simp

lemma wf_newExecution: "wfExecution newExecution"
  by (simp add: wfExecution_def newExecution_def)

lemma wf_transition: "wfExecution e \<Longrightarrow> wfExecution (fst (transition e next))"
  by (auto simp: wfExecution_def transition_def)

lemma transition_ok:
  "validTransition (ex_status e) next \<Longrightarrow>
     transition e next =
       (\<lparr>ex_status = next, ex_transitions = ex_transitions e @ [\<lparr>tn_From = ex_status e, tn_To = next\<rparr>]\<rparr>, None)"
  by (simp add: transition_def)

lemma transition_keeps_on_error:
  "snd (transition e next) \<noteq> None \<Longrightarrow> fst (transition e next) = e"
  by (auto simp: transition_def split: if_splits)

text \<open>
  The tool bookkeeping of a history: every started tool is finished, except one that is still
  running or that the execution left by failing or being cancelled.
\<close>

definition leftTool :: "Transition list \<Rightarrow> bool" where
  "leftTool ts \<longleftrightarrow> ts \<noteq> [] \<and> tn_From (last ts) = StatusRunningTool \<and> tn_To (last ts) \<noteq> StatusRunningModel"

lemma tool_balance:
  "followTransitions StatusCreated ts = Some st \<Longrightarrow>
     started ts = finished ts + (if st = StatusRunningTool \<or> leftTool ts then 1 else 0)"
proof (induction ts arbitrary: st rule: rev_induct)
  case Nil
  then show ?case by (simp add: leftTool_def)
next
  case (snoc t ts)
  from snoc.prems have t: "followTransitions StatusCreated ts = Some (tn_From t)"
      "validTransition (tn_From t) (tn_To t)" "st = tn_To t"
    by (simp_all only: followTransitions_snoc)
  have lt: "\<not> leftTool ts"
  proof
    assume l: "leftTool ts"
    then obtain us u where ts: "ts = us @ [u]"
      unfolding leftTool_def by (metis append_butlast_last_id)
    with l have u: "tn_From u = StatusRunningTool" "tn_To u \<noteq> StatusRunningModel"
      by (simp_all add: leftTool_def)
    from t(1) ts have v: "tn_From t = tn_To u" "validTransition (tn_From u) (tn_To u)"
      by (simp_all only: followTransitions_snoc)
    from u v(2) have "terminal (tn_To u)" by (auto simp: terminal_def)
    with t(2) v(1) show False by (simp add: validTransition_terminal)
  qed
  from snoc.IH [OF t(1)] lt t(2) show ?case
    unfolding t(3)
    by (cases "tn_From t") (auto simp: leftTool_def startsTool_def finishesTool_def)
qed

end
