(* ===== verification/Checkpoints.thy ===== *)
theory Checkpoints
  imports Lifecycle
begin

text \<open>
  Durable snapshots: the checkpoint record and its logical revision (\<^verbatim>\<open>checkpoint.go\<close>), the check
  of the relationships that make callbacks safe to resume (\<^verbatim>\<open>validateRecoveryState\<close> of
  \<^verbatim>\<open>recovery.go\<close>) and the full validation every store applies (\<^verbatim>\<open>validateCheckpoint\<close> of
  \<^verbatim>\<open>file_store.go\<close>). The checks return the error of the first condition that fails, in the
  source's order. The predicates \<open>wfRecovery\<close> and \<open>wfCheckpoint\<close> say declaratively what the two
  checks accept; the lemmas at the end prove that they accept exactly that, that the index
  expression in the check cannot go out of range, and that the 64-bit revision counts durable progress.
\<close>

section \<open>The checkpoint record\<close>

definition CheckpointSchemaVersion :: int where
  "CheckpointSchemaVersion = 3"

record Checkpoint =
  cp_SchemaVersion :: int
  cp_Revision :: uint64
  cp_ExecutionID :: string
  cp_Request :: Request
  cp_MaxSteps :: int
  cp_ModelIterations :: int
  cp_MaxModelRetries :: int
  cp_ModelRetries :: int
  cp_Result :: Result
  cp_PendingTool :: "ToolCall option"
  cp_Error :: string

abbreviation cp_Status :: "Checkpoint \<Rightarrow> Status" where
  "cp_Status cp \<equiv> rs_Status (cp_Result cp)"

abbreviation cp_Steps :: "Checkpoint \<Rightarrow> Step list" where
  "cp_Steps cp \<equiv> rs_Steps (cp_Result cp)"

abbreviation cp_Transitions :: "Checkpoint \<Rightarrow> Transition list" where
  "cp_Transitions cp \<equiv> rs_Transitions (cp_Result cp)"

definition zeroCheckpoint :: Checkpoint where
  "zeroCheckpoint = \<lparr>cp_SchemaVersion = 0, cp_Revision = 0, cp_ExecutionID = [],
     cp_Request = \<lparr>rq_ExecutionID = [], rq_Prompt = []\<rparr>, cp_MaxSteps = 0, cp_ModelIterations = 0,
     cp_MaxModelRetries = 0, cp_ModelRetries = 0, cp_Result = zeroResult, cp_PendingTool = None,
     cp_Error = []\<rparr>"

definition cloneResult :: "Result \<Rightarrow> Result" where
  "cloneResult result = result\<lparr>rs_Steps := cloneSteps (rs_Steps result)\<rparr>"

definition cloneCheckpoint :: "Checkpoint \<Rightarrow> Checkpoint" where
  "cloneCheckpoint cp = cp\<lparr>cp_Result := cloneResult (cp_Result cp)\<rparr>"

lemma cloneResult_id [simp]: "cloneResult r = r"
  by (simp add: cloneResult_def cloneSteps_def)

lemma cloneCheckpoint_id [simp]: "cloneCheckpoint cp = cp"
  by (simp add: cloneCheckpoint_def)

definition checkpointRevision :: "Checkpoint \<Rightarrow> uint64" where
  "checkpointRevision cp =
     (let revision = 1 + word_of_int (cp_ModelIterations cp) + word_of_int (cp_ModelRetries cp);
          revision = foldl (\<lambda>r t. if tn_To t = StatusRunningTool \<or>
                                      (tn_From t = StatusRunningTool \<and> tn_To t = StatusRunningModel)
                                   then r + 1 else r) revision (cp_Transitions cp)
      in case cp_Status cp of
           StatusCompleted \<Rightarrow> revision + 1
         | StatusFailed \<Rightarrow> revision + 1
         | StatusCancelled \<Rightarrow> revision + 1
         | _ \<Rightarrow> revision)"

section \<open>Validation\<close>

definition invalid :: "string \<Rightarrow> goerr option" where
  "invalid reason = Some (errMsg ErrInvalidCheckpoint reason)"

abbreviation toolDecision :: "ToolCall \<Rightarrow> Decision" where
  "toolDecision call \<equiv> \<lparr>d_Kind = DecisionToolCall, d_Output = [], d_ToolCall = call\<rparr>"

text \<open>The loop over the completed steps; \<open>i\<close> is the loop index, \<open>seen\<close> the identifiers met so far.\<close>

fun checkSteps :: "nat \<Rightarrow> string list \<Rightarrow> Step list \<Rightarrow> goerr option" where
  "checkSteps i seen [] = None"
| "checkSteps i seen (step # steps) =
     (if sp_Index step \<noteq> int i + 1 \<or> tr_CallID (sp_Result step) \<noteq> tc_ID (sp_Call step)
         \<or> tc_ID (sp_Call step) \<in> set seen
      then invalid ''inconsistent or duplicate tool step identity''
      else if Validate (toolDecision (sp_Call step)) \<noteq> None then invalid ''invalid completed tool call''
      else checkSteps (Suc i) (tc_ID (sp_Call step) # seen) steps)"

definition checkPending :: "Checkpoint \<Rightarrow> goerr option" where
  "checkPending cp =
     (case cp_PendingTool cp of
        None \<Rightarrow> None
      | Some call \<Rightarrow>
          if Validate (toolDecision call) \<noteq> None then invalid ''invalid pending tool call''
          else if tc_ID call \<in> set (map (\<lambda>s. tc_ID (sp_Call s)) (cp_Steps cp))
                  \<or> cp_ModelIterations cp \<le> int (length (cp_Steps cp))
          then invalid ''pending tool has no distinct reserved model decision''
          else None)"

definition pendingCount :: "Checkpoint \<Rightarrow> nat" where
  "pendingCount cp = (case cp_PendingTool cp of None \<Rightarrow> 0 | Some _ \<Rightarrow> 1)"

text \<open>The switch on the status; reading the last transition of an empty history would panic.\<close>

definition checkStatus :: "Checkpoint \<Rightarrow> goerr option" where
  "checkStatus cp =
     (case cp_Status cp of
        StatusCreated \<Rightarrow>
          if cp_ModelIterations cp \<noteq> 0 \<or> cp_ModelRetries cp \<noteq> 0 \<or> pendingCount cp \<noteq> 0
          then invalid ''created execution has progress'' else None
      | StatusRunningModel \<Rightarrow>
          if pendingCount cp \<noteq> 0 then invalid ''model state has a pending tool'' else None
      | StatusRunningTool \<Rightarrow>
          if pendingCount cp \<noteq> 1 then invalid ''tool state has no pending call'' else None
      | StatusCompleted \<Rightarrow>
          if pendingCount cp \<noteq> 0 \<or> cp_ModelIterations cp \<le> int (length (cp_Steps cp))
          then invalid ''completion has no final model decision'' else None
      | StatusOther _ \<Rightarrow> None
      | _ \<Rightarrow>
          if cp_Error cp = [] then invalid ''terminal error text is missing''
          else if cp_Transitions cp = [] then Some (GoPanic ''index out of range'')
          else if (tn_From (last (cp_Transitions cp)) = StatusRunningTool) \<noteq> (pendingCount cp = 1)
          then invalid ''terminal pending tool does not match its prior state'' else None)"

definition validateRecoveryState :: "Checkpoint \<Rightarrow> goerr option" where
  "validateRecoveryState cp =
     (if cp_ModelIterations cp < int (length (cp_Steps cp))
      then invalid ''completed steps exceed reserved model iterations''
      else case checkSteps 0 [] (cp_Steps cp) of Some e \<Rightarrow> Some e | None \<Rightarrow>
      case checkPending cp of Some e \<Rightarrow> Some e | None \<Rightarrow>
      if finished (cp_Transitions cp) \<noteq> length (cp_Steps cp)
         \<or> started (cp_Transitions cp) \<noteq> finished (cp_Transitions cp) + pendingCount cp
      then invalid ''tool history does not match transitions''
      else case checkStatus cp of Some e \<Rightarrow> Some e | None \<Rightarrow>
      if cp_Status cp \<noteq> StatusCompleted \<and> rs_Output (cp_Result cp) \<noteq> []
      then invalid ''noncompleted execution has final output''
      else if cp_Status cp \<noteq> StatusFailed \<and> cp_Status cp \<noteq> StatusCancelled \<and> cp_Error cp \<noteq> []
      then invalid ''nonfailed execution has error text''
      else None)"

abbreviation callStrings :: "ToolCall \<Rightarrow> string list" where
  "callStrings call \<equiv> [tc_ID call, tc_Name call, tc_Arguments call]"

definition checkpointStrings :: "Checkpoint \<Rightarrow> string list" where
  "checkpointStrings cp =
     [cp_ExecutionID cp, rq_Prompt (cp_Request cp), rs_Output (cp_Result cp), cp_Error cp] @
     (case cp_PendingTool cp of None \<Rightarrow> [] | Some call \<Rightarrow> callStrings call) @
     concat (map (\<lambda>s. callStrings (sp_Call s) @ [tr_CallID (sp_Result s), tr_Output (sp_Result s)])
               (cp_Steps cp))"

definition validateCheckpoint :: "Checkpoint \<Rightarrow> goerr option" where
  "validateCheckpoint cp =
     (if cp_SchemaVersion cp < 1 \<or> cp_SchemaVersion cp > CheckpointSchemaVersion
      then Some (Errorf [W (Sentinel ErrInvalidCheckpoint), Lit '': unsupported schema version '',
                         Num (cp_SchemaVersion cp)])
      else if cp_ExecutionID cp = [] \<or> cp_ExecutionID cp \<noteq> rq_ExecutionID (cp_Request cp)
              \<or> cp_ExecutionID cp \<noteq> rs_ExecutionID (cp_Result cp)
      then invalid ''inconsistent execution ID''
      else if rq_Prompt (cp_Request cp) = [] \<or> cp_MaxSteps cp \<le> 0 \<or> cp_ModelIterations cp < 0
              \<or> cp_ModelIterations cp > cp_MaxSteps cp
      then invalid ''invalid request or iteration budget''
      else if cp_MaxModelRetries cp < 0 \<or> cp_ModelRetries cp < 0
              \<or> cp_ModelRetries cp > cp_MaxModelRetries cp \<or> cp_ModelRetries cp > cp_ModelIterations cp
      then invalid ''invalid model retry budget''
      else if cp_SchemaVersion cp < 3 \<and> (cp_MaxModelRetries cp \<noteq> 0 \<or> cp_ModelRetries cp \<noteq> 0)
      then invalid ''retry state requires checkpoint schema version 3''
      else case followTransitions StatusCreated (cp_Transitions cp) of
        None \<Rightarrow> invalid ''invalid transition history''
      | Some status \<Rightarrow>
      if status \<noteq> cp_Status cp then invalid ''status does not match transition history''
      else case (if cp_SchemaVersion cp \<ge> 2 then validateRecoveryState cp else None) of
        Some e \<Rightarrow> Some e
      | None \<Rightarrow>
      if cp_Revision cp \<noteq> 0 \<and> cp_Revision cp \<noteq> checkpointRevision cp
      then Some (Errorf [W (Sentinel ErrInvalidCheckpoint), Lit '': checkpoint revision '',
                         Num (uint (cp_Revision cp)), Lit '' does not match durable progress '',
                         Num (uint (checkpointRevision cp))])
      else if \<not> list_all validString (checkpointStrings cp)
      then invalid ''checkpoint strings must be valid UTF-8''
      else None)"

section \<open>What validation accepts\<close>

abbreviation stepID :: "Step \<Rightarrow> string" where
  "stepID s \<equiv> tc_ID (sp_Call s)"

definition validCall :: "ToolCall \<Rightarrow> bool" where
  "validCall call \<longleftrightarrow> tc_ID call \<noteq> [] \<and> tc_Name call \<noteq> []"

definition wfSteps :: "Step list \<Rightarrow> bool" where
  "wfSteps steps \<longleftrightarrow>
     distinct (map stepID steps) \<and>
     (\<forall>i < length steps. sp_Index (steps ! i) = int i + 1) \<and>
     (\<forall>s \<in> set steps. tr_CallID (sp_Result s) = stepID s \<and> validCall (sp_Call s))"

definition wfPending :: "Checkpoint \<Rightarrow> bool" where
  "wfPending cp \<longleftrightarrow>
     (\<forall>call. cp_PendingTool cp = Some call \<longrightarrow>
        validCall call \<and> tc_ID call \<notin> stepID ` set (cp_Steps cp) \<and>
        int (length (cp_Steps cp)) < cp_ModelIterations cp)"

definition wfStatus :: "Checkpoint \<Rightarrow> bool" where
  "wfStatus cp \<longleftrightarrow>
     (cp_Status cp = StatusCreated \<longrightarrow>
        cp_ModelIterations cp = 0 \<and> cp_ModelRetries cp = 0 \<and> cp_PendingTool cp = None) \<and>
     (cp_Status cp = StatusRunningModel \<longrightarrow> cp_PendingTool cp = None) \<and>
     (cp_Status cp = StatusRunningTool \<longrightarrow> cp_PendingTool cp \<noteq> None) \<and>
     (cp_Status cp = StatusCompleted \<longrightarrow>
        cp_PendingTool cp = None \<and> int (length (cp_Steps cp)) < cp_ModelIterations cp) \<and>
     (cp_Status cp = StatusFailed \<or> cp_Status cp = StatusCancelled \<longrightarrow>
        cp_Error cp \<noteq> [] \<and> cp_Transitions cp \<noteq> [] \<and>
        (tn_From (last (cp_Transitions cp)) = StatusRunningTool \<longleftrightarrow> cp_PendingTool cp \<noteq> None)) \<and>
     (cp_Status cp \<noteq> StatusCompleted \<longrightarrow> rs_Output (cp_Result cp) = []) \<and>
     (cp_Status cp \<noteq> StatusFailed \<and> cp_Status cp \<noteq> StatusCancelled \<longrightarrow> cp_Error cp = [])"

definition wfRecovery :: "Checkpoint \<Rightarrow> bool" where
  "wfRecovery cp \<longleftrightarrow>
     int (length (cp_Steps cp)) \<le> cp_ModelIterations cp \<and>
     wfSteps (cp_Steps cp) \<and> wfPending cp \<and>
     finished (cp_Transitions cp) = length (cp_Steps cp) \<and>
     started (cp_Transitions cp) = length (cp_Steps cp) + (if cp_PendingTool cp = None then 0 else 1) \<and>
     wfStatus cp"

definition wfCheckpoint :: "Checkpoint \<Rightarrow> bool" where
  "wfCheckpoint cp \<longleftrightarrow>
     1 \<le> cp_SchemaVersion cp \<and> cp_SchemaVersion cp \<le> CheckpointSchemaVersion \<and>
     cp_ExecutionID cp \<noteq> [] \<and> rq_ExecutionID (cp_Request cp) = cp_ExecutionID cp \<and>
     rs_ExecutionID (cp_Result cp) = cp_ExecutionID cp \<and>
     rq_Prompt (cp_Request cp) \<noteq> [] \<and> 0 < cp_MaxSteps cp \<and>
     0 \<le> cp_ModelIterations cp \<and> cp_ModelIterations cp \<le> cp_MaxSteps cp \<and>
     0 \<le> cp_ModelRetries cp \<and> cp_ModelRetries cp \<le> cp_MaxModelRetries cp \<and>
     cp_ModelRetries cp \<le> cp_ModelIterations cp \<and>
     (cp_SchemaVersion cp < 3 \<longrightarrow> cp_MaxModelRetries cp = 0) \<and>
     followTransitions StatusCreated (cp_Transitions cp) = Some (cp_Status cp) \<and>
     (2 \<le> cp_SchemaVersion cp \<longrightarrow> wfRecovery cp) \<and>
     (cp_Revision cp = 0 \<or> cp_Revision cp = checkpointRevision cp) \<and>
     (\<forall>s \<in> set (checkpointStrings cp). validString s)"

lemma Validate_toolDecision [simp]: "Validate (toolDecision call) = None \<longleftrightarrow> validCall call"
  by (simp add: Validate_def validCall_def)

lemma invalid_not_None [simp]: "invalid r \<noteq> None" "None \<noteq> invalid r"
  by (simp_all add: invalid_def)

lemma checkSteps_iff:
  "checkSteps i seen steps = None \<longleftrightarrow>
     distinct (map stepID steps) \<and> stepID ` set steps \<inter> set seen = {} \<and>
     (\<forall>j < length steps. sp_Index (steps ! j) = int (i + j) + 1) \<and>
     (\<forall>s \<in> set steps. tr_CallID (sp_Result s) = stepID s \<and> validCall (sp_Call s))"
proof (induction i seen steps rule: checkSteps.induct)
  case (2 i seen step steps)
  have idx: "(\<forall>j < length (step # steps). sp_Index ((step # steps) ! j) = int (i + j) + 1) \<longleftrightarrow>
      sp_Index step = int i + 1 \<and> (\<forall>j < length steps. sp_Index (steps ! j) = int (Suc i + j) + 1)"
    by (auto simp: less_Suc_eq_0_disj)
  show ?case
    unfolding idx using "2.IH" by (auto simp: image_iff)
qed simp

lemma checkSteps_wfSteps: "checkSteps 0 [] steps = None \<longleftrightarrow> wfSteps steps"
  by (auto simp: checkSteps_iff wfSteps_def)

lemma checkPending_iff: "checkPending cp = None \<longleftrightarrow> wfPending cp"
  by (auto simp: checkPending_def wfPending_def split: option.splits)

lemma pendingCount_simps [simp]:
  "pendingCount cp = 0 \<longleftrightarrow> cp_PendingTool cp = None"
  "pendingCount cp = Suc 0 \<longleftrightarrow> cp_PendingTool cp \<noteq> None"
  by (auto simp: pendingCount_def split: option.splits)

lemma validateRecoveryState_iff: "validateRecoveryState cp = None \<longleftrightarrow> wfRecovery cp"
proof -
  have st: "checkStatus cp = None \<and>
      \<not> (cp_Status cp \<noteq> StatusCompleted \<and> rs_Output (cp_Result cp) \<noteq> []) \<and>
      \<not> (cp_Status cp \<noteq> StatusFailed \<and> cp_Status cp \<noteq> StatusCancelled \<and> cp_Error cp \<noteq> [])
      \<longleftrightarrow> wfStatus cp"
    by (cases "cp_Status cp") (auto simp: checkStatus_def wfStatus_def)
  have pc: "pendingCount cp = (if cp_PendingTool cp = None then 0 else 1)"
    by (auto simp: pendingCount_def split: option.splits)
  show ?thesis
    unfolding wfRecovery_def validateRecoveryState_def st [symmetric] pc
      checkSteps_wfSteps [symmetric] checkPending_iff [symmetric]
    by (auto simp: not_less invalid_def split: option.splits)
qed

lemma validateCheckpoint_iff: "validateCheckpoint cp = None \<longleftrightarrow> wfCheckpoint cp"
  unfolding wfCheckpoint_def validateCheckpoint_def validateRecoveryState_iff [symmetric]
  by (auto simp: not_less list_all_iff invalid_def split: option.splits if_splits)

lemma followTransitions_failed:
  "followTransitions StatusCreated ts = Some st \<Longrightarrow> st \<noteq> StatusCreated \<Longrightarrow> ts \<noteq> []"
  by auto

lemma checkSteps_no_panic: "checkSteps i seen steps \<noteq> Some (GoPanic m)"
  by (induction i seen steps rule: checkSteps.induct) (auto simp: invalid_def errMsg_def)

lemma validateRecoveryState_no_panic:
  assumes "followTransitions StatusCreated (cp_Transitions cp) = Some (cp_Status cp)"
  shows "validateRecoveryState cp \<noteq> Some (GoPanic m)"
proof -
  have "checkStatus cp \<noteq> Some (GoPanic m)"
    using assms
    by (cases "cp_Status cp") (auto simp: checkStatus_def invalid_def errMsg_def)
  moreover have "checkPending cp \<noteq> Some (GoPanic m)"
    by (auto simp: checkPending_def invalid_def errMsg_def split: option.splits)
  ultimately show ?thesis
    using checkSteps_no_panic
    by (auto simp: validateRecoveryState_def invalid_def errMsg_def split: option.splits)
qed

lemma validateCheckpoint_no_panic: "validateCheckpoint cp \<noteq> Some (GoPanic m)"
  using validateRecoveryState_no_panic [of cp m]
  by (auto simp: validateCheckpoint_def invalid_def errMsg_def split: option.splits if_splits)

text \<open>Every rejection is classified as \<open>ErrInvalidCheckpoint\<close>.\<close>

lemma checkSteps_error: "checkSteps i seen steps = Some e \<Longrightarrow> errorsIs e ErrInvalidCheckpoint"
  by (induction i seen steps rule: checkSteps.induct) (auto simp: invalid_def split: if_splits)

lemma validateRecoveryState_error:
  assumes "validateRecoveryState cp = Some e"
    and "followTransitions StatusCreated (cp_Transitions cp) = Some (cp_Status cp)"
  shows "errorsIs e ErrInvalidCheckpoint"
proof -
  have "errorsIs e ErrInvalidCheckpoint" if "checkStatus cp = Some e" for e
    using that assms(2)
    by (cases "cp_Status cp") (auto simp: checkStatus_def invalid_def split: if_splits)
  moreover have "errorsIs e ErrInvalidCheckpoint" if "checkPending cp = Some e" for e
    using that by (auto simp: checkPending_def invalid_def split: option.splits if_splits)
  ultimately show ?thesis
    using assms(1) checkSteps_error
    by (auto simp: validateRecoveryState_def invalid_def split: option.splits if_splits)
qed

lemma validateCheckpoint_error:
  "validateCheckpoint cp = Some e \<Longrightarrow> errorsIs e ErrInvalidCheckpoint"
  by (auto simp: validateCheckpoint_def invalid_def dest: validateRecoveryState_error
      split: option.splits if_splits)

section \<open>The revision counts durable progress\<close>

definition progress :: "Checkpoint \<Rightarrow> nat" where
  "progress cp =
     1 + nat (cp_ModelIterations cp) + nat (cp_ModelRetries cp) +
     started (cp_Transitions cp) + finished (cp_Transitions cp) +
     (if terminal (cp_Status cp) then 1 else 0)"

lemma revision_fold:
  "foldl (\<lambda>r t. if tn_To t = StatusRunningTool \<or>
                    (tn_From t = StatusRunningTool \<and> tn_To t = StatusRunningModel)
                 then r + 1 else r) (r :: uint64) ts = r + of_nat (started ts + finished ts)"
  by (induction ts arbitrary: r) (auto simp: startsTool_def finishesTool_def)

lemma checkpointRevision_eq:
  assumes "0 \<le> cp_ModelIterations cp" "0 \<le> cp_ModelRetries cp"
  shows "checkpointRevision cp = of_nat (progress cp)"
proof -
  have "word_of_int (cp_ModelIterations cp) = (of_nat (nat (cp_ModelIterations cp)) :: uint64)"
       "word_of_int (cp_ModelRetries cp) = (of_nat (nat (cp_ModelRetries cp)) :: uint64)"
    using assms by simp_all
  then show ?thesis
    by (cases "cp_Status cp")
       (simp_all add: checkpointRevision_def progress_def revision_fold terminal_def)
qed

definition revisionFits :: "Checkpoint \<Rightarrow> bool" where
  "revisionFits cp \<longleftrightarrow> cp_MaxSteps cp \<le> 2 ^ 61"

lemma wfRecovery_progress_bound:
  assumes "wfRecovery cp" "0 \<le> cp_ModelRetries cp" "cp_ModelRetries cp \<le> cp_ModelIterations cp"
    "cp_ModelIterations cp \<le> cp_MaxSteps cp"
  shows "int (progress cp) \<le> 4 * cp_MaxSteps cp + 3"
  using assms by (auto simp: progress_def wfRecovery_def split: if_splits)

lemma checkpointRevision_unat:
  assumes "wfRecovery cp" "0 \<le> cp_ModelRetries cp" "cp_ModelRetries cp \<le> cp_ModelIterations cp"
    "cp_ModelIterations cp \<le> cp_MaxSteps cp" "revisionFits cp"
  shows "unat (checkpointRevision cp) = progress cp"
proof -
  from wfRecovery_progress_bound [OF assms(1-4)] assms(5)
  have "progress cp < 2 ^ 64" by (simp add: revisionFits_def)
  moreover have "checkpointRevision cp = of_nat (progress cp)"
    using assms by (intro checkpointRevision_eq) auto
  ultimately show ?thesis by (simp add: unat_of_nat_uint64)
qed

lemma checkpointRevision_pos:
  assumes "wfRecovery cp" "0 \<le> cp_ModelRetries cp" "cp_ModelRetries cp \<le> cp_ModelIterations cp"
    "cp_ModelIterations cp \<le> cp_MaxSteps cp" "revisionFits cp"
  shows "checkpointRevision cp \<noteq> 0"
proof -
  have "0 < progress cp" by (simp add: progress_def)
  with checkpointRevision_unat [OF assms] show ?thesis by auto
qed

end
