(* ===== verification/Stores.thy ===== *)
theory Stores
  imports Checkpoints
begin

text \<open>
  The store interfaces of \<^verbatim>\<open>checkpoint.go\<close>, \<^verbatim>\<open>execution_lease.go\<close> and
  \<^verbatim>\<open>execution_lease_renewal.go\<close> as one record of operations over a store state. The optional
  capabilities, which the code discovers by type assertions, are optional fields:
  \<^verbatim>\<open>ExecutionLeaser\<close>, \<^verbatim>\<open>FencedCheckpointStore\<close>, \<^verbatim>\<open>ExecutionLocker\<close> and
  \<^verbatim>\<open>ExecutionLeaseRenewer\<close>.

  What a store operation reads from outside during one call is its first argument, a \<open>store_call\<close>:
  whether the context is nil, the value of \<^verbatim>\<open>ctx.Err()\<close> at each successive check the operation
  makes, the clock (in nanoseconds), the outcome of each operating-system or database call, whether a
  database call that reports an error had taken effect before, and the error that decoding a
  checkpoint document reports if it is rejected.
  A release function returned by an acquisition is a function of the store state.
\<close>

datatype io_op =
    OsReadFile | OsCreateTemp | OsWrite | OsSync | OsClose | OsLink | OsRename | OsOpenDir | OsSyncDir
  | OsOpenFile | OsOpenLock | OsFlock | FileAbs | OsMkdir | OsStat
  | DbOpen | DbPing | DbQuery | DbExec | DbRowsAffected | DbClassify | DbClose

record store_call =
  sc_nil :: bool
  sc_err :: "nat \<Rightarrow> goerr option"
  sc_now :: int
  sc_io :: "io_op \<Rightarrow> goerr option"
  sc_late :: "io_op \<Rightarrow> bool"
  sc_json :: goerr

type_synonym 's release = "store_call \<Rightarrow> 's \<Rightarrow> 's"

record 's CheckpointStore =
  st_Create :: "store_call \<Rightarrow> Checkpoint \<Rightarrow> 's \<Rightarrow> 's \<times> goerr option"
  st_Save :: "store_call \<Rightarrow> Checkpoint \<Rightarrow> 's \<Rightarrow> 's \<times> goerr option"
  st_Load :: "store_call \<Rightarrow> string \<Rightarrow> 's \<Rightarrow> goerr + Checkpoint"
  st_AcquireExecutionLease ::
    "(store_call \<Rightarrow> string \<Rightarrow> 's \<Rightarrow> 's \<times> (goerr + uint64 \<times> 's release option)) option"
  st_Fenced ::
    "((store_call \<Rightarrow> Checkpoint \<Rightarrow> uint64 \<Rightarrow> 's \<Rightarrow> 's \<times> goerr option) \<times>
      (store_call \<Rightarrow> Checkpoint \<Rightarrow> uint64 \<Rightarrow> 's \<Rightarrow> 's \<times> goerr option)) option"
  st_LockExecution ::
    "(store_call \<Rightarrow> string \<Rightarrow> 's \<Rightarrow> 's \<times> (goerr + 's release option)) option"
  st_Renewer ::
    "((store_call \<Rightarrow> string \<Rightarrow> uint64 \<Rightarrow> 's \<Rightarrow> 's \<times> goerr option) \<times> ('s \<Rightarrow> int)) option"

text \<open>\<^verbatim>\<open>checkStoreContext\<close>: a nil context is refused, otherwise \<^verbatim>\<open>ctx.Err()\<close> decides.\<close>

definition checkStoreContext :: "store_call \<Rightarrow> goerr option" where
  "checkStoreContext c =
     (if sc_nil c then Some (errMsg ErrInvalidRequest ''context is required'') else sc_err c 0)"

end
