(* ===== verification/Observers.thy ===== *)
theory Observers
  imports Lifecycle
begin

text \<open>
  Observability hooks (\<^verbatim>\<open>observer.go\<close>). An observer is a function on its own state that may also
  panic: it returns the state it left behind and whether it panicked. \<^verbatim>\<open>deliverObserver\<close> recovers,
  so only the state remains; \<^verbatim>\<open>observerGroup\<close> delivers one event to every member in order.
\<close>

datatype EventType =
    EventExecutionStarted | EventModelStarted | EventModelCompleted | EventToolStarted
  | EventToolCompleted | EventExecutionCompleted | EventExecutionFailed | EventExecutionCancelled
  | EventOther string

record Event =
  ev_Type :: EventType
  ev_ExecutionID :: string
  ev_Status :: Status
  ev_ModelAttempt :: int
  ev_ToolCallID :: string
  ev_ToolName :: string
  ev_Duration :: int
  ev_Error :: "goerr option"

type_synonym 'o observer = "Event \<Rightarrow> 'o \<Rightarrow> 'o \<times> bool"

definition deliverObserver :: "'o observer \<Rightarrow> Event \<Rightarrow> 'o \<Rightarrow> 'o" where
  "deliverObserver obs event st = fst (obs event st)"

fun observerGroupOnEvent :: "'o observer list \<Rightarrow> 'o observer" where
  "observerGroupOnEvent [] event st = (st, False)"
| "observerGroupOnEvent (obs # members) event st =
     observerGroupOnEvent members event (deliverObserver obs event st)"

fun terminalEventType :: "Status \<Rightarrow> EventType" where
  "terminalEventType StatusCompleted = EventExecutionCompleted"
| "terminalEventType StatusFailed = EventExecutionFailed"
| "terminalEventType StatusCancelled = EventExecutionCancelled"
| "terminalEventType _ = EventOther []"

definition plainEvent :: "EventType \<Rightarrow> string \<Rightarrow> Status \<Rightarrow> int \<Rightarrow> Event" where
  "plainEvent ty eid status attempt =
     \<lparr>ev_Type = ty, ev_ExecutionID = eid, ev_Status = status, ev_ModelAttempt = attempt,
      ev_ToolCallID = [], ev_ToolName = [], ev_Duration = 0, ev_Error = None\<rparr>"

lemma terminalEventType_other: "terminalEventType st = EventOther [] \<longleftrightarrow> \<not> terminal st"
  by (cases st) (simp_all add: terminal_def)

lemma observerGroup_never_panics: "snd (observerGroupOnEvent members event st) = False"
  by (induction members arbitrary: st) simp_all

lemma observerGroup_delivers_in_order:
  "fst (observerGroupOnEvent members event st) = foldl (\<lambda>st obs. deliverObserver obs event st) st members"
  by (induction members arbitrary: st) simp_all

end
