(* ===== verification/Model_Retry.thy ===== *)
theory Model_Retry
  imports Checkpoints
begin

text \<open>
  The retry policy for transient model failures (\<^verbatim>\<open>model_retry.go\<close>): which errors may be retried and
  when the two budgets allow it. The wait between two attempts involves the execution context and is
  part of the run loop.
\<close>

record ModelRetryPolicy =
  mr_MaxRetries :: int
  mr_Delay :: int

definition IsTransientModelError :: "goerr option \<Rightarrow> bool" where
  "IsTransientModelError err =
     (case err of
        None \<Rightarrow> False
      | Some e \<Rightarrow>
          if errorsIs e ContextCanceled then False
          else if errorsIs e ErrModelTimeout then True
          else case errorsAsHTTP e of
            Some (code, body) \<Rightarrow> code \<in> {408, 429, 500, 502, 503, 504}
          | None \<Rightarrow> if errorsIs e ErrModelResponse then False else errorsIs e ErrModelProvider)"

definition canRetryModel :: "goerr option \<Rightarrow> Checkpoint \<Rightarrow> int \<Rightarrow> int \<Rightarrow> bool" where
  "canRetryModel err cp iterations modelRetries \<longleftrightarrow>
     cp_MaxModelRetries cp > modelRetries \<and> iterations < cp_MaxSteps cp \<and> IsTransientModelError err"

text \<open>An HTTP status alone decides a provider failure; the response body never matters.\<close>

lemma transient_http:
  "IsTransientModelError (Some (HTTPError code body)) \<longleftrightarrow> code \<in> {408, 429, 500, 502, 503, 504}"
  by (simp add: IsTransientModelError_def)

lemma canRetryModel_budget:
  "canRetryModel err cp i r \<Longrightarrow> r + 1 \<le> cp_MaxModelRetries cp \<and> i + 1 \<le> cp_MaxSteps cp"
  by (simp add: canRetryModel_def)

end
