(* ===== verification/Sessions.thy ===== *)
theory Sessions
  imports Stores Observers Model_Retry
begin

text \<open>
  The world a running execution sees, and the operations through which it touches that world.

  Time is a counter of external operations (\<open>w_tick\<close>): every store call, callback, wait and
  observer delivery takes one tick, and what happens outside meanwhile (the caller cancels, the
  renewal ticker fires, a callback answers) is a function of the tick in the environment \<open>env\<close>.
  Code between two external operations is instantaneous. \<open>w_done\<close> is the execution context: \<open>None\<close>
  while it is live, afterwards \<^verbatim>\<open>ctx.Err()\<close> and \<^verbatim>\<open>context.Cause(ctx)\<close>; once done it stays done.
  \<open>w_log\<close> is the history of external effects in order; a process crash leaves a prefix of it.

  \<open>passTime\<close> also runs the lease-renewal goroutine of \<^verbatim>\<open>execution_lease_renewal.go\<close>: when its
  ticker fires it renews the lease, and a failed renewal cancels the context with
  \<^verbatim>\<open>ErrExecutionLeaseLost\<close>.

  Models and tools are callbacks of the caller: functions of the tick and of their argument that
  answer a Go pair of a value and an error, or \<open>None\<close> for a panic. \<^verbatim>\<open>timeoutModel\<close> and
  \<^verbatim>\<open>timeoutToolExecutor\<close> (\<^verbatim>\<open>callback_timeout.go\<close>) wrap them with a deadline of their own.
\<close>

section \<open>Effects, environment, runtime, world\<close>

datatype effect =
    Observed Event
  | ModelCalled ModelInput
  | ToolExecuted ToolCall
  | ToolReconciled ToolCall
  | ToolReplayed ToolCall
  | Wrote bool Checkpoint uint64 "goerr option"
  | Loaded string "goerr + Checkpoint"
  | Renewed uint64 "goerr option"

record env =
  en_clock :: "nat \<Rightarrow> int"
  en_ctx :: "nat \<Rightarrow> (goerr \<times> goerr) option"
  en_call :: "nat \<Rightarrow> store_call"
  en_renewTick :: "nat \<Rightarrow> bool"
  en_timerFirst :: "nat \<Rightarrow> bool"
  en_isPrint :: "nat \<Rightarrow> bool"

datatype Model =
    BaseModel "nat \<Rightarrow> ModelInput \<Rightarrow> (Decision \<times> goerr option) option"
  | timeoutModel Model int

datatype ToolOutcomeState = ToolOutcomeUnknown | ToolOutcomeCompleted | ToolOutcomeOther string

record ToolOutcome =
  oc_State :: ToolOutcomeState
  oc_Output :: string

record tool_ops =
  to_Execute :: "nat \<Rightarrow> ToolCall \<Rightarrow> (string \<times> goerr option) option"
  to_ReconcileToolOutcome :: "(nat \<Rightarrow> ToolCall \<Rightarrow> (ToolOutcome \<times> goerr option) option) option"
  to_Replay :: "(nat \<Rightarrow> ToolCall \<Rightarrow> (string \<times> goerr option) option) option"

datatype ToolExecutor = BaseTools tool_ops | timeoutToolExecutor ToolExecutor int

record ('s, 'o) Runtime =
  rt_store :: "'s CheckpointStore option"
  rt_model :: Model
  rt_tools :: "ToolExecutor option"
  rt_observer :: "'o observer option"
  rt_maxSteps :: int
  rt_modelRetry :: ModelRetryPolicy

text \<open>
  A session fixes what one \<^verbatim>\<open>Run\<close> or \<^verbatim>\<open>Resume\<close> call works with: environment, runtime, the execution,
  the fencing token carried by its context (0 for none) and whether the renewal goroutine runs.
\<close>

record ('s, 'o) session =
  ss_env :: env
  ss_rt :: "('s, 'o) Runtime"
  ss_id :: string
  ss_token :: uint64
  ss_renewing :: bool

record ('s, 'o) world =
  w_tick :: nat
  w_store :: 's
  w_obs :: 'o
  w_done :: "(goerr \<times> goerr) option"
  w_log :: "effect list"

section \<open>Time and the execution context\<close>

abbreviation now :: "('s, 'o) session \<Rightarrow> ('s, 'o, 'z) world_scheme \<Rightarrow> int" where
  "now X w \<equiv> en_clock (ss_env X) (w_tick w)"

definition emit :: "effect \<Rightarrow> ('s, 'o, 'z) world_scheme \<Rightarrow> ('s, 'o, 'z) world_scheme" where
  "emit e w = w\<lparr>w_log := w_log w @ [e]\<rparr>"

text \<open>One turn of the renewal goroutine.\<close>

definition renewStep :: "('s, 'o) session \<Rightarrow> ('s, 'o, 'z) world_scheme \<Rightarrow> ('s, 'o, 'z) world_scheme" where
  "renewStep X w =
     (if \<not> ss_renewing X \<or> w_done w \<noteq> None \<or> \<not> en_renewTick (ss_env X) (w_tick w) then w
      else case rt_store (ss_rt X) of None \<Rightarrow> w | Some st \<Rightarrow>
      case st_Renewer st of None \<Rightarrow> w | Some (renew, interval) \<Rightarrow>
      let (s', err) = renew (en_call (ss_env X) (w_tick w)) (ss_id X) (ss_token X) (w_store w);
          w' = emit (Renewed (ss_token X) err) (w\<lparr>w_store := s'\<rparr>)
      in case err of
           None \<Rightarrow> w'
         | Some e \<Rightarrow>
             w'\<lparr>w_done := Some (Sentinel ContextCanceled,
                 Errorf [W (Sentinel ErrExecutionLeaseLost), Lit '': execution '', Quoted (ss_id X),
                         Lit '' token '', Num (uint (ss_token X)), Lit '': '', W e])\<rparr>)"

definition passTime :: "('s, 'o) session \<Rightarrow> ('s, 'o, 'z) world_scheme \<Rightarrow> ('s, 'o, 'z) world_scheme" where
  "passTime X w =
     (let w' = w\<lparr>w_tick := Suc (w_tick w)\<rparr>
      in renewStep X (if w_done w' = None then w'\<lparr>w_done := en_ctx (ss_env X) (w_tick w')\<rparr> else w'))"

definition executionContextErr :: "('s, 'o, 'z) world_scheme \<Rightarrow> goerr option" where
  "executionContextErr w = (case w_done w of None \<Rightarrow> None | Some (err, cause) \<Rightarrow> Some cause)"

definition observe :: "('s, 'o) session \<Rightarrow> Event \<Rightarrow> ('s, 'o, 'z) world_scheme \<Rightarrow> ('s, 'o, 'z) world_scheme" where
  "observe X event w =
     (case rt_observer (ss_rt X) of
        None \<Rightarrow> w
      | Some obs \<Rightarrow>
          passTime X (emit (Observed event) (w\<lparr>w_obs := deliverObserver obs event (w_obs w)\<rparr>)))"

section \<open>Checkpoint writes\<close>

definition storeError :: "string \<Rightarrow> goerr \<Rightarrow> goerr" where
  "storeError eid e =
     Errorf [W (Sentinel ErrCheckpointStore), Lit '': execution '', Quoted eid, Lit '': '', W e]"

definition leaseLost :: "('s, 'o, 'z) world_scheme \<Rightarrow> goerr option" where
  "leaseLost w =
     (case w_done w of
        Some (err, cause) \<Rightarrow> if errorsIs cause ErrExecutionLeaseLost then Some cause else None
      | None \<Rightarrow> None)"

definition finishWrite ::
  "('s, 'o) session \<Rightarrow> bool \<Rightarrow> Checkpoint \<Rightarrow> 's \<times> goerr option \<Rightarrow> ('s, 'o, 'z) world_scheme \<Rightarrow>
     ('s, 'o, 'z) world_scheme \<times> goerr option" where
  "finishWrite X create cp r w =
     (passTime X (emit (Wrote create cp (ss_token X) (snd r)) (w\<lparr>w_store := fst r\<rparr>)),
      map_option (storeError (cp_ExecutionID cp)) (snd r))"

definition writeCheckpoint ::
  "('s, 'o) session \<Rightarrow> 's CheckpointStore \<Rightarrow> Checkpoint \<Rightarrow> bool \<Rightarrow> ('s, 'o, 'z) world_scheme \<Rightarrow>
     ('s, 'o, 'z) world_scheme \<times> goerr option" where
  "writeCheckpoint X st checkpoint create w =
     (case leaseLost w of
        Some cause \<Rightarrow> (w, Some (storeError (cp_ExecutionID checkpoint) cause))
      | None \<Rightarrow>
        let cp = checkpoint\<lparr>cp_Revision := checkpointRevision checkpoint\<rparr>;
            c = en_call (ss_env X) (w_tick w)
        in if ss_token X \<noteq> 0 then
             (case st_Fenced st of
                None \<Rightarrow> (w, Some (storeError (cp_ExecutionID cp) (Sentinel ErrLeaseFencingUnsupported)))
              | Some (createFenced, saveFenced) \<Rightarrow>
                  finishWrite X create cp
                    ((if create then createFenced else saveFenced) c (cloneCheckpoint cp) (ss_token X) (w_store w)) w)
           else
             finishWrite X create cp
               ((if create then st_Create st else st_Save st) c (cloneCheckpoint cp) (w_store w)) w)"

section \<open>Callbacks and their deadlines\<close>

definition callbackTimeoutError :: "sentinel \<Rightarrow> int \<Rightarrow> goerr" where
  "callbackTimeoutError kind timeout =
     Errorf [W (Sentinel kind), Lit '': '', W (Sentinel ContextDeadlineExceeded), Lit '' after '', Dur timeout]"

text \<open>
  The two checks after a callback under a child deadline that was armed at time \<open>t0\<close>: the outer
  context first, then the child. The child is past its deadline when \<open>timeout\<close> has elapsed.
\<close>

definition afterDeadline ::
  "('s, 'o) session \<Rightarrow> sentinel \<Rightarrow> int \<Rightarrow> int \<Rightarrow> ('s, 'o, 'z) world_scheme \<Rightarrow> goerr option" where
  "afterDeadline X kind t0 timeout w =
     (case w_done w of
        Some (parentErr, cause) \<Rightarrow> Some parentErr
      | None \<Rightarrow> if now X w \<ge> t0 + timeout then Some (callbackTimeoutError kind timeout) else None)"

fun Next ::
  "('s, 'o) session \<Rightarrow> Model \<Rightarrow> ModelInput \<Rightarrow> ('s, 'o, 'z) world_scheme \<Rightarrow>
     ('s, 'o, 'z) world_scheme \<times> (Decision \<times> goerr option) option" where
  "Next X (BaseModel f) input w = (passTime X (emit (ModelCalled input) w), f (w_tick w) input)"
| "Next X (timeoutModel inner timeout) input w =
     (case Next X inner input w of
        (w', None) \<Rightarrow> (w', None)
      | (w', Some (decision, err)) \<Rightarrow>
          (w', Some (case afterDeadline X ErrModelTimeout (now X w) timeout w' of
                       Some e \<Rightarrow> (zeroDecision, Some e)
                     | None \<Rightarrow> (decision, err))))"

definition executeWithTimeout ::
  "('s, 'o) session \<Rightarrow> int \<Rightarrow>
     (('s, 'o, 'z) world_scheme \<Rightarrow> ('s, 'o, 'z) world_scheme \<times> (string \<times> goerr option) option) \<Rightarrow>
     ('s, 'o, 'z) world_scheme \<Rightarrow> ('s, 'o, 'z) world_scheme \<times> (string \<times> goerr option) option" where
  "executeWithTimeout X timeout callback w =
     (case callback w of
        (w', None) \<Rightarrow> (w', None)
      | (w', Some (output, err)) \<Rightarrow>
          (w', Some (case afterDeadline X ErrToolTimeout (now X w) timeout w' of
                       Some e \<Rightarrow> ([], Some e)
                     | None \<Rightarrow> (output, err))))"

fun Execute ::
  "('s, 'o) session \<Rightarrow> ToolExecutor \<Rightarrow> ToolCall \<Rightarrow> ('s, 'o, 'z) world_scheme \<Rightarrow>
     ('s, 'o, 'z) world_scheme \<times> (string \<times> goerr option) option" where
  "Execute X (BaseTools ops) call w =
     (passTime X (emit (ToolExecuted call) w), to_Execute ops (w_tick w) call)"
| "Execute X (timeoutToolExecutor inner timeout) call w =
     executeWithTimeout X timeout (Execute X inner call) w"

text \<open>
  The optional capabilities. The timeout wrapper implements both interfaces whatever it wraps and
  answers with the \<^verbatim>\<open>unsupported\<close> error, respectively the \<^verbatim>\<open>unknown\<close> outcome, for an executor that
  does not.
\<close>

fun implementsReplay :: "ToolExecutor \<Rightarrow> bool" where
  "implementsReplay (BaseTools ops) = (to_Replay ops \<noteq> None)"
| "implementsReplay (timeoutToolExecutor inner timeout) = True"

fun Replay ::
  "('s, 'o) session \<Rightarrow> ToolExecutor \<Rightarrow> ToolCall \<Rightarrow> ('s, 'o, 'z) world_scheme \<Rightarrow>
     ('s, 'o, 'z) world_scheme \<times> (string \<times> goerr option) option" where
  "Replay X (BaseTools ops) call w =
     (case to_Replay ops of
        None \<Rightarrow> (w, Some ([], Some (Sentinel errToolReplayUnsupported)))
      | Some f \<Rightarrow> (passTime X (emit (ToolReplayed call) w), f (w_tick w) call))"
| "Replay X (timeoutToolExecutor inner timeout) call w =
     (if \<not> implementsReplay inner then (w, Some ([], Some (Sentinel errToolReplayUnsupported)))
      else executeWithTimeout X timeout (Replay X inner call) w)"

fun implementsReconcile :: "ToolExecutor \<Rightarrow> bool" where
  "implementsReconcile (BaseTools ops) = (to_ReconcileToolOutcome ops \<noteq> None)"
| "implementsReconcile (timeoutToolExecutor inner timeout) = True"

fun ReconcileToolOutcome ::
  "('s, 'o) session \<Rightarrow> ToolExecutor \<Rightarrow> ToolCall \<Rightarrow> ('s, 'o, 'z) world_scheme \<Rightarrow>
     ('s, 'o, 'z) world_scheme \<times> (ToolOutcome \<times> goerr option) option" where
  "ReconcileToolOutcome X (BaseTools ops) call w =
     (case to_ReconcileToolOutcome ops of
        None \<Rightarrow> (w, Some (\<lparr>oc_State = ToolOutcomeUnknown, oc_Output = []\<rparr>, None))
      | Some f \<Rightarrow> (passTime X (emit (ToolReconciled call) w), f (w_tick w) call))"
| "ReconcileToolOutcome X (timeoutToolExecutor inner timeout) call w =
     (if \<not> implementsReconcile inner
      then (w, Some (\<lparr>oc_State = ToolOutcomeUnknown, oc_Output = []\<rparr>, None))
      else ReconcileToolOutcome X inner call w)"

end
