(* ===== verification/Flow.thy ===== *)
theory Flow
  imports Main
begin

text \<open>
  Control flow of Go function bodies over an explicit state: a body either goes on with a value,
  returns early from the enclosing function, or panics. \<open>andThen\<close> is sequencing; a \<open>triple\<close> states
  what holds afterwards in each of the three cases. The harness loop is written with these
  combinators and its invariants are proved with the rules below.
\<close>

datatype ('a, 'r) flow = Go 'a | Ret 'r | Panic

type_synonym ('w, 'a, 'r) prog = "'w \<Rightarrow> 'w \<times> ('a, 'r) flow"

definition pass :: "'a \<Rightarrow> ('w, 'a, 'r) prog" where
  "pass x s = (s, Go x)"

definition returns :: "'r \<Rightarrow> ('w, 'a, 'r) prog" where
  "returns r s = (s, Ret r)"

definition panics :: "('w, 'a, 'r) prog" where
  "panics s = (s, Panic)"

definition modify :: "('w \<Rightarrow> 'w) \<Rightarrow> ('w, unit, 'r) prog" where
  "modify f s = (f s, Go ())"

definition reads :: "('w \<Rightarrow> ('w, 'a, 'r) prog) \<Rightarrow> ('w, 'a, 'r) prog" where
  "reads k s = k s s"

definition andThen :: "('w, 'a, 'r) prog \<Rightarrow> ('a \<Rightarrow> ('w, 'b, 'r) prog) \<Rightarrow> ('w, 'b, 'r) prog" where
  "andThen m k s =
     (case m s of
        (s', Go x) \<Rightarrow> k x s'
      | (s', Ret r) \<Rightarrow> (s', Ret r)
      | (s', Panic) \<Rightarrow> (s', Panic))"

definition triple ::
  "('w \<Rightarrow> bool) \<Rightarrow> ('w, 'a, 'r) prog \<Rightarrow> ('a \<Rightarrow> 'w \<Rightarrow> bool) \<Rightarrow> ('r \<Rightarrow> 'w \<Rightarrow> bool) \<Rightarrow> ('w \<Rightarrow> bool) \<Rightarrow> bool" where
  "triple P m Q R C \<longleftrightarrow>
     (\<forall>s. P s \<longrightarrow>
        (case m s of (s', Go x) \<Rightarrow> Q x s' | (s', Ret r) \<Rightarrow> R r s' | (s', Panic) \<Rightarrow> C s'))"

lemma triple_Go: "triple P m Q R C \<Longrightarrow> P s \<Longrightarrow> m s = (s', Go x) \<Longrightarrow> Q x s'"
  by (auto simp: triple_def)

lemma triple_Ret: "triple P m Q R C \<Longrightarrow> P s \<Longrightarrow> m s = (s', Ret r) \<Longrightarrow> R r s'"
  by (auto simp: triple_def)

lemma triple_Panic: "triple P m Q R C \<Longrightarrow> P s \<Longrightarrow> m s = (s', Panic) \<Longrightarrow> C s'"
  by (auto simp: triple_def)

lemma triple_andThen:
  assumes "triple P m Q R C" and "\<And>x. triple (Q x) (k x) S R C"
  shows "triple P (andThen m k) S R C"
  unfolding triple_def
proof (intro allI impI)
  fix s
  assume P: "P s"
  obtain s' f where m: "m s = (s', f)" by (cases "m s")
  show "case andThen m k s of (s', Go x) \<Rightarrow> S x s' | (s', Ret r) \<Rightarrow> R r s' | (s', Panic) \<Rightarrow> C s'"
  proof (cases f)
    case (Go x)
    with assms(1) P m have "Q x s'" by (auto simp: triple_def)
    with assms(2) Go m show ?thesis by (auto simp: triple_def andThen_def)
  next
    case (Ret r)
    with assms(1) P m show ?thesis by (auto simp: triple_def andThen_def)
  next
    case Panic
    with assms(1) P m show ?thesis by (auto simp: triple_def andThen_def)
  qed
qed

lemma triple_pass: "(\<And>s. P s \<Longrightarrow> Q x s) \<Longrightarrow> triple P (pass x) Q R C"
  by (simp add: triple_def pass_def)

lemma triple_returns: "(\<And>s. P s \<Longrightarrow> R r s) \<Longrightarrow> triple P (returns r) Q R C"
  by (simp add: triple_def returns_def)

lemma triple_panics: "(\<And>s. P s \<Longrightarrow> C s) \<Longrightarrow> triple P panics Q R C"
  by (simp add: triple_def panics_def)

lemma triple_modify: "(\<And>s. P s \<Longrightarrow> Q () (f s)) \<Longrightarrow> triple P (modify f) Q R C"
  by (simp add: triple_def modify_def)

lemma triple_reads: "(\<And>s0. triple (\<lambda>s. P s \<and> s = s0) (k s0) Q R C) \<Longrightarrow> triple P (reads k) Q R C"
  by (simp add: triple_def reads_def)

lemma triple_if:
  "(b \<Longrightarrow> triple P m Q R C) \<Longrightarrow> (\<not> b \<Longrightarrow> triple P n Q R C) \<Longrightarrow> triple P (if b then m else n) Q R C"
  by simp

lemma triple_option:
  "(x = None \<Longrightarrow> triple P m Q R C) \<Longrightarrow> (\<And>y. x = Some y \<Longrightarrow> triple P (n y) Q R C) \<Longrightarrow>
     triple P (case x of None \<Rightarrow> m | Some y \<Rightarrow> n y) Q R C"
  by (cases x) auto

lemma triple_pre: "triple P' m Q R C \<Longrightarrow> (\<And>s. P s \<Longrightarrow> P' s) \<Longrightarrow> triple P m Q R C"
  by (auto simp: triple_def)

lemma triple_post:
  assumes "triple P m Q' R' C'"
    and "\<And>x s. Q' x s \<Longrightarrow> Q x s" "\<And>r s. R' r s \<Longrightarrow> R r s" "\<And>s. C' s \<Longrightarrow> C s"
  shows "triple P m Q R C"
  unfolding triple_def
proof (intro allI impI)
  fix s
  assume "P s"
  with assms(1) have "case m s of (s', Go x) \<Rightarrow> Q' x s' | (s', Ret r) \<Rightarrow> R' r s' | (s', Panic) \<Rightarrow> C' s'"
    by (simp add: triple_def)
  with assms(2-) show "case m s of (s', Go x) \<Rightarrow> Q x s' | (s', Ret r) \<Rightarrow> R r s' | (s', Panic) \<Rightarrow> C s'"
    by (auto split: prod.splits flow.splits)
qed

lemma triple_cut:
  "(\<And>s. P s \<Longrightarrow> X) \<Longrightarrow> (X \<Longrightarrow> triple P m Q R C) \<Longrightarrow> triple P m Q R C"
  by (auto simp: triple_def)

lemmas triple_step = triple_andThen triple_if triple_option

lemma andThen_eq_Go:
  "andThen m k s = (t, Go y) \<longleftrightarrow> (\<exists>s' x. m s = (s', Go x) \<and> k x s' = (t, Go y))"
  by (auto simp: andThen_def split: prod.splits flow.splits)

text \<open>A body keeps a projection of the state when every path that goes on leaves it as it was.\<close>

definition keeps :: "('w \<Rightarrow> 'b) \<Rightarrow> ('w, 'a, 'r) prog \<Rightarrow> bool" where
  "keeps f m \<longleftrightarrow> (\<forall>s s' x. m s = (s', Go x) \<longrightarrow> f s' = f s)"

lemma keepsD: "keeps f m \<Longrightarrow> m s = (s', Go x) \<Longrightarrow> f s' = f s"
  by (simp add: keeps_def)

lemma keeps_andThen: "keeps f m \<Longrightarrow> (\<And>x. keeps f (k x)) \<Longrightarrow> keeps f (andThen m k)"
  by (fastforce simp: keeps_def andThen_eq_Go)

lemma keeps_reads: "(\<And>s. keeps f (k s)) \<Longrightarrow> keeps f (reads k)"
  by (simp add: keeps_def reads_def)

lemma keeps_pass: "keeps f (pass x)"
  by (simp add: keeps_def pass_def)

lemma keeps_returns: "keeps f (returns r)"
  by (simp add: keeps_def returns_def)

lemma keeps_modify: "(\<And>s. f (g s) = f s) \<Longrightarrow> keeps f (modify g)"
  by (simp add: keeps_def modify_def)

lemma keeps_if: "keeps f m \<Longrightarrow> keeps f n \<Longrightarrow> keeps f (if b then m else n)"
  by simp

lemma keeps_option:
  "keeps f m \<Longrightarrow> (\<And>y. keeps f (n y)) \<Longrightarrow> keeps f (case x of None \<Rightarrow> m | Some y \<Rightarrow> n y)"
  by (cases x) auto

lemma keeps_prod: "(\<And>a b. keeps f (n a b)) \<Longrightarrow> keeps f (case x of (a, b) \<Rightarrow> n a b)"
  by (cases x) auto

lemmas keeps_rules =
  keeps_andThen keeps_reads keeps_pass keeps_returns keeps_if keeps_option keeps_prod

end
