(* ===== verification/Runtime_Loop.thy ===== *)
theory Runtime_Loop
  imports Sessions Flow
begin

text \<open>
  The execution loop: \<^verbatim>\<open>(*Runtime).run\<close> of \<^verbatim>\<open>runtime.go\<close> with its deferred functions, and
  \<^verbatim>\<open>waitModelRetry\<close> of \<^verbatim>\<open>model_retry.go\<close>.

  The local variables of \<^verbatim>\<open>run\<close> extend the world record. Each \<^verbatim>\<open>return\<close> statement is a \<open>Ret\<close> of the
  control-flow combinators, each callback panic a \<open>Panic\<close>. The loop body is \<open>iteration\<close>, composed
  from the pieces of the Go body in its order; \<open>runLoop\<close> is the \<^verbatim>\<open>for\<close> loop with the code after it,
  and \<open>finishRun\<close> the two deferred functions.
\<close>

section \<open>Local state and persistence\<close>

record ('s, 'o) rstate = "('s, 'o) world" +
  r_exec :: execution
  r_iterations :: int
  r_modelRetries :: int
  r_steps :: "Step list"
  r_pendingTool :: "ToolCall option"
  r_lastSaved :: Result
  r_storeFailed :: bool

type_synonym ('s, 'o, 'a) body = "(('s, 'o) rstate, 'a, Result \<times> goerr option) prog"

text \<open>The checkpoint that \<^verbatim>\<open>persist\<close> assembles; its revision is set by \<^verbatim>\<open>writeCheckpoint\<close>.\<close>

definition assembleCheckpoint ::
  "('s, 'o) session \<Rightarrow> Checkpoint \<Rightarrow> Result \<Rightarrow> goerr option \<Rightarrow> ('s, 'o) rstate \<Rightarrow> Checkpoint" where
  "assembleCheckpoint X initial current cause s =
     \<lparr>cp_SchemaVersion = CheckpointSchemaVersion,
      cp_Revision = 0,
      cp_ExecutionID = rq_ExecutionID (cp_Request initial),
      cp_Request = cp_Request initial,
      cp_MaxSteps = cp_MaxSteps initial,
      cp_ModelIterations = r_iterations s,
      cp_MaxModelRetries = cp_MaxModelRetries initial,
      cp_ModelRetries = r_modelRetries s,
      cp_Result = current\<lparr>rs_ExecutionID := rq_ExecutionID (cp_Request initial)\<rparr>,
      cp_PendingTool = r_pendingTool s,
      cp_Error = (case cause of None \<Rightarrow> [] | Some e \<Rightarrow> errorText (en_isPrint (ss_env X)) e)\<rparr>"

definition persist ::
  "('s, 'o) session \<Rightarrow> Checkpoint \<Rightarrow> Result \<Rightarrow> goerr option \<Rightarrow> bool \<Rightarrow> ('s, 'o) rstate \<Rightarrow>
     ('s, 'o) rstate \<times> goerr option" where
  "persist X initial current cause create s =
     (case rt_store (ss_rt X) of
        None \<Rightarrow> (s, None)
      | Some st \<Rightarrow>
        (case writeCheckpoint X st (assembleCheckpoint X initial current cause s) create s of
           (s', Some err) \<Rightarrow> (s'\<lparr>r_storeFailed := True\<rparr>, Some err)
         | (s', None) \<Rightarrow>
             (s'\<lparr>r_lastSaved := cloneResult (current\<lparr>rs_ExecutionID := rq_ExecutionID (cp_Request initial)\<rparr>)\<rparr>, None)))"

section \<open>Pieces of the loop body\<close>

text \<open>\<^verbatim>\<open>_ = exec.transition(status); return snapshot(exec, steps, ""), err\<close>\<close>

definition abort :: "Status \<Rightarrow> goerr \<Rightarrow> ('s, 'o, 'a) body" where
  "abort status err =
     andThen (modify (\<lambda>s. s\<lparr>r_exec := fst (transition (r_exec s) status)\<rparr>)) (\<lambda>_.
     reads (\<lambda>s. returns (snapshot (r_exec s) (r_steps s) [], Some err)))"

text \<open>\<^verbatim>\<open>if err := executionContextErr(ctx); err != nil { \<dots> cancelled \<dots> }\<close>\<close>

definition checkContext :: "('s, 'o, unit) body" where
  "checkContext =
     reads (\<lambda>s. case executionContextErr s of None \<Rightarrow> pass () | Some err \<Rightarrow> abort StatusCancelled err)"

text \<open>\<^verbatim>\<open>if err := persist(snapshot(exec, steps, ""), nil, false); err != nil { return lastSaved, err }\<close>\<close>

definition save :: "('s, 'o) session \<Rightarrow> Checkpoint \<Rightarrow> ('s, 'o, unit) body" where
  "save X initial s =
     (case persist X initial (snapshot (r_exec s) (r_steps s) []) None False s of
        (s', None) \<Rightarrow> (s', Go ())
      | (s', Some err) \<Rightarrow> (s', Ret (r_lastSaved s', Some err)))"

text \<open>\<^verbatim>\<open>if err := exec.transition(status); err != nil { return snapshot(exec, steps, ""), err }\<close>\<close>

definition advance :: "Status \<Rightarrow> ('s, 'o, unit) body" where
  "advance status s =
     (case transition (r_exec s) status of
        (e, None) \<Rightarrow> (s\<lparr>r_exec := e\<rparr>, Go ())
      | (e, Some err) \<Rightarrow> (s\<lparr>r_exec := e\<rparr>, Ret (snapshot e (r_steps s) [], Some err)))"

definition callModel :: "('s, 'o) session \<Rightarrow> Checkpoint \<Rightarrow> ('s, 'o, Decision \<times> goerr option) body" where
  "callModel X initial s =
     (let eid = rq_ExecutionID (cp_Request initial);
          s1 = observe X (plainEvent EventModelStarted eid StatusRunningModel (r_iterations s)) s;
          modelStarted = now X s1
      in case Next X (rt_model (ss_rt X))
                \<lparr>mi_Prompt = rq_Prompt (cp_Request initial), mi_Steps = cloneSteps (r_steps s1)\<rparr> s1 of
           (s2, None) \<Rightarrow> (s2, Panic)
         | (s2, Some (decision, err)) \<Rightarrow>
             (observe X ((plainEvent EventModelCompleted eid StatusRunningModel (r_iterations s2))
                           \<lparr>ev_Duration := now X s2 - modelStarted, ev_Error := err\<rparr>) s2,
              Go (decision, err)))"

definition toolEvent :: "EventType \<Rightarrow> string \<Rightarrow> int \<Rightarrow> ToolCall \<Rightarrow> Event" where
  "toolEvent ty eid attempt call =
     (plainEvent ty eid StatusRunningTool attempt)\<lparr>ev_ToolCallID := tc_ID call, ev_ToolName := tc_Name call\<rparr>"

definition callTool ::
  "('s, 'o) session \<Rightarrow> Checkpoint \<Rightarrow> ToolExecutor \<Rightarrow> ToolCall \<Rightarrow> ('s, 'o, string \<times> goerr option) body" where
  "callTool X initial tools call s =
     (let eid = rq_ExecutionID (cp_Request initial);
          s1 = observe X (toolEvent EventToolStarted eid (r_iterations s) call) s;
          toolStarted = now X s1
      in case Execute X tools call s1 of
           (s2, None) \<Rightarrow> (s2, Panic)
         | (s2, Some (output, err)) \<Rightarrow>
             (observe X ((toolEvent EventToolCompleted eid (r_iterations s2) call)
                           \<lparr>ev_Duration := now X s2 - toolStarted, ev_Error := err\<rparr>) s2,
              Go (output, err)))"

text \<open>The \<^verbatim>\<open>select\<close> on the context and the timer; if both are ready the choice is the environment's.\<close>

definition waitModelRetry :: "('s, 'o) session \<Rightarrow> ('s, 'o, goerr option) body" where
  "waitModelRetry X s =
     (if mr_Delay (rt_modelRetry (ss_rt X)) = 0 then (s, Go None)
      else let s' = passTime X s in
        (s', Go (case w_done s' of
                   None \<Rightarrow> None
                 | Some (err, cause) \<Rightarrow> if en_timerFirst (ss_env X) (w_tick s') then None else Some err)))"

definition handleModelError :: "('s, 'o) session \<Rightarrow> Checkpoint \<Rightarrow> goerr \<Rightarrow> ('s, 'o, unit) body" where
  "handleModelError X initial err =
     andThen checkContext (\<lambda>_.
     reads (\<lambda>s.
       if canRetryModel (Some err) initial (r_iterations s) (r_modelRetries s) then
         andThen (modify (\<lambda>s. s\<lparr>r_modelRetries := r_modelRetries s + 1\<rparr>)) (\<lambda>_.
         andThen (save X initial) (\<lambda>_.
         andThen (waitModelRetry X) (\<lambda>waitErr.
           case waitErr of
             None \<Rightarrow> pass ()
           | Some e \<Rightarrow>
               reads (\<lambda>s. abort StatusCancelled
                            (case executionContextErr s of Some ctxErr \<Rightarrow> ctxErr | None \<Rightarrow> e)))))
       else abort StatusFailed (Errorf [Lit ''model step: '', W err])))"

text \<open>The tool branch after the durable intent: call, commit or leave.\<close>

definition runTool ::
  "('s, 'o) session \<Rightarrow> Checkpoint \<Rightarrow> ToolExecutor \<Rightarrow> ToolCall \<Rightarrow> ('s, 'o, unit) body" where
  "runTool X initial tools call =
     andThen (callTool X initial tools call) (\<lambda>(output, err).
       case err of
         Some e \<Rightarrow>
           andThen checkContext (\<lambda>_.
           abort StatusFailed (Errorf [Lit ''execute tool '', Quoted (tc_Name call), Lit '': '', W e]))
       | None \<Rightarrow>
           andThen checkContext (\<lambda>_.
           andThen (modify (\<lambda>s. s\<lparr>r_steps := r_steps s @ [completedStep (r_steps s) call output]\<rparr>)) (\<lambda>_.
           andThen (advance StatusRunningModel) (\<lambda>_.
           andThen (modify (\<lambda>s. s\<lparr>r_pendingTool := None\<rparr>)) (\<lambda>_.
           save X initial)))))"

definition dispatchTool :: "('s, 'o) session \<Rightarrow> Checkpoint \<Rightarrow> ToolCall \<Rightarrow> ('s, 'o, unit) body" where
  "dispatchTool X initial call =
     reads (\<lambda>s.
       if \<exists>step \<in> set (r_steps s). tc_ID (sp_Call step) = tc_ID call then
         abort StatusFailed (Errorf [W (Sentinel ErrDuplicateToolCall), Lit '': '', Quoted (tc_ID call)])
       else case rt_tools (ss_rt X) of
         None \<Rightarrow> abort StatusFailed (Sentinel ErrToolExecutorMissing)
       | Some tools \<Rightarrow>
           andThen (advance StatusRunningTool) (\<lambda>_.
           andThen (modify (\<lambda>s. s\<lparr>r_pendingTool := Some call\<rparr>)) (\<lambda>_.
           andThen (save X initial) (\<lambda>_.
           andThen checkContext (\<lambda>_.
           runTool X initial tools call)))))"

definition handleDecision :: "('s, 'o) session \<Rightarrow> Checkpoint \<Rightarrow> Decision \<Rightarrow> ('s, 'o, unit) body" where
  "handleDecision X initial decision =
     (case Validate decision of
        Some err \<Rightarrow> abort StatusFailed err
      | None \<Rightarrow>
        (case d_Kind decision of
           DecisionFinal \<Rightarrow>
             andThen (advance StatusCompleted) (\<lambda>_.
             reads (\<lambda>s. returns (snapshot (r_exec s) (r_steps s) (d_Output decision), None)))
         | DecisionToolCall \<Rightarrow> dispatchTool X initial (d_ToolCall decision)
         | DecisionOther _ \<Rightarrow> pass ()))"

definition iteration :: "('s, 'o) session \<Rightarrow> Checkpoint \<Rightarrow> ('s, 'o, unit) body" where
  "iteration X initial =
     andThen checkContext (\<lambda>_.
     andThen (modify (\<lambda>s. s\<lparr>r_iterations := r_iterations s + 1\<rparr>)) (\<lambda>_.
     andThen (save X initial) (\<lambda>_.
     andThen checkContext (\<lambda>_.
     andThen (callModel X initial) (\<lambda>(decision, err).
       case err of
         Some e \<Rightarrow> handleModelError X initial e
       | None \<Rightarrow> andThen checkContext (\<lambda>_. handleDecision X initial decision))))))"

text \<open>The code after the loop.\<close>

definition exhausted :: "('s, 'o, unit) body" where
  "exhausted = andThen checkContext (\<lambda>_. abort StatusFailed (Sentinel ErrStepLimitExceeded))"

section \<open>Frame facts\<close>

text \<open>Operations on the world leave the local variables alone.\<close>

lemma passTime_locals [simp]:
  "r_exec (passTime X s) = r_exec s"
  "r_iterations (passTime X s) = r_iterations s"
  "r_modelRetries (passTime X s) = r_modelRetries s"
  "r_steps (passTime X s) = r_steps s"
  "r_pendingTool (passTime X s) = r_pendingTool s"
  "r_lastSaved (passTime X s) = r_lastSaved s"
  "r_storeFailed (passTime X s) = r_storeFailed s"
  by (simp_all add: passTime_def renewStep_def emit_def Let_def split: option.splits prod.splits)

lemma emit_locals [simp]:
  "r_exec (emit e s) = r_exec s"
  "r_iterations (emit e s) = r_iterations s"
  "r_modelRetries (emit e s) = r_modelRetries s"
  "r_steps (emit e s) = r_steps s"
  "r_pendingTool (emit e s) = r_pendingTool s"
  "r_lastSaved (emit e s) = r_lastSaved s"
  "r_storeFailed (emit e s) = r_storeFailed s"
  by (simp_all add: emit_def)

text \<open>\<open>sameLocals\<close>: two states agree on every local variable of \<^verbatim>\<open>run\<close>.\<close>

definition sameLocals :: "('s, 'o) rstate \<Rightarrow> ('s, 'o) rstate \<Rightarrow> bool" where
  "sameLocals s t \<longleftrightarrow>
     r_exec t = r_exec s \<and> r_iterations t = r_iterations s \<and> r_modelRetries t = r_modelRetries s \<and>
     r_steps t = r_steps s \<and> r_pendingTool t = r_pendingTool s \<and> r_lastSaved t = r_lastSaved s \<and>
     r_storeFailed t = r_storeFailed s"

lemma sameLocals_refl [simp]: "sameLocals s s"
  by (simp add: sameLocals_def)

lemma sameLocals_trans: "sameLocals s t \<Longrightarrow> sameLocals t u \<Longrightarrow> sameLocals s u"
  by (simp add: sameLocals_def)

lemma sameLocals_observe [simp]: "sameLocals s (observe X ev s)"
  by (simp add: sameLocals_def observe_def split: option.splits)

lemma sameLocals_passTime [simp]: "sameLocals s (passTime X s)"
  by (simp add: sameLocals_def)

lemma sameLocals_Next: "Next X m inp s = (s', r) \<Longrightarrow> sameLocals s s'"
  by (induction X m inp s arbitrary: s' r rule: Next.induct)
     (auto simp: sameLocals_def split: prod.splits option.splits)

lemma sameLocals_Execute: "Execute X m call s = (s', r) \<Longrightarrow> sameLocals s s'"
  by (induction X m call s arbitrary: s' r rule: Execute.induct)
     (auto simp: sameLocals_def executeWithTimeout_def split: prod.splits option.splits)

lemma sameLocals_writeCheckpoint: "writeCheckpoint X st cp create s = (s', r) \<Longrightarrow> sameLocals s s'"
  by (auto simp: sameLocals_def writeCheckpoint_def finishWrite_def Let_def
      split: prod.splits option.splits if_splits)

section \<open>The loop\<close>

text \<open>The iteration counter: only the reservation at the head of an iteration changes it.\<close>

lemma persist_locals:
  assumes "persist X initial current cause create s = (s', r)"
  shows "r_exec s' = r_exec s" "r_iterations s' = r_iterations s" "r_modelRetries s' = r_modelRetries s"
    "r_steps s' = r_steps s" "r_pendingTool s' = r_pendingTool s"
    "r_storeFailed s' = (r_storeFailed s \<or> r \<noteq> None)"
  using assms
  by (auto simp: persist_def sameLocals_def dest!: sameLocals_writeCheckpoint
      split: option.splits prod.splits)

lemma callTool_locals:
  assumes "callTool X initial tools call s = (s', f)"
  shows "sameLocals s s'"
proof -
  obtain s2 r where ex: "Execute X tools call
      (observe X (toolEvent EventToolStarted (rq_ExecutionID (cp_Request initial)) (r_iterations s) call) s) = (s2, r)"
    by (metis surj_pair)
  from ex have "sameLocals s s2"
    using sameLocals_Execute sameLocals_observe sameLocals_trans by blast
  with assms ex show ?thesis
    by (auto simp: callTool_def Let_def split: option.splits prod.splits
        intro: sameLocals_trans [OF _ sameLocals_observe])
qed

lemma callModel_locals:
  assumes "callModel X initial s = (s', f)"
  shows "sameLocals s s'"
proof -
  let ?s1 = "observe X (plainEvent EventModelStarted (rq_ExecutionID (cp_Request initial))
      StatusRunningModel (r_iterations s)) s"
  obtain s2 r where ex: "Next X (rt_model (ss_rt X))
      \<lparr>mi_Prompt = rq_Prompt (cp_Request initial), mi_Steps = cloneSteps (r_steps ?s1)\<rparr> ?s1 = (s2, r)"
    by (metis surj_pair)
  from ex have "sameLocals s s2"
    using sameLocals_Next sameLocals_observe sameLocals_trans by blast
  with assms ex show ?thesis
    by (auto simp: callModel_def Let_def split: option.splits prod.splits
        intro: sameLocals_trans [OF _ sameLocals_observe])
qed

lemma keeps_abort: "keeps f (abort st e)"
  by (simp add: keeps_def abort_def andThen_def modify_def reads_def returns_def)

lemma keeps_checkContext: "keeps f checkContext"
  unfolding checkContext_def by (intro keeps_rules keeps_abort)

lemma keeps_iterations:
  "keeps r_iterations (save X initial)"
  "keeps r_iterations (advance st)"
  "keeps r_iterations (callTool X initial tools call)"
  "keeps r_iterations (callModel X initial)"
  "keeps r_iterations (waitModelRetry X)"
proof -
  show "keeps r_iterations (save X initial)"
    by (auto simp: keeps_def save_def dest!: persist_locals(2) split: prod.splits option.splits)
  show "keeps r_iterations (advance st)"
    by (auto simp: keeps_def advance_def split: prod.splits option.splits)
  show "keeps r_iterations (callTool X initial tools call)"
    by (auto simp: keeps_def sameLocals_def dest!: callTool_locals)
  show "keeps r_iterations (callModel X initial)"
    by (auto simp: keeps_def sameLocals_def dest!: callModel_locals)
  show "keeps r_iterations (waitModelRetry X)"
    by (auto simp: keeps_def waitModelRetry_def Let_def)
qed

lemmas keeps_body =
  keeps_rules keeps_abort keeps_checkContext keeps_iterations keeps_modify

lemma keeps_iterations_runTool: "keeps r_iterations (runTool X initial tools call)"
  unfolding runTool_def by (intro keeps_body) simp_all

lemma keeps_iterations_dispatchTool: "keeps r_iterations (dispatchTool X initial call)"
  unfolding dispatchTool_def by (intro keeps_body keeps_iterations_runTool) simp_all

lemma keeps_iterations_after_call:
  "keeps r_iterations (handleModelError X initial e)"
  "keeps r_iterations (handleDecision X initial d)"
proof -
  show "keeps r_iterations (handleModelError X initial e)"
    unfolding handleModelError_def by (intro keeps_body) simp_all
  show "keeps r_iterations (handleDecision X initial d)"
    unfolding handleDecision_def
    by (cases "d_Kind d")
       (auto intro!: keeps_body keeps_iterations_dispatchTool split: option.split)
qed

lemma iteration_iterations:
  assumes "iteration X initial s = (s', Go u)"
  shows "r_iterations s' = r_iterations s + 1"
proof -
  let ?rest = "andThen (save X initial) (\<lambda>_. andThen checkContext (\<lambda>_.
      andThen (callModel X initial) (\<lambda>(decision, err).
        case err of Some e \<Rightarrow> handleModelError X initial e
        | None \<Rightarrow> andThen checkContext (\<lambda>_. handleDecision X initial decision))))"
  from assms obtain s1 where s1: "checkContext s = (s1, Go ())"
    and r: "?rest (s1\<lparr>r_iterations := r_iterations s1 + 1\<rparr>) = (s', Go u)"
    unfolding iteration_def by (auto simp: andThen_eq_Go [of checkContext] andThen_def [of "modify _"] modify_def)
  have "keeps r_iterations ?rest"
    by (intro keeps_body keeps_iterations_after_call)
  from keepsD [OF this r] keepsD [OF keeps_checkContext [of r_iterations] s1]
  show ?thesis by simp
qed

function runLoop :: "('s, 'o) session \<Rightarrow> Checkpoint \<Rightarrow> ('s, 'o, unit) body" where
  "runLoop X initial s =
     (if r_iterations s < cp_MaxSteps initial then
        (case iteration X initial s of
           (s', Go _) \<Rightarrow> runLoop X initial s'
         | (s', Ret r) \<Rightarrow> (s', Ret r)
         | (s', Panic) \<Rightarrow> (s', Panic))
      else exhausted s)"
  by pat_completeness auto
termination
proof (relation "measure (\<lambda>(X, initial, s). nat (cp_MaxSteps initial - r_iterations s))", goal_cases)
  case (2 X initial s s' f u)
  from 2(2,3) [symmetric] have "iteration X initial s = (s', Go u)" by simp
  with 2(1) show ?case by (simp add: iteration_iterations)
qed simp

declare runLoop.simps [simp del]

text \<open>
  An invariant of the loop head: kept by every iteration that goes on, it yields what every other
  exit establishes.
\<close>

lemma runLoop_triple:
  assumes body: "triple (\<lambda>s. I s \<and> r_iterations s < cp_MaxSteps initial) (iteration X initial) (\<lambda>_. I) R C"
    and fin: "triple (\<lambda>s. I s \<and> \<not> r_iterations s < cp_MaxSteps initial) exhausted (\<lambda>_ _. False) R C"
  shows "triple I (runLoop X initial) (\<lambda>_ _. False) R C"
proof -
  have "case runLoop X initial s of (s', Go x) \<Rightarrow> False | (s', Ret r) \<Rightarrow> R r s' | (s', Panic) \<Rightarrow> C s'"
    if "I s" for s
    using that body fin
  proof (induction X initial s rule: runLoop.induct)
    case (1 X initial s)
    show ?case
    proof (cases "r_iterations s < cp_MaxSteps initial")
      case True
      obtain s' f where it: "iteration X initial s = (s', f)" by (cases "iteration X initial s")
      from 1(2,3) True it have *: "case f of Go x \<Rightarrow> I s' | Ret r \<Rightarrow> R r s' | Panic \<Rightarrow> C s'"
        by (force simp: triple_def split: flow.splits)
      show ?thesis
      proof (cases f)
        case (Go u)
        with * have "I s'" by simp
        from 1(1) [OF True it [symmetric] Go this 1(3,4)] True it Go show ?thesis
          by (subst runLoop.simps) simp
      next
        case (Ret r)
        with * True it show ?thesis by (subst runLoop.simps) simp
      next
        case Panic
        with * True it show ?thesis by (subst runLoop.simps) simp
      qed
    next
      case False
      with 1(2,4) show ?thesis
        by (subst runLoop.simps) (auto simp: triple_def)
    qed
  qed
  then show ?thesis by (simp add: triple_def)
qed

section \<open>The whole call\<close>

text \<open>\<^verbatim>\<open>if exec.status == StatusCreated { \<dots> }\<close> before the loop.\<close>

definition startRunning :: "('s, 'o, unit) body" where
  "startRunning s =
     (if ex_status (r_exec s) = StatusCreated then
        (case transition (r_exec s) StatusRunningModel of
           (e, None) \<Rightarrow> (s\<lparr>r_exec := e\<rparr>, Go ())
         | (e, Some err) \<Rightarrow> (s\<lparr>r_exec := e\<rparr>, Ret (r_lastSaved s, Some err)))
      else (s, Go ()))"

definition runBody :: "('s, 'o) session \<Rightarrow> Checkpoint \<Rightarrow> ('s, 'o, unit) body" where
  "runBody X initial = andThen startRunning (\<lambda>_. runLoop X initial)"

text \<open>
  What a call of \<^verbatim>\<open>run\<close> does in the end. The deferred functions run in reverse order: first the
  terminal snapshot is persisted, then the terminal event is observed. A panic leaves the result at
  its zero value, so neither has an effect and the panic goes on.
\<close>

datatype outcome = Returned Result "goerr option" | Panicked

definition persistTerminal ::
  "('s, 'o) session \<Rightarrow> Checkpoint \<Rightarrow> Result \<Rightarrow> goerr option \<Rightarrow> ('s, 'o) rstate \<Rightarrow>
     ('s, 'o) rstate \<times> Result \<times> goerr option" where
  "persistTerminal X initial result runErr s =
     (if r_storeFailed s \<or> (rs_Status result \<noteq> StatusCompleted \<and> rs_Status result \<noteq> StatusFailed
                               \<and> rs_Status result \<noteq> StatusCancelled)
      then (s, result, runErr)
      else case persist X initial result runErr False s of
        (s', None) \<Rightarrow> (s', result, runErr)
      | (s', Some err) \<Rightarrow> (s', r_lastSaved s', Some (errorsJoin runErr err)))"

definition observeTerminal ::
  "('s, 'o) session \<Rightarrow> Checkpoint \<Rightarrow> int \<Rightarrow> Result \<Rightarrow> goerr option \<Rightarrow> ('s, 'o) rstate \<Rightarrow> ('s, 'o) rstate" where
  "observeTerminal X initial runStarted result runErr s =
     (let typeName = terminalEventType (rs_Status result) in
      if typeName = EventOther [] then s
      else observe X ((plainEvent typeName (rq_ExecutionID (cp_Request initial)) (rs_Status result) (r_iterations s))
                        \<lparr>ev_Duration := now X s - runStarted, ev_Error := runErr\<rparr>) s)"

definition finishRun ::
  "('s, 'o) session \<Rightarrow> Checkpoint \<Rightarrow> int \<Rightarrow> ('s, 'o) rstate \<times> (unit, Result \<times> goerr option) flow \<Rightarrow>
     ('s, 'o) rstate \<times> outcome" where
  "finishRun X initial runStarted r =
     (case r of
        (s, Ret (result, runErr)) \<Rightarrow>
          let (s', result', runErr') =
                persistTerminal X initial (result\<lparr>rs_ExecutionID := rq_ExecutionID (cp_Request initial)\<rparr>) runErr s
          in (observeTerminal X initial runStarted result' runErr' s', Returned result' runErr')
      | (s, _) \<Rightarrow> (s, Panicked))"

definition startState :: "Checkpoint \<Rightarrow> ('s, 'o) world \<Rightarrow> ('s, 'o) rstate" where
  "startState initial w =
     \<lparr>w_tick = w_tick w, w_store = w_store w, w_obs = w_obs w, w_done = w_done w, w_log = w_log w,
      r_exec = \<lparr>ex_status = cp_Status initial, ex_transitions = cp_Transitions initial\<rparr>,
      r_iterations = cp_ModelIterations initial,
      r_modelRetries = cp_ModelRetries initial,
      r_steps = cloneSteps (cp_Steps initial),
      r_pendingTool = None,
      r_lastSaved = cloneResult (cp_Result initial),
      r_storeFailed = False\<rparr>"

definition run ::
  "('s, 'o) session \<Rightarrow> Checkpoint \<Rightarrow> bool \<Rightarrow> ('s, 'o) world \<Rightarrow> ('s, 'o) rstate \<times> outcome" where
  "run X initial create w =
     (let s0 = startState initial w; runStarted = now X w in
      if create then
        (case persist X initial (r_lastSaved s0) None True s0 of
           (s1, Some err) \<Rightarrow> (s1, Returned (r_lastSaved s1) (Some err))
         | (s1, None) \<Rightarrow>
             finishRun X initial runStarted
               (runBody X initial
                 (observe X (plainEvent EventExecutionStarted (rq_ExecutionID (cp_Request initial)) StatusCreated 0) s1)))
      else finishRun X initial runStarted (runBody X initial s0))"

end
