(* ===== verification/Protocol.thy ===== *)
theory Protocol
  imports Runtime_Loop
begin

text \<open>
  The contract of the harness with its store and its callbacks, as an abstract machine over the
  history of external effects, and the proof that \<^verbatim>\<open>run\<close> refines it.

  The machine remembers the last checkpoint the store acknowledged and a phase. A model callback
  needs a durably reserved attempt, a tool callback a durably recorded intent for exactly that call;
  a tool result is committed before anything else happens; a refused write or a terminal snapshot
  ends the story. \<open>protocolStep\<close> is executable; \<open>follow\<close> runs it along a history.
\<close>

section \<open>The abstract machine\<close>

datatype phase =
    Fresh                  \<comment> \<open>no checkpoint of this execution yet\<close>
  | Idle                   \<comment> \<open>between two model attempts\<close>
  | Reserved               \<comment> \<open>an attempt is reserved and not used\<close>
  | Answered               \<comment> \<open>the model was called with the reserved attempt\<close>
  | Intended ToolCall      \<comment> \<open>the intent to run this call is durable\<close>
  | Dispatched ToolCall    \<comment> \<open>this call was handed to the tool executor\<close>
  | Stopped

definition sameProgress :: "Checkpoint \<Rightarrow> Checkpoint \<Rightarrow> bool" where
  "sameProgress saved cp \<longleftrightarrow>
     cp_ModelIterations cp = cp_ModelIterations saved \<and> cp_ModelRetries cp = cp_ModelRetries saved \<and>
     cp_Steps cp = cp_Steps saved \<and> cp_PendingTool cp = cp_PendingTool saved"

text \<open>Every write of an execution keeps its identity, its request and its two budgets.\<close>

definition sameTask :: "Checkpoint \<Rightarrow> Checkpoint \<Rightarrow> bool" where
  "sameTask saved cp \<longleftrightarrow>
     cp_ExecutionID cp = cp_ExecutionID saved \<and> cp_Request cp = cp_Request saved \<and>
     cp_MaxSteps cp = cp_MaxSteps saved \<and> cp_MaxModelRetries cp = cp_MaxModelRetries saved"

definition isReservation :: "Checkpoint \<Rightarrow> Checkpoint \<Rightarrow> bool" where
  "isReservation saved cp \<longleftrightarrow>
     cp_Status cp = StatusRunningModel \<and> cp_ModelIterations saved < cp_MaxSteps saved \<and>
     sameProgress (saved\<lparr>cp_ModelIterations := cp_ModelIterations saved + 1\<rparr>) cp"

definition isRetry :: "Checkpoint \<Rightarrow> Checkpoint \<Rightarrow> bool" where
  "isRetry saved cp \<longleftrightarrow>
     cp_Status cp = StatusRunningModel \<and> cp_ModelRetries saved < cp_MaxModelRetries saved \<and>
     sameProgress (saved\<lparr>cp_ModelRetries := cp_ModelRetries saved + 1\<rparr>) cp"

definition isIntent :: "Checkpoint \<Rightarrow> Checkpoint \<Rightarrow> ToolCall \<Rightarrow> bool" where
  "isIntent saved cp call \<longleftrightarrow>
     cp_Status cp = StatusRunningTool \<and> tc_ID call \<notin> stepID ` set (cp_Steps saved) \<and>
     sameProgress (saved\<lparr>cp_PendingTool := Some call\<rparr>) cp"

definition isCompletion :: "Checkpoint \<Rightarrow> Checkpoint \<Rightarrow> ToolCall \<Rightarrow> bool" where
  "isCompletion saved cp call \<longleftrightarrow>
     cp_Status cp = StatusRunningModel \<and> cp_PendingTool cp = None \<and>
     cp_ModelIterations cp = cp_ModelIterations saved \<and> cp_ModelRetries cp = cp_ModelRetries saved \<and>
     cp_Steps cp = cp_Steps saved @
       [completedStep (cp_Steps saved) call (tr_Output (sp_Result (last (cp_Steps cp))))]"

definition isTerminal :: "Checkpoint \<Rightarrow> Checkpoint \<Rightarrow> bool" where
  "isTerminal saved cp \<longleftrightarrow> terminal (cp_Status cp) \<and> sameProgress saved cp"

definition acknowledge :: "phase \<Rightarrow> Checkpoint \<Rightarrow> Checkpoint \<Rightarrow> phase option" where
  "acknowledge p saved cp =
     (if isTerminal saved cp then (if p = Fresh \<or> p = Stopped then None else Some Stopped)
      else case p of
        Idle \<Rightarrow> if isReservation saved cp then Some Reserved else None
      | Answered \<Rightarrow>
          if isRetry saved cp then Some Idle
          else (case cp_PendingTool cp of
                  Some call \<Rightarrow> if isIntent saved cp call then Some (Intended call) else None
                | None \<Rightarrow> None)
      | Dispatched call \<Rightarrow> if isCompletion saved cp call then Some Idle else None
      | _ \<Rightarrow> None)"

fun protocolStep :: "phase \<times> Checkpoint \<Rightarrow> effect \<Rightarrow> (phase \<times> Checkpoint) option" where
  "protocolStep (p, saved) (Observed ev) = Some (p, saved)"
| "protocolStep (p, saved) (Renewed tok r) = Some (p, saved)"
| "protocolStep (p, saved) (ModelCalled inp) =
     (if p = Reserved \<and> inp = \<lparr>mi_Prompt = rq_Prompt (cp_Request saved), mi_Steps = cp_Steps saved\<rparr>
      then Some (Answered, saved) else None)"
| "protocolStep (p, saved) (ToolExecuted call) =
     (if p = Intended call then Some (Dispatched call, saved) else None)"
| "protocolStep (p, saved) (Wrote create cp tok (Some e)) = (if p = Stopped then None else Some (Stopped, saved))"
| "protocolStep (p, saved) (Wrote True cp tok None) =
     (if p = Fresh \<and> cp_Status cp = StatusCreated \<and> sameProgress saved cp \<and> sameTask saved cp
      then Some (Idle, cp) else None)"
| "protocolStep (p, saved) (Wrote False cp tok None) =
     (if sameTask saved cp then map_option (\<lambda>p'. (p', cp)) (acknowledge p saved cp) else None)"
| "protocolStep _ _ = None"

fun follow :: "phase \<times> Checkpoint \<Rightarrow> effect list \<Rightarrow> (phase \<times> Checkpoint) option" where
  "follow st [] = Some st"
| "follow st (e # es) = (case protocolStep st e of None \<Rightarrow> None | Some st' \<Rightarrow> follow st' es)"

lemma follow_append [simp]:
  "follow st (es @ fs) = (case follow st es of None \<Rightarrow> None | Some st' \<Rightarrow> follow st' fs)"
  by (induction es arbitrary: st) (auto split: option.splits)

section \<open>Coherent states\<close>

text \<open>Everything \<^verbatim>\<open>validateCheckpoint\<close> asks for except the UTF-8 test.\<close>

definition wfStructure :: "Checkpoint \<Rightarrow> bool" where
  "wfStructure cp \<longleftrightarrow>
     1 \<le> cp_SchemaVersion cp \<and> cp_SchemaVersion cp \<le> CheckpointSchemaVersion \<and>
     rq_ExecutionID (cp_Request cp) = cp_ExecutionID cp \<and>
     rs_ExecutionID (cp_Result cp) = cp_ExecutionID cp \<and>
     rq_Prompt (cp_Request cp) \<noteq> [] \<and> 0 < cp_MaxSteps cp \<and>
     0 \<le> cp_ModelIterations cp \<and> cp_ModelIterations cp \<le> cp_MaxSteps cp \<and>
     0 \<le> cp_ModelRetries cp \<and> cp_ModelRetries cp \<le> cp_MaxModelRetries cp \<and>
     cp_ModelRetries cp \<le> cp_ModelIterations cp \<and>
     (cp_SchemaVersion cp < 3 \<longrightarrow> cp_MaxModelRetries cp = 0) \<and>
     followTransitions StatusCreated (cp_Transitions cp) = Some (cp_Status cp) \<and>
     wfRecovery cp"

lemma wfCheckpoint_wfStructure:
  "2 \<le> cp_SchemaVersion cp \<Longrightarrow>
     wfCheckpoint cp \<longleftrightarrow>
       wfStructure cp \<and> cp_ExecutionID cp \<noteq> [] \<and>
       (cp_Revision cp = 0 \<or> cp_Revision cp = checkpointRevision cp) \<and>
       (\<forall>s \<in> set (checkpointStrings cp). validString s)"
  by (auto simp: wfCheckpoint_def wfStructure_def)

text \<open>A checkpoint \<^verbatim>\<open>run\<close> can start from: a fresh one, or a saved one between two model attempts.\<close>

definition runnable :: "Checkpoint \<Rightarrow> bool" where
  "runnable cp \<longleftrightarrow>
     wfStructure cp \<and> (cp_Status cp = StatusCreated \<or> cp_Status cp = StatusRunningModel)"

lemma runnable_pending: "runnable cp \<Longrightarrow> cp_PendingTool cp = None"
  by (auto simp: runnable_def wfStructure_def wfRecovery_def wfStatus_def)

definition coherent :: "Checkpoint \<Rightarrow> ('s, 'o) rstate \<Rightarrow> bool" where
  "coherent initial s \<longleftrightarrow>
     wfExecution (r_exec s) \<and> wfSteps (r_steps s) \<and>
     r_iterations s \<le> cp_MaxSteps initial \<and>
     0 \<le> r_modelRetries s \<and> r_modelRetries s \<le> cp_MaxModelRetries initial \<and>
     r_modelRetries s \<le> r_iterations s \<and> int (length (r_steps s)) \<le> r_iterations s \<and>
     finished (ex_transitions (r_exec s)) = length (r_steps s) \<and>
     started (ex_transitions (r_exec s)) = length (r_steps s) + (if r_pendingTool s = None then 0 else 1) \<and>
     (\<forall>call. r_pendingTool s = Some call \<longrightarrow>
        validCall call \<and> tc_ID call \<notin> stepID ` set (r_steps s) \<and> int (length (r_steps s)) < r_iterations s)"

lemma coherent_cong: "sameLocals s t \<Longrightarrow> coherent initial t = coherent initial s"
  by (simp add: coherent_def sameLocals_def)

text \<open>The pending call and the status agree, by the balance of started and finished tools.\<close>

lemma coherent_pending:
  assumes "coherent initial s"
  shows "r_pendingTool s \<noteq> None \<longleftrightarrow>
    ex_status (r_exec s) = StatusRunningTool \<or> leftTool (ex_transitions (r_exec s))"
  using assms tool_balance [of "ex_transitions (r_exec s)" "ex_status (r_exec s)"]
  by (auto simp: coherent_def wfExecution_def split: if_splits)

text \<open>A snapshot of a coherent state is structurally valid.\<close>

definition describes :: "Result \<Rightarrow> ('s, 'o) rstate \<Rightarrow> bool" where
  "describes current s \<longleftrightarrow>
     rs_Steps current = r_steps s \<and> rs_Transitions current = ex_transitions (r_exec s) \<and>
     rs_Status current = ex_status (r_exec s)"

definition outcomeShape :: "('s, 'o) session \<Rightarrow> Result \<Rightarrow> goerr option \<Rightarrow> ('s, 'o) rstate \<Rightarrow> bool" where
  "outcomeShape X current cause s \<longleftrightarrow>
     (case ex_status (r_exec s) of
        StatusCreated \<Rightarrow> r_iterations s = 0 \<and> r_modelRetries s = 0 \<and> rs_Output current = [] \<and> cause = None
      | StatusCompleted \<Rightarrow> int (length (r_steps s)) < r_iterations s \<and> cause = None
      | StatusFailed \<Rightarrow> rs_Output current = [] \<and> (\<exists>e. cause = Some e \<and> errorText (en_isPrint (ss_env X)) e \<noteq> [])
      | StatusCancelled \<Rightarrow> rs_Output current = [] \<and> (\<exists>e. cause = Some e \<and> errorText (en_isPrint (ss_env X)) e \<noteq> [])
      | _ \<Rightarrow> rs_Output current = [] \<and> cause = None)"

lemma leftTool_last:
  "followTransitions StatusCreated ts = Some st \<Longrightarrow> terminal st \<Longrightarrow>
     leftTool ts \<longleftrightarrow> tn_From (last ts) = StatusRunningTool"
proof (cases ts rule: rev_cases)
  case (snoc us u)
  then show "followTransitions StatusCreated ts = Some st \<Longrightarrow> terminal st \<Longrightarrow> ?thesis"
    by (auto simp: leftTool_def terminal_def followTransitions_snoc simp del: followTransitions_append)
qed (simp add: terminal_def)

lemma leftTool_status:
  "followTransitions StatusCreated ts = Some st \<Longrightarrow> leftTool ts \<Longrightarrow> st = StatusFailed \<or> st = StatusCancelled"
proof (cases ts rule: rev_cases)
  case (snoc us u)
  then show "followTransitions StatusCreated ts = Some st \<Longrightarrow> leftTool ts \<Longrightarrow> ?thesis"
    by (auto simp: leftTool_def followTransitions_snoc simp del: followTransitions_append)
qed (simp add: leftTool_def)

lemma assemble_wfRecovery:
  assumes co: "coherent initial s" and de: "describes current s" and os: "outcomeShape X current cause s"
  shows "wfRecovery (assembleCheckpoint X initial current cause s)"
proof -
  let ?cp = "assembleCheckpoint X initial current cause s"
  let ?st = "ex_status (r_exec s)"
  have wf: "followTransitions StatusCreated (ex_transitions (r_exec s)) = Some ?st"
    using co by (simp add: coherent_def wfExecution_def)
  note pend = coherent_pending [OF co]
  note lt = leftTool_last [OF wf] leftTool_status [OF wf]
  note defs = wfStatus_def assembleCheckpoint_def describes_def outcomeShape_def terminal_def
  have "wfStatus ?cp"
  proof (cases ?st)
    case (StatusOther x)
    then show ?thesis using followTransitions_other wf by force
  qed (use lt pend wf de os in \<open>auto simp: defs\<close>)
  with co de show ?thesis
    by (auto simp: wfRecovery_def assembleCheckpoint_def describes_def coherent_def wfPending_def)
qed

lemma assemble_sameTask:
  assumes "wfStructure initial"
  shows "sameTask initial (assembleCheckpoint X initial current cause s)"
    and "sameTask initial saved \<Longrightarrow> sameTask saved (assembleCheckpoint X initial current cause s)"
  using assms by (auto simp: sameTask_def assembleCheckpoint_def wfStructure_def)

end
