(* ===== verification/Refinement.thy ===== *)
theory Refinement
  imports Protocol
begin

section \<open>Effects of the world operations\<close>

fun isCallback :: "effect \<Rightarrow> bool" where
  "isCallback (ModelCalled inp) = True"
| "isCallback (ToolExecuted call) = True"
| "isCallback _ = False"

text \<open>Every checkpoint handed to the store is structurally valid and carries its revision.\<close>

fun soundEffect :: "effect \<Rightarrow> bool" where
  "soundEffect (Wrote create cp tok r) =
     (wfStructure cp \<and> cp_SchemaVersion cp = CheckpointSchemaVersion \<and> cp_Revision cp = checkpointRevision cp)"
| "soundEffect _ = True"

fun isRenewal :: "effect \<Rightarrow> bool" where
  "isRenewal (Renewed tok r) = True"
| "isRenewal _ = False"

lemma renewals_inert:
  "list_all isRenewal es \<Longrightarrow> follow st es = Some st \<and> filter isCallback es = [] \<and> list_all soundEffect es"
proof (induction es arbitrary: st)
  case (Cons e es)
  then show ?case by (cases st; cases e) auto
qed simp

lemma passTime_log: "\<exists>es. w_log (passTime X w) = w_log w @ es \<and> list_all isRenewal es"
  by (auto simp: passTime_def renewStep_def emit_def Let_def split: option.splits prod.splits)

lemma emit_log [simp]: "w_log (emit e w) = w_log w @ [e]"
  by (simp add: emit_def)

lemma observe_log:
  "\<exists>es. w_log (observe X ev w) = w_log w @ es \<and> (es = [] \<or> (\<exists>rs. es = Observed ev # rs \<and> list_all isRenewal rs))"
  using passTime_log [of X "emit (Observed ev) (w\<lparr>w_obs := deliverObserver obs ev (w_obs w)\<rparr>)" for obs]
  by (auto simp: observe_def split: option.splits)

lemma Next_log:
  "Next X m inp w = (w', r) \<Longrightarrow> \<exists>rs. w_log w' = w_log w @ ModelCalled inp # rs \<and> list_all isRenewal rs"
proof (induction X m inp w arbitrary: w' r rule: Next.induct)
  case (1 X f inp w)
  then show ?case using passTime_log [of X "emit (ModelCalled inp) w"] by auto
next
  case (2 X inner timeout inp w)
  then show ?case by (auto split: prod.splits option.splits)
qed

lemma Execute_log:
  "Execute X m call w = (w', r) \<Longrightarrow> \<exists>rs. w_log w' = w_log w @ ToolExecuted call # rs \<and> list_all isRenewal rs"
proof (induction X m call w arbitrary: w' r rule: Execute.induct)
  case (1 X ops call w)
  then show ?case using passTime_log [of X "emit (ToolExecuted call) w"] by auto
next
  case (2 X inner timeout call w)
  then show ?case by (auto simp: executeWithTimeout_def split: prod.splits option.splits)
qed

abbreviation withRevision :: "Checkpoint \<Rightarrow> Checkpoint" where
  "withRevision cp \<equiv> cp\<lparr>cp_Revision := checkpointRevision cp\<rparr>"

lemma finishWrite_log:
  assumes "finishWrite X create cp p w = (w', r)"
  shows "\<exists>rs. w_log w' = w_log w @ Wrote create cp (ss_token X) (snd p) # rs \<and> list_all isRenewal rs \<and>
    (r = None \<longleftrightarrow> snd p = None)"
  using assms passTime_log [of X "emit (Wrote create cp (ss_token X) (snd p)) (w\<lparr>w_store := fst p\<rparr>)"]
  by (auto simp: finishWrite_def)

lemma writeCheckpoint_log:
  assumes "writeCheckpoint X st cp create w = (w', r)"
  shows "(w' = w \<and> r \<noteq> None) \<or>
    (\<exists>r0 rs. w_log w' = w_log w @ Wrote create (withRevision cp) (ss_token X) r0 # rs \<and>
       list_all isRenewal rs \<and> (r = None \<longleftrightarrow> r0 = None))"
proof (cases "leaseLost w")
  case (Some c)
  with assms show ?thesis by (auto simp: writeCheckpoint_def)
next
  case None
  with assms show ?thesis
    by (auto simp: writeCheckpoint_def Let_def split: if_splits option.splits prod.splits
        dest!: finishWrite_log)
qed

section \<open>Reached states of the abstract machine\<close>

text \<open>
  \<open>reached X T l0 st0 p saved s\<close>: since the history was \<open>l0\<close> and the machine in state \<open>st0\<close>, the
  effects up to state \<open>s\<close> lead the machine to phase \<open>p\<close> with \<open>saved\<close> acknowledged. Without a store
  the machine is fed the checkpoints that would have been written; its callbacks are the real ones.
  \<open>T\<close> is the assumption under which every written checkpoint is also shown to be valid.
\<close>

definition reached ::
  "('s, 'o) session \<Rightarrow> bool \<Rightarrow> effect list \<Rightarrow> phase \<times> Checkpoint \<Rightarrow> phase \<Rightarrow> Checkpoint \<Rightarrow>
     ('s, 'o, 'z) world_scheme \<Rightarrow> bool" where
  "reached X T l0 st0 p saved s \<longleftrightarrow>
     (\<exists>es es'. w_log s = l0 @ es \<and> follow st0 es' = Some (p, saved) \<and>
        filter isCallback es' = filter isCallback es \<and>
        (rt_store (ss_rt X) \<noteq> None \<longrightarrow> es' = es \<and> (T \<longrightarrow> list_all soundEffect es)))"

lemma reached_start: "w_log s = l0 \<Longrightarrow> reached X T l0 (p, saved) p saved s"
  unfolding reached_def by (rule exI [of _ "[]"], rule exI [of _ "[]"]) simp

lemma reached_cong: "w_log t = w_log s \<Longrightarrow> reached X T l0 st0 p saved s \<Longrightarrow> reached X T l0 st0 p saved t"
  by (simp add: reached_def)

lemma reached_extend:
  assumes "reached X T l0 st0 p saved s" and "w_log t = w_log s @ es"
    and "follow (p, saved) es = Some (p', saved')" and "T \<longrightarrow> list_all soundEffect es"
  shows "reached X T l0 st0 p' saved' t"
proof -
  from assms(1) obtain fs fs' where f: "w_log s = l0 @ fs" "follow st0 fs' = Some (p, saved)"
      "filter isCallback fs' = filter isCallback fs"
      "rt_store (ss_rt X) \<noteq> None \<longrightarrow> fs' = fs \<and> (T \<longrightarrow> list_all soundEffect fs)"
    by (auto simp: reached_def)
  show ?thesis
    unfolding reached_def
    by (rule exI [of _ "fs @ es"], rule exI [of _ "fs' @ es"]) (use f assms(2-) in auto)
qed

lemma reached_passTime: "reached X T l0 st0 p saved s \<Longrightarrow> reached X T l0 st0 p saved (passTime Y s)"
  using passTime_log [of Y s] renewals_inert by (metis reached_extend)

lemma reached_observe: "reached X T l0 st0 p saved s \<Longrightarrow> reached X T l0 st0 p saved (observe Y ev s)"
  using observe_log [of Y ev s] renewals_inert
  by (force intro: reached_extend)

lemma reached_Next:
  assumes "reached X T l0 st0 Reserved saved s" and "Next Y m inp s = (s', r)"
    and "inp = \<lparr>mi_Prompt = rq_Prompt (cp_Request saved), mi_Steps = cp_Steps saved\<rparr>"
  shows "reached X T l0 st0 Answered saved s'"
  using Next_log [OF assms(2)] assms(1,3) renewals_inert by (force intro: reached_extend)

lemma reached_Execute:
  assumes "reached X T l0 st0 (Intended call) saved s" and "Execute Y m call s = (s', r)"
  shows "reached X T l0 st0 (Dispatched call) saved s'"
  using Execute_log [OF assms(2)] assms(1) renewals_inert by (force intro: reached_extend)

text \<open>Without a store, the abstract machine alone moves on.\<close>

lemma reached_shadow:
  assumes "reached X T l0 st0 p saved s" and "rt_store (ss_rt X) = None"
    and "protocolStep (p, saved) e = Some (p', saved')" and "\<not> isCallback e"
  shows "reached X T l0 st0 p' saved' s"
proof -
  from assms(1) obtain fs fs' where f: "w_log s = l0 @ fs" "follow st0 fs' = Some (p, saved)"
      "filter isCallback fs' = filter isCallback fs"
    by (auto simp: reached_def)
  show ?thesis
    unfolding reached_def
    by (rule exI [of _ "fs"], rule exI [of _ "fs' @ [e]"]) (use f assms(2-) in auto)
qed

lemma withRevision_inert [simp]:
  "checkpointRevision (cp\<lparr>cp_Revision := r\<rparr>) = checkpointRevision cp"
  "wfStructure (cp\<lparr>cp_Revision := r\<rparr>) = wfStructure cp"
  "sameProgress saved (cp\<lparr>cp_Revision := r\<rparr>) = sameProgress saved cp"
  "sameTask saved (cp\<lparr>cp_Revision := r\<rparr>) = sameTask saved cp"
  by (simp_all add: checkpointRevision_def wfStructure_def wfRecovery_def wfPending_def wfStatus_def
      sameProgress_def sameTask_def)

lemma acknowledge_withRevision [simp]:
  "acknowledge p saved (cp\<lparr>cp_Revision := r\<rparr>) = acknowledge p saved cp"
  by (cases p; cases "cp_PendingTool cp")
     (simp_all add: acknowledge_def isReservation_def isRetry_def isIntent_def isCompletion_def isTerminal_def)

text \<open>One persisted snapshot moves the machine as the store's answer says.\<close>

lemma reached_persist:
  assumes re: "reached X T l0 st0 p saved s"
    and ps: "persist X initial current cause create s = (s', r)"
    and cp: "cp = assembleCheckpoint X initial current cause s"
    and st: "protocolStep (p, saved) (Wrote create (withRevision cp) (ss_token X) None) =
               Some (p', withRevision cp)"
    and p: "p \<noteq> Stopped" and wf: "T \<longrightarrow> wfStructure cp"
  shows "(r = None \<longrightarrow> reached X T l0 st0 p' (withRevision cp) s' \<and>
           (rt_store (ss_rt X) \<noteq> None \<longrightarrow> r_lastSaved s' = cp_Result cp)) \<and>
         (r \<noteq> None \<longrightarrow> rt_store (ss_rt X) \<noteq> None \<and> r_lastSaved s' = r_lastSaved s \<and>
           (\<exists>q. reached X T l0 st0 q saved s'))"
proof (cases "rt_store (ss_rt X)")
  case None
  with ps have "s' = s" "r = None" by (auto simp: persist_def)
  with None reached_shadow [OF re None st] show ?thesis by simp
next
  case (Some store)
  obtain t r' where w: "writeCheckpoint X store cp create s = (t, r')"
    by (metis surj_pair)
  from w have same: "sameLocals s t" by (rule sameLocals_writeCheckpoint)
  from ps Some w cp have r: "r = r'" and log: "w_log s' = w_log t"
    and ls: "r_lastSaved s' = (if r = None then cp_Result cp else r_lastSaved t)"
    by (auto simp: persist_def assembleCheckpoint_def split: option.splits)
  have ver: "cp_SchemaVersion cp = CheckpointSchemaVersion" by (simp add: cp assembleCheckpoint_def)
  have ls': "r_lastSaved t = r_lastSaved s" using same by (simp add: sameLocals_def)
  show ?thesis
    using writeCheckpoint_log [OF w]
  proof (elim disjE exE conjE)
    assume "t = s" "r' \<noteq> None"
    with re Some r ls log show ?thesis by (auto intro: reached_cong)
  next
    fix r0 rs
    assume l: "w_log t = w_log s @ Wrote create (withRevision cp) (ss_token X) r0 # rs"
      and rs: "list_all isRenewal rs" and r0: "(r' = None) = (r0 = None)"
    have ext: "reached X T l0 st0 q sv s'"
      if "protocolStep (p, saved) (Wrote create (withRevision cp) (ss_token X) r0) = Some (q, sv)" for q sv
      using re log l that wf renewals_inert [OF rs, of "(q, sv)"] ver
      by (auto intro!: reached_extend [of X T l0 st0 p saved s])
    show ?thesis
    proof (cases r0)
      case None
      with ext st r r0 ls Some show ?thesis by simp
    next
      case (Some e)
      with p have "protocolStep (p, saved) (Wrote create (withRevision cp) (ss_token X) r0) = Some (Stopped, saved)"
        by simp
      from ext [OF this] Some r r0 ls ls' \<open>rt_store (ss_rt X) = Some store\<close> show ?thesis by auto
    qed
  qed
qed
end
