(* ===== verification/Loop_Refinement.thy ===== *)
theory Loop_Refinement
  imports Refinement
begin

text \<open>
  The body of \<^verbatim>\<open>run\<close> follows the protocol. The assertions \<open>live\<close>, \<open>readyToSave\<close>, \<open>leaves\<close> and
  \<open>panicked\<close> tie the local variables to the state of the abstract machine at each program point;
  one \<open>triple\<close> per piece of the loop body moves them along, and the loop rule closes the argument.
\<close>

section \<open>Assertions along the loop body\<close>

text \<open>The error text of a cancellation cause is never empty (true of every cause the context package makes).\<close>

definition texts :: "('s, 'o) session \<Rightarrow> bool" where
  "texts X \<longleftrightarrow> (\<forall>t e c. en_ctx (ss_env X) t = Some (e, c) \<longrightarrow> errorText (en_isPrint (ss_env X)) c \<noteq> [])"

definition doneText :: "('s, 'o) session \<Rightarrow> ('s, 'o, 'z) world_scheme \<Rightarrow> bool" where
  "doneText X s \<longleftrightarrow> (\<forall>e c. w_done s = Some (e, c) \<longrightarrow> errorText (en_isPrint (ss_env X)) c \<noteq> [])"

lemma doneText_passTime: "texts X \<Longrightarrow> doneText X s \<Longrightarrow> doneText X (passTime X s)"
  by (auto simp: doneText_def texts_def passTime_def renewStep_def emit_def Let_def
      split: option.splits prod.splits if_splits)

lemma doneText_cong [simp]:
  "doneText X (emit e s) = doneText X s"
  "doneText X (s\<lparr>w_store := st\<rparr>) = doneText X s"
  "doneText X (s\<lparr>w_obs := ob\<rparr>) = doneText X s"
  by (simp_all add: doneText_def emit_def)

lemma doneText_observe: "texts X \<Longrightarrow> doneText X s \<Longrightarrow> doneText X (observe X ev s)"
  by (auto simp: observe_def doneText_passTime split: option.splits)

lemma doneText_Next: "texts X \<Longrightarrow> doneText X s \<Longrightarrow> Next X m inp s = (s', r) \<Longrightarrow> doneText X s'"
  by (induction X m inp s arbitrary: s' r rule: Next.induct)
     (auto simp: doneText_passTime split: prod.splits option.splits)

lemma doneText_Execute: "texts X \<Longrightarrow> doneText X s \<Longrightarrow> Execute X m call s = (s', r) \<Longrightarrow> doneText X s'"
  by (induction X m call s arbitrary: s' r rule: Execute.induct)
     (auto simp: doneText_passTime executeWithTimeout_def split: prod.splits option.splits)

lemma doneText_persist:
  assumes "texts X" "doneText X s" "persist X initial current cause create s = (s', r)"
  shows "doneText X s'"
proof -
  have "doneText X t" if "writeCheckpoint X st cp create s = (t, r')" for st cp t r'
    using that assms(1,2)
    by (auto simp: writeCheckpoint_def finishWrite_def Let_def doneText_passTime
        split: option.splits if_splits prod.splits)
  with assms show ?thesis
    by (auto simp: persist_def doneText_def split: option.splits prod.splits)
qed

definition agrees :: "Checkpoint \<Rightarrow> ('s, 'o) rstate \<Rightarrow> bool" where
  "agrees saved s \<longleftrightarrow>
     cp_ModelIterations saved = r_iterations s \<and> cp_ModelRetries saved = r_modelRetries s \<and>
     cp_Steps saved = r_steps s \<and> cp_PendingTool saved = r_pendingTool s"

text \<open>Where the abstract machine stands, and that the last acknowledged snapshot is remembered.\<close>

definition stands ::
  "('s, 'o) session \<Rightarrow> bool \<Rightarrow> effect list \<Rightarrow> phase \<times> Checkpoint \<Rightarrow> Checkpoint \<Rightarrow> phase \<Rightarrow> Checkpoint \<Rightarrow>
     ('s, 'o) rstate \<Rightarrow> bool" where
  "stands X T l0 st0 initial p saved s \<longleftrightarrow>
     reached X T l0 st0 p saved s \<and> sameTask initial saved \<and>
     rs_ExecutionID (cp_Result saved) = rq_ExecutionID (cp_Request initial) \<and>
     (rt_store (ss_rt X) \<noteq> None \<longrightarrow> r_lastSaved s = cp_Result saved)"

definition sane :: "('s, 'o) session \<Rightarrow> bool \<Rightarrow> Checkpoint \<Rightarrow> ('s, 'o) rstate \<Rightarrow> bool" where
  "sane X T initial s \<longleftrightarrow>
     coherent initial s \<and> \<not> r_storeFailed s \<and> (T \<longrightarrow> texts X \<and> doneText X s)"

definition live ::
  "('s, 'o) session \<Rightarrow> bool \<Rightarrow> effect list \<Rightarrow> phase \<times> Checkpoint \<Rightarrow> Checkpoint \<Rightarrow> phase \<Rightarrow> Status \<Rightarrow>
     ('s, 'o) rstate \<Rightarrow> bool" where
  "live X T l0 st0 initial p st s \<longleftrightarrow>
     sane X T initial s \<and> ex_status (r_exec s) = st \<and>
     (\<exists>saved. stands X T l0 st0 initial p saved s \<and> agrees saved s)"

definition readyToSave ::
  "('s, 'o) session \<Rightarrow> bool \<Rightarrow> effect list \<Rightarrow> phase \<times> Checkpoint \<Rightarrow> Checkpoint \<Rightarrow> phase \<Rightarrow> Status \<Rightarrow>
     ('s, 'o) rstate \<Rightarrow> bool" where
  "readyToSave X T l0 st0 initial p' st s \<longleftrightarrow>
     sane X T initial s \<and> ex_status (r_exec s) = st \<and>
     (\<exists>p saved. p \<noteq> Stopped \<and> stands X T l0 st0 initial p saved s \<and>
        acknowledge p saved (assembleCheckpoint X initial (snapshot (r_exec s) (r_steps s) []) None s) = Some p')"

text \<open>What holds at a \<^verbatim>\<open>return\<close>, before the deferred functions.\<close>

definition leaves ::
  "('s, 'o) session \<Rightarrow> bool \<Rightarrow> effect list \<Rightarrow> phase \<times> Checkpoint \<Rightarrow> Checkpoint \<Rightarrow> Result \<times> goerr option \<Rightarrow>
     ('s, 'o) rstate \<Rightarrow> bool" where
  "leaves X T l0 st0 initial r s \<longleftrightarrow>
     (\<exists>p saved. stands X T l0 st0 initial p saved s \<and>
        (if r_storeFailed s then rt_store (ss_rt X) \<noteq> None \<and> fst r = r_lastSaved s \<and>
              (\<exists>e. snd r = Some e \<and> errorsIs e ErrCheckpointStore)
         else p \<noteq> Fresh \<and> p \<noteq> Stopped \<and> coherent initial s \<and> describes (fst r) s \<and> agrees saved s \<and>
              terminal (rs_Status (fst r)) \<and> (T \<longrightarrow> outcomeShape X (fst r) (snd r) s) \<and>
              (snd r = None \<longleftrightarrow> rs_Status (fst r) = StatusCompleted)))"

definition panicked ::
  "('s, 'o) session \<Rightarrow> bool \<Rightarrow> effect list \<Rightarrow> phase \<times> Checkpoint \<Rightarrow> ('s, 'o) rstate \<Rightarrow> bool" where
  "panicked X T l0 st0 s \<longleftrightarrow>
     (\<exists>p saved. reached X T l0 st0 p saved s \<and> (p = Answered \<or> (\<exists>call. p = Dispatched call)))"

definition running :: "phase \<Rightarrow> bool" where
  "running p \<longleftrightarrow> p \<noteq> Fresh \<and> p \<noteq> Stopped"

lemma coherent_leave:
  assumes "coherent initial s" and "st = StatusFailed \<or> st = StatusCancelled \<or> st = StatusCompleted"
    and "validTransition (ex_status (r_exec s)) st"
  shows "coherent initial (s\<lparr>r_exec := fst (transition (r_exec s) st)\<rparr>)"
  using assms wf_transition [of "r_exec s" st]
  by (auto simp: coherent_def transition_def startsTool_def finishesTool_def)

lemma doneText_update [simp]:
  "doneText X (s\<lparr>r_exec := e\<rparr>) = doneText X s"
  "doneText X (s\<lparr>r_iterations := i\<rparr>) = doneText X s"
  "doneText X (s\<lparr>r_modelRetries := i\<rparr>) = doneText X s"
  "doneText X (s\<lparr>r_steps := ss\<rparr>) = doneText X s"
  "doneText X (s\<lparr>r_pendingTool := c\<rparr>) = doneText X s"
  by (simp_all add: doneText_def)

lemma stands_update [simp]:
  "stands X T l0 st0 initial p saved (s\<lparr>r_exec := e\<rparr>) = stands X T l0 st0 initial p saved s"
  "stands X T l0 st0 initial p saved (s\<lparr>r_iterations := i\<rparr>) = stands X T l0 st0 initial p saved s"
  "stands X T l0 st0 initial p saved (s\<lparr>r_modelRetries := i\<rparr>) = stands X T l0 st0 initial p saved s"
  "stands X T l0 st0 initial p saved (s\<lparr>r_steps := ss\<rparr>) = stands X T l0 st0 initial p saved s"
  "stands X T l0 st0 initial p saved (s\<lparr>r_pendingTool := c\<rparr>) = stands X T l0 st0 initial p saved s"
  by (simp_all add: stands_def reached_def)

lemma triple_abort:
  assumes p: "running p" and st: "st = StatusFailed \<or> st = StatusCancelled"
    and cur: "cur = StatusRunningModel \<or> cur = StatusRunningTool"
  shows "triple (\<lambda>s. live X T l0 st0 initial p cur s \<and> (T \<longrightarrow> errorText (en_isPrint (ss_env X)) e \<noteq> []))
           (abort st e) Q (leaves X T l0 st0 initial) C"
proof -
  have "leaves X T l0 st0 initial (snapshot (r_exec s') (r_steps s') [], Some e) s'"
    if lv: "live X T l0 st0 initial p cur s" and T: "T \<longrightarrow> errorText (en_isPrint (ss_env X)) e \<noteq> []"
      and s': "s' = s\<lparr>r_exec := fst (transition (r_exec s) st)\<rparr>" for s s'
  proof -
    from cur st lv have v: "validTransition (ex_status (r_exec s)) st" by (auto simp: live_def)
    with lv st have "coherent initial s'" unfolding s' by (intro coherent_leave) (auto simp: live_def sane_def)
    moreover from v have x: "ex_status (r_exec s') = st" by (simp add: s' transition_ok)
    moreover from lv obtain saved where "stands X T l0 st0 initial p saved s'" "agrees saved s'"
      by (auto simp: live_def s' agrees_def)
    moreover from lv have "\<not> r_storeFailed s'" by (simp add: s' live_def sane_def)
    ultimately show ?thesis
      using p st T unfolding leaves_def running_def
      by (intro exI [of _ p] exI [of _ saved])
         (auto simp: snapshot_def cloneSteps_def describes_def terminal_def outcomeShape_def)
  qed
  then show ?thesis
    by (simp add: triple_def abort_def andThen_def modify_def reads_def returns_def)
qed

lemma triple_checkContext:
  assumes "running p" and "cur = StatusRunningModel \<or> cur = StatusRunningTool"
  shows "triple (\<lambda>s. live X T l0 st0 initial p cur s \<and> E s) checkContext
           (\<lambda>_ s. live X T l0 st0 initial p cur s \<and> E s) (leaves X T l0 st0 initial) C"
  unfolding checkContext_def
proof (rule triple_reads, rule triple_option, goal_cases)
  case (1 s0)
  show ?case by (rule triple_pass) simp
next
  case (2 s0 e)
  show ?case
    by (rule triple_pre [OF triple_abort [OF assms(1) _ assms(2)]])
       (use 2 in \<open>auto simp: executionContextErr_def live_def sane_def doneText_def split: option.splits\<close>)
qed

text \<open>Facts about the counters and histories survive what does not touch the local variables.\<close>

abbreviation onLocals :: "(int \<Rightarrow> int \<Rightarrow> Step list \<Rightarrow> ToolCall option \<Rightarrow> bool) \<Rightarrow> ('s, 'o) rstate \<Rightarrow> bool" where
  "onLocals E s \<equiv> E (r_iterations s) (r_modelRetries s) (r_steps s) (r_pendingTool s)"

lemma persist_error:
  "persist X initial current cause create s = (s', Some e) \<Longrightarrow> errorsIs e ErrCheckpointStore"
  by (auto simp: persist_def writeCheckpoint_def finishWrite_def storeError_def Let_def
      split: option.splits prod.splits if_splits)

lemma triple_save:
  assumes "p' \<noteq> Stopped" and "cur = StatusRunningModel \<or> cur = StatusRunningTool"
    and ini: "wfStructure initial"
  shows "triple (\<lambda>s. readyToSave X T l0 st0 initial p' cur s \<and> onLocals E s) (save X initial)
           (\<lambda>_ s. live X T l0 st0 initial p' cur s \<and> onLocals E s)
           (leaves X T l0 st0 initial) C"
  unfolding triple_def
proof (intro allI impI, elim conjE)
  fix s :: "('a, 'b) rstate"
  assume rd: "readyToSave X T l0 st0 initial p' cur s"
    and E: "onLocals E s"
  let ?cur = "snapshot (r_exec s) (r_steps s) []"
  define cp where "cp = assembleCheckpoint X initial ?cur None s"
  from rd obtain p saved where p: "p \<noteq> Stopped" and stn: "stands X T l0 st0 initial p saved s"
    and ack: "acknowledge p saved cp = Some p'" and sn: "sane X T initial s" and st: "ex_status (r_exec s) = cur"
    by (auto simp: readyToSave_def cp_def)
  have task: "sameTask initial cp" "sameTask saved cp"
    using assemble_sameTask [OF ini] stn by (auto simp: cp_def stands_def)
  have de: "describes ?cur s" by (simp add: describes_def snapshot_def cloneSteps_def)
  have os: "outcomeShape X ?cur None s"
    using st assms(2) by (auto simp: outcomeShape_def snapshot_def)
  have wfr: "wfRecovery cp"
    unfolding cp_def using sn by (intro assemble_wfRecovery de os) (simp add: sane_def)
  have wf: "wfStructure cp"
    using wfr sn ini
    by (auto simp: wfStructure_def cp_def assembleCheckpoint_def snapshot_def sane_def coherent_def
        wfExecution_def CheckpointSchemaVersion_def)
  obtain s' r where ps: "persist X initial ?cur None False s = (s', r)" by (metis surj_pair)
  have step: "protocolStep (p, saved) (Wrote False (withRevision cp) (ss_token X) None) = Some (p', withRevision cp)"
    using ack task by simp
  note rp = reached_persist [OF _ ps cp_def step p, of T l0 st0]
  note loc = persist_locals [OF ps]
  show "case save X initial s of
      (s', Go x) \<Rightarrow> live X T l0 st0 initial p' cur s' \<and> onLocals E s'
    | (s', Ret r) \<Rightarrow> leaves X T l0 st0 initial r s' | (s', Panic) \<Rightarrow> C s'"
  proof (cases r)
    case None
    have "stands X T l0 st0 initial p' (withRevision cp) s'"
      using rp stn wf None task by (auto simp: stands_def) (simp_all add: cp_def assembleCheckpoint_def)
    moreover have "agrees (withRevision cp) s'"
      using loc by (simp add: agrees_def cp_def assembleCheckpoint_def snapshot_def cloneSteps_def)
    moreover have "sane X T initial s'"
      using sn loc None doneText_persist [OF _ _ ps] by (auto simp: sane_def coherent_def)
    ultimately have "live X T l0 st0 initial p' cur s'"
      using st loc(1) by (auto simp: live_def)
    with None ps E loc show ?thesis by (simp add: save_def)
  next
    case (Some e)
    with rp stn wf obtain q where "stands X T l0 st0 initial q saved s'" "rt_store (ss_rt X) \<noteq> None"
      by (auto simp: stands_def)
    moreover have "errorsIs e ErrCheckpointStore" using persist_error ps Some by blast
    moreover have "r_storeFailed s'" using loc Some by simp
    ultimately have "leaves X T l0 st0 initial (r_lastSaved s', Some e) s'"
      unfolding leaves_def by auto
    with Some ps show ?thesis by (simp add: save_def)
  qed
qed

lemma sane_cong:
  assumes "sameLocals s t" and "T \<longrightarrow> texts X \<longrightarrow> doneText X s \<longrightarrow> doneText X t" and "sane X T initial s"
  shows "sane X T initial t"
  using assms coherent_cong [OF assms(1)] by (auto simp: sane_def sameLocals_def)

text \<open>A callback answered in state \<open>t\<close> is followed by the observation of its completion.\<close>

lemma live_after_callback:
  assumes "live X T l0 st0 initial p cur s" and "stands X T l0 st0 initial p saved s" and "agrees saved s"
    and lt: "sameLocals s t" and re: "reached X T l0 st0 p' saved t"
    and d: "T \<longrightarrow> texts X \<longrightarrow> doneText X s \<longrightarrow> doneText X t"
  shows "live X T l0 st0 initial p' cur (observe X ev t)" and "sameLocals s (observe X ev t)"
proof -
  show l: "sameLocals s (observe X ev t)"
    using lt sameLocals_observe by (rule sameLocals_trans)
  have "sane X T initial (observe X ev t)"
    by (rule sane_cong [OF l]) (use assms d doneText_observe in \<open>auto simp: live_def\<close>)
  moreover have "stands X T l0 st0 initial p' saved (observe X ev t)"
    using assms(2) re l by (simp add: stands_def reached_observe sameLocals_def)
  ultimately show "live X T l0 st0 initial p' cur (observe X ev t)"
    using assms(1,3) l by (auto simp: live_def agrees_def sameLocals_def)
qed

lemma triple_callModel:
  "triple (\<lambda>s. live X T l0 st0 initial Reserved cur s \<and> onLocals E s) (callModel X initial)
     (\<lambda>_ s. live X T l0 st0 initial Answered cur s \<and> onLocals E s)
     (leaves X T l0 st0 initial) (panicked X T l0 st0)"
  unfolding triple_def
proof (intro allI impI, elim conjE)
  fix s :: "('a, 'b) rstate"
  assume lv: "live X T l0 st0 initial Reserved cur s" and E: "onLocals E s"
  define s1 where "s1 = observe X (plainEvent EventModelStarted (rq_ExecutionID (cp_Request initial))
      StatusRunningModel (r_iterations s)) s"
  define inp where "inp = \<lparr>mi_Prompt = rq_Prompt (cp_Request initial), mi_Steps = cloneSteps (r_steps s1)\<rparr>"
  obtain s2 r where nx: "Next X (rt_model (ss_rt X)) inp s1 = (s2, r)" by (metis surj_pair)
  have l1: "sameLocals s s1" by (simp add: s1_def)
  have l2: "sameLocals s s2" using sameLocals_Next [OF nx] l1 sameLocals_trans by blast
  from lv obtain saved where stn: "stands X T l0 st0 initial Reserved saved s" and ag: "agrees saved s"
    by (auto simp: live_def)
  have re: "reached X T l0 st0 Answered saved s2"
    by (rule reached_Next [OF _ nx])
       (use stn ag l1 in \<open>auto simp: inp_def stands_def sameTask_def agrees_def sameLocals_def cloneSteps_def s1_def
          intro: reached_observe\<close>)
  have d: "T \<longrightarrow> texts X \<longrightarrow> doneText X s \<longrightarrow> doneText X s2"
    using doneText_Next [OF _ _ nx] doneText_observe by (auto simp: s1_def)
  from nx re live_after_callback [OF lv stn ag l2 re d] E
  show "case callModel X initial s of
      (s', Go x) \<Rightarrow> live X T l0 st0 initial Answered cur s' \<and> onLocals E s'
    | (s', Ret r) \<Rightarrow> leaves X T l0 st0 initial r s' | (s', Panic) \<Rightarrow> panicked X T l0 st0 s'"
    by (auto simp: callModel_def Let_def s1_def [symmetric] inp_def [symmetric] panicked_def sameLocals_def
        split: option.splits)
qed

lemma triple_callTool:
  "triple (\<lambda>s. live X T l0 st0 initial (Intended call) cur s \<and> onLocals E s) (callTool X initial tools call)
     (\<lambda>_ s. live X T l0 st0 initial (Dispatched call) cur s \<and> onLocals E s)
     (leaves X T l0 st0 initial) (panicked X T l0 st0)"
  unfolding triple_def
proof (intro allI impI, elim conjE)
  fix s :: "('a, 'b) rstate"
  assume lv: "live X T l0 st0 initial (Intended call) cur s" and E: "onLocals E s"
  define s1 where "s1 = observe X (toolEvent EventToolStarted (rq_ExecutionID (cp_Request initial)) (r_iterations s) call) s"
  obtain s2 r where nx: "Execute X tools call s1 = (s2, r)" by (metis surj_pair)
  have l1: "sameLocals s s1" by (simp add: s1_def)
  have l2: "sameLocals s s2" using sameLocals_Execute [OF nx] l1 sameLocals_trans by blast
  from lv obtain saved where stn: "stands X T l0 st0 initial (Intended call) saved s" and ag: "agrees saved s"
    by (auto simp: live_def)
  have re: "reached X T l0 st0 (Dispatched call) saved s2"
    by (rule reached_Execute [OF _ nx]) (use stn in \<open>simp add: s1_def stands_def reached_observe\<close>)
  have d: "T \<longrightarrow> texts X \<longrightarrow> doneText X s \<longrightarrow> doneText X s2"
    using doneText_Execute [OF _ _ nx] doneText_observe by (auto simp: s1_def)
  from nx re live_after_callback [OF lv stn ag l2 re d] E
  show "case callTool X initial tools call s of
      (s', Go x) \<Rightarrow> live X T l0 st0 initial (Dispatched call) cur s' \<and> onLocals E s'
    | (s', Ret r) \<Rightarrow> leaves X T l0 st0 initial r s' | (s', Panic) \<Rightarrow> panicked X T l0 st0 s'"
    by (auto simp: callTool_def Let_def s1_def [symmetric] panicked_def sameLocals_def split: option.splits)
qed

section \<open>The loop body refines the protocol\<close>

text \<open>After a reservation the attempt is not yet matched by a step or a retry, and no tool is pending.\<close>

abbreviation spare :: "int \<Rightarrow> int \<Rightarrow> Step list \<Rightarrow> ToolCall option \<Rightarrow> bool" where
  "spare i r ss pend \<equiv> r < i \<and> int (length ss) < i \<and> pend = None"

abbreviation pendingIs :: "ToolCall \<Rightarrow> int \<Rightarrow> int \<Rightarrow> Step list \<Rightarrow> ToolCall option \<Rightarrow> bool" where
  "pendingIs call i r ss pend \<equiv> pend = Some call"

lemma running_simps [simp]:
  "running Idle" "running Reserved" "running Answered" "running (Intended c)" "running (Dispatched c)"
  "\<not> running Fresh" "\<not> running Stopped"
  by (simp_all add: running_def)

lemma live_pass:
  assumes "live X T l0 st0 initial p cur s"
  shows "live X T l0 st0 initial p cur (passTime X s)"
proof -
  from assms obtain saved where "stands X T l0 st0 initial p saved s" "agrees saved s" by (auto simp: live_def)
  then have "stands X T l0 st0 initial p saved (passTime X s)" "agrees saved (passTime X s)"
    by (simp_all add: stands_def agrees_def reached_passTime)
  moreover have "sane X T initial (passTime X s)"
    by (rule sane_cong [OF sameLocals_passTime]) (use assms doneText_passTime in \<open>auto simp: live_def\<close>)
  ultimately show ?thesis using assms by (auto simp: live_def)
qed

lemma triple_wait:
  "triple (live X T l0 st0 initial p cur) (waitModelRetry X)
     (\<lambda>r s. live X T l0 st0 initial p cur s \<and> (r \<noteq> None \<longrightarrow> w_done s \<noteq> None)) R C"
  by (auto simp: triple_def waitModelRetry_def Let_def live_pass split: option.splits)

lemma triple_retry:
  assumes ini: "wfStructure initial"
  shows "triple (\<lambda>s. live X T l0 st0 initial Answered StatusRunningModel s \<and> onLocals spare s \<and>
             r_modelRetries s < cp_MaxModelRetries initial)
           (andThen (modify (\<lambda>s. s\<lparr>r_modelRetries := r_modelRetries s + 1\<rparr>)) (\<lambda>_. save X initial))
           (\<lambda>_ s. live X T l0 st0 initial Idle StatusRunningModel s) (leaves X T l0 st0 initial) C"
proof (rule triple_andThen [OF triple_modify])
  fix s :: "('a, 'b) rstate"
  assume a: "live X T l0 st0 initial Answered StatusRunningModel s \<and> onLocals spare s \<and>
             r_modelRetries s < cp_MaxModelRetries initial"
  let ?s = "s\<lparr>r_modelRetries := r_modelRetries s + 1\<rparr>"
  from a obtain saved where s: "stands X T l0 st0 initial Answered saved s" "agrees saved s"
    by (auto simp: live_def)
  have "acknowledge Answered saved (assembleCheckpoint X initial (snapshot (r_exec ?s) (r_steps ?s) []) None ?s) = Some Idle"
    using a s by (simp add: acknowledge_def isTerminal_def isRetry_def sameProgress_def terminal_def
        assembleCheckpoint_def snapshot_def cloneSteps_def live_def agrees_def stands_def sameTask_def)
  with a s show "readyToSave X T l0 st0 initial Idle StatusRunningModel ?s \<and> onLocals (\<lambda>_ _ _ _. True) ?s"
    unfolding readyToSave_def by (auto simp: live_def sane_def coherent_def)
next
  show "triple (\<lambda>s. readyToSave X T l0 st0 initial Idle StatusRunningModel s \<and> onLocals (\<lambda>_ _ _ _. True) s)
      (save X initial) (\<lambda>_ s. live X T l0 st0 initial Idle StatusRunningModel s) (leaves X T l0 st0 initial) C"
    by (rule triple_post [OF triple_save [where E = "\<lambda>_ _ _ _. True"]]) (use ini in auto)
qed

lemma andThen_assoc: "andThen (andThen m k) l = andThen m (\<lambda>x. andThen (k x) l)"
  by (rule ext) (simp add: andThen_def split: prod.splits flow.splits)

lemma triple_retry_cancelled:
  "triple (\<lambda>s. live X T l0 st0 initial Idle StatusRunningModel s \<and> w_done s \<noteq> None)
     (reads (\<lambda>s. abort StatusCancelled (case executionContextErr s of Some ctxErr \<Rightarrow> ctxErr | None \<Rightarrow> e)))
     Q (leaves X T l0 st0 initial) C"
  by (rule triple_reads, rule triple_pre [OF triple_abort [of Idle _ StatusRunningModel]])
     (auto simp: live_def sane_def doneText_def executionContextErr_def split: option.splits)

lemma triple_handleModelError:
  assumes ini: "wfStructure initial"
  shows "triple (\<lambda>s. live X T l0 st0 initial Answered StatusRunningModel s \<and> onLocals spare s)
           (handleModelError X initial e)
           (\<lambda>_ s. live X T l0 st0 initial Idle StatusRunningModel s) (leaves X T l0 st0 initial) C"
  unfolding handleModelError_def
proof (rule triple_andThen [OF triple_checkContext], simp, simp, rule triple_reads, rule triple_if, goal_cases)
  case (1 u s0)
  show ?case
    unfolding andThen_assoc [symmetric]
  proof (rule triple_andThen [OF triple_andThen [OF triple_pre [OF triple_retry [OF ini]] triple_wait]], goal_cases)
    case (1 s)
    with \<open>canRetryModel _ _ _ _\<close> show ?case by (auto simp: canRetryModel_def)
  next
    case (2 waitErr)
    show ?case
    proof (rule triple_option, goal_cases)
      case 1
      show ?case by (rule triple_pass) simp
    next
      case (2 w)
      show ?case by (rule triple_pre [OF triple_retry_cancelled]) (simp add: 2)
    qed
  qed
next
  case (2 u s0)
  show ?case by (rule triple_pre [OF triple_abort [of Answered _ StatusRunningModel]]) auto
qed

lemma live_status: "live X T l0 st0 initial p cur s \<Longrightarrow> ex_status (r_exec s) = cur"
  by (simp add: live_def)

lemma advance_ok:
  "validTransition (ex_status (r_exec s)) st \<Longrightarrow>
     advance st s = (s\<lparr>r_exec := fst (transition (r_exec s) st)\<rparr>, Go ())"
  by (simp add: advance_def transition_ok)

text \<open>Committing a tool result.\<close>

lemma coherent_commit:
  assumes co: "coherent initial s" and st: "ex_status (r_exec s) = StatusRunningTool"
    and pend: "r_pendingTool s = Some call"
  shows "coherent initial
    (s\<lparr>r_steps := r_steps s @ [completedStep (r_steps s) call output],
       r_exec := fst (transition (r_exec s) StatusRunningModel), r_pendingTool := None\<rparr>)"
  using assms wf_transition [of "r_exec s" StatusRunningModel]
  by (auto simp: coherent_def transition_def startsTool_def finishesTool_def wfSteps_def completedStep_def
      nth_append less_Suc_eq)

lemma triple_commit:
  assumes ini: "wfStructure initial"
  shows "triple (\<lambda>s. live X T l0 st0 initial (Dispatched call) StatusRunningTool s \<and> onLocals (pendingIs call) s)
           (andThen (modify (\<lambda>s. s\<lparr>r_steps := r_steps s @ [completedStep (r_steps s) call output]\<rparr>)) (\<lambda>_.
            andThen (advance StatusRunningModel) (\<lambda>_.
            andThen (modify (\<lambda>s. s\<lparr>r_pendingTool := None\<rparr>)) (\<lambda>_. save X initial))))
           (\<lambda>_ s. live X T l0 st0 initial Idle StatusRunningModel s) (leaves X T l0 st0 initial) C"
proof -
  let ?f = "\<lambda>s. s\<lparr>r_steps := r_steps s @ [completedStep (r_steps s) call output],
       r_exec := fst (transition (r_exec s) StatusRunningModel), r_pendingTool := None\<rparr>"
  have ready: "readyToSave X T l0 st0 initial Idle StatusRunningModel (?f s)"
    if lv: "live X T l0 st0 initial (Dispatched call) StatusRunningTool s" and pend: "r_pendingTool s = Some call" for s
  proof -
    from lv obtain saved where s: "stands X T l0 st0 initial (Dispatched call) saved s" "agrees saved s"
      by (auto simp: live_def)
    have "acknowledge (Dispatched call) saved
        (assembleCheckpoint X initial (snapshot (r_exec (?f s)) (r_steps (?f s)) []) None (?f s)) = Some Idle"
      using lv s by (simp add: acknowledge_def isTerminal_def isCompletion_def terminal_def transition_ok
          assembleCheckpoint_def snapshot_def cloneSteps_def live_def agrees_def completedStep_def)
    moreover have "coherent initial (?f s)"
      using lv pend by (intro coherent_commit) (simp_all add: live_def sane_def)
    ultimately show ?thesis
      unfolding readyToSave_def using lv s
      by (auto simp: live_def sane_def transition_ok intro!: exI [of _ "Dispatched call"] exI [of _ saved])
  qed
  have "triple (\<lambda>s. live X T l0 st0 initial (Dispatched call) StatusRunningTool s \<and> onLocals (pendingIs call) s)
      (andThen (modify (\<lambda>s. s\<lparr>r_steps := r_steps s @ [completedStep (r_steps s) call output]\<rparr>)) (\<lambda>_.
       andThen (advance StatusRunningModel) (\<lambda>_. modify (\<lambda>s. s\<lparr>r_pendingTool := None\<rparr>))))
      (\<lambda>_ s. readyToSave X T l0 st0 initial Idle StatusRunningModel s \<and> onLocals (\<lambda>_ _ _ _. True) s)
      (leaves X T l0 st0 initial) C"
    unfolding triple_def
  proof (intro allI impI, elim conjE, goal_cases)
    case (1 s)
    from ready [of s] 1 live_status [OF 1(1)] show ?case
      by (simp add: andThen_def modify_def advance_ok)
  qed
  from triple_andThen [OF this triple_save [where E = "\<lambda>_ _ _ _. True"]] ini
  show ?thesis unfolding andThen_assoc by simp
qed

lemma triple_runTool:
  assumes ini: "wfStructure initial"
  shows "triple (\<lambda>s. live X T l0 st0 initial (Intended call) StatusRunningTool s \<and> onLocals (pendingIs call) s)
           (runTool X initial tools call)
           (\<lambda>_ s. live X T l0 st0 initial Idle StatusRunningModel s) (leaves X T l0 st0 initial)
           (panicked X T l0 st0)"
  unfolding runTool_def
proof (rule triple_andThen [OF triple_callTool [where E = "pendingIs call"]], clarify, rule triple_option, goal_cases)
  case (1 out err)
  show ?case
    by (rule triple_andThen [OF triple_checkContext triple_commit [OF ini]]) simp_all
next
  case (2 out err e)
  show ?case
    by (rule triple_andThen [OF triple_checkContext], simp, simp,
        rule triple_pre [OF triple_abort [of "Dispatched call" _ StatusRunningTool]]) auto
qed

text \<open>Recording the intent to run a tool.\<close>

lemma coherent_intend:
  assumes "coherent initial s" and "ex_status (r_exec s) = StatusRunningModel" and "onLocals spare s"
    and "validCall call" and "tc_ID call \<notin> stepID ` set (r_steps s)"
  shows "coherent initial (s\<lparr>r_exec := fst (transition (r_exec s) StatusRunningTool), r_pendingTool := Some call\<rparr>)"
  using assms wf_transition [of "r_exec s" StatusRunningTool]
  by (auto simp: coherent_def transition_def startsTool_def finishesTool_def)

lemma triple_intend:
  assumes ini: "wfStructure initial" and call: "validCall call"
  shows "triple (\<lambda>s. live X T l0 st0 initial Answered StatusRunningModel s \<and> onLocals spare s \<and>
             tc_ID call \<notin> stepID ` set (r_steps s))
           (andThen (advance StatusRunningTool) (\<lambda>_.
            andThen (modify (\<lambda>s. s\<lparr>r_pendingTool := Some call\<rparr>)) (\<lambda>_. save X initial)))
           (\<lambda>_ s. live X T l0 st0 initial (Intended call) StatusRunningTool s \<and> onLocals (pendingIs call) s)
           (leaves X T l0 st0 initial) C"
proof -
  let ?f = "\<lambda>s. s\<lparr>r_exec := fst (transition (r_exec s) StatusRunningTool), r_pendingTool := Some call\<rparr>"
  have ready: "readyToSave X T l0 st0 initial (Intended call) StatusRunningTool (?f s)"
    if lv: "live X T l0 st0 initial Answered StatusRunningModel s" and sp: "onLocals spare s"
      and new: "tc_ID call \<notin> stepID ` set (r_steps s)" for s
  proof -
    from lv obtain saved where s: "stands X T l0 st0 initial Answered saved s" "agrees saved s"
      by (auto simp: live_def)
    have "acknowledge Answered saved
        (assembleCheckpoint X initial (snapshot (r_exec (?f s)) (r_steps (?f s)) []) None (?f s)) = Some (Intended call)"
      using lv s new by (simp add: acknowledge_def isTerminal_def isIntent_def isRetry_def sameProgress_def
          terminal_def transition_ok assembleCheckpoint_def snapshot_def cloneSteps_def live_def agrees_def)
    moreover have "coherent initial (?f s)"
      using lv sp new call by (intro coherent_intend) (simp_all add: live_def sane_def)
    ultimately show ?thesis
      unfolding readyToSave_def using lv s
      by (auto simp: live_def sane_def transition_ok intro!: exI [of _ "Answered"] exI [of _ saved])
  qed
  have "triple (\<lambda>s. live X T l0 st0 initial Answered StatusRunningModel s \<and> onLocals spare s \<and>
             tc_ID call \<notin> stepID ` set (r_steps s))
      (andThen (advance StatusRunningTool) (\<lambda>_. modify (\<lambda>s. s\<lparr>r_pendingTool := Some call\<rparr>)))
      (\<lambda>_ s. readyToSave X T l0 st0 initial (Intended call) StatusRunningTool s \<and> onLocals (pendingIs call) s)
      (leaves X T l0 st0 initial) C"
    unfolding triple_def
  proof (intro allI impI, elim conjE, goal_cases)
    case (1 s)
    from ready [of s] 1 live_status [OF 1(1)] show ?case
      by (simp add: andThen_def modify_def advance_ok)
  qed
  from triple_andThen [OF this triple_save [where E = "pendingIs call"]] ini
  show ?thesis unfolding andThen_assoc by simp
qed

lemma triple_dispatchTool:
  assumes ini: "wfStructure initial" and call: "validCall call"
  shows "triple (\<lambda>s. live X T l0 st0 initial Answered StatusRunningModel s \<and> onLocals spare s)
           (dispatchTool X initial call)
           (\<lambda>_ s. live X T l0 st0 initial Idle StatusRunningModel s) (leaves X T l0 st0 initial)
           (panicked X T l0 st0)"
  unfolding dispatchTool_def
proof (rule triple_reads, rule triple_if, goal_cases)
  case (1 s0)
  show ?case by (rule triple_pre [OF triple_abort [of Answered _ StatusRunningModel]]) auto
next
  case (2 s0)
  show ?case
  proof (rule triple_option, goal_cases)
    case 1
    show ?case by (rule triple_pre [OF triple_abort [of Answered _ StatusRunningModel]]) auto
  next
    case (2 tools)
    have "triple (\<lambda>s. (live X T l0 st0 initial Answered StatusRunningModel s \<and> onLocals spare s) \<and> s = s0)
        (andThen (andThen (advance StatusRunningTool) (\<lambda>_.
            andThen (modify (\<lambda>s. s\<lparr>r_pendingTool := Some call\<rparr>)) (\<lambda>_. save X initial)))
          (\<lambda>_. andThen checkContext (\<lambda>_. runTool X initial tools call)))
        (\<lambda>_ s. live X T l0 st0 initial Idle StatusRunningModel s) (leaves X T l0 st0 initial)
        (panicked X T l0 st0)"
      by (rule triple_andThen [OF triple_pre [OF triple_intend [OF ini call]]
            triple_andThen [OF triple_checkContext triple_runTool [OF ini]]])
         (use \<open>\<not> (\<exists>step \<in> _. _ step)\<close> in auto)
    then show ?case by (simp only: andThen_assoc)
  qed
qed

lemma triple_handleDecision:
  assumes ini: "wfStructure initial"
  shows "triple (\<lambda>s. live X T l0 st0 initial Answered StatusRunningModel s \<and> onLocals spare s)
           (handleDecision X initial d)
           (\<lambda>_ s. live X T l0 st0 initial Idle StatusRunningModel s) (leaves X T l0 st0 initial)
           (panicked X T l0 st0)"
proof (cases "Validate d")
  case (Some err)
  then have "errorText tb err \<noteq> []" for tb
    by (auto simp: Validate_def split: DecisionKind.splits if_splits)
  with Some show ?thesis
    unfolding handleDecision_def
    by (simp, intro triple_pre [OF triple_abort [of Answered _ StatusRunningModel]]) auto
next
  case None
  show ?thesis
  proof (cases "d_Kind d")
    case DecisionFinal
    have fin: "leaves X T l0 st0 initial (snapshot (r_exec s') (r_steps s') (d_Output d), None) s'"
      if lv: "live X T l0 st0 initial Answered StatusRunningModel s" and sp: "onLocals spare s"
        and s': "s' = s\<lparr>r_exec := fst (transition (r_exec s) StatusCompleted)\<rparr>" for s s'
    proof -
      from lv have st: "ex_status (r_exec s) = StatusRunningModel" by (rule live_status)
      with lv have "coherent initial s'"
        unfolding s' by (intro coherent_leave) (auto simp: live_def sane_def)
      moreover from st have x: "ex_status (r_exec s') = StatusCompleted" by (simp add: s' transition_ok)
      moreover from lv obtain saved where "stands X T l0 st0 initial Answered saved s'" "agrees saved s'"
        by (auto simp: live_def s' agrees_def)
      moreover from lv have "\<not> r_storeFailed s'" by (simp add: s' live_def sane_def)
      ultimately show ?thesis
        using sp unfolding leaves_def
        by (intro exI [of _ Answered] exI [of _ saved])
           (auto simp: snapshot_def cloneSteps_def describes_def terminal_def outcomeShape_def s')
    qed
    have "triple (\<lambda>s. live X T l0 st0 initial Answered StatusRunningModel s \<and> onLocals spare s)
        (andThen (advance StatusCompleted) (\<lambda>_.
           reads (\<lambda>s. returns (snapshot (r_exec s) (r_steps s) (d_Output d), None))))
        Q (leaves X T l0 st0 initial) (panicked X T l0 st0)" for Q
      unfolding triple_def
    proof (intro allI impI, elim conjE, goal_cases)
      case (1 s)
      from fin [OF 1(1) _ refl] 1(2-) live_status [OF 1(1)] show ?case
        by (simp add: andThen_def reads_def returns_def advance_ok)
    qed
    with None DecisionFinal show ?thesis by (simp add: handleDecision_def)
  next
    case DecisionToolCall
    with None have "validCall (d_ToolCall d)"
      by (auto simp: Validate_def validCall_def split: if_splits)
    from triple_dispatchTool [OF ini this] None DecisionToolCall show ?thesis
      by (simp add: handleDecision_def)
  next
    case (DecisionOther k)
    with None show ?thesis by (simp add: Validate_def)
  qed
qed

lemma coherent_no_pending:
  assumes "coherent initial s" and "ex_status (r_exec s) = StatusRunningModel"
  shows "r_pendingTool s = None"
  using coherent_pending [OF assms(1)] assms leftTool_status [of "ex_transitions (r_exec s)"]
  by (auto simp: coherent_def wfExecution_def)

lemma triple_reserve:
  assumes ini: "wfStructure initial"
  shows "triple (\<lambda>s. live X T l0 st0 initial Idle StatusRunningModel s \<and> r_iterations s < cp_MaxSteps initial)
           (andThen (modify (\<lambda>s. s\<lparr>r_iterations := r_iterations s + 1\<rparr>)) (\<lambda>_. save X initial))
           (\<lambda>_ s. live X T l0 st0 initial Reserved StatusRunningModel s \<and> onLocals spare s)
           (leaves X T l0 st0 initial) C"
proof (rule triple_andThen [OF triple_modify])
  fix s :: "('a, 'b) rstate"
  assume a: "live X T l0 st0 initial Idle StatusRunningModel s \<and> r_iterations s < cp_MaxSteps initial"
  let ?s = "s\<lparr>r_iterations := r_iterations s + 1\<rparr>"
  from a obtain saved where s: "stands X T l0 st0 initial Idle saved s" "agrees saved s"
    by (auto simp: live_def)
  from a have p: "r_pendingTool s = None"
    by (intro coherent_no_pending) (auto simp: live_def sane_def)
  have "acknowledge Idle saved (assembleCheckpoint X initial (snapshot (r_exec ?s) (r_steps ?s) []) None ?s) = Some Reserved"
    using a s by (simp add: acknowledge_def isTerminal_def isReservation_def sameProgress_def terminal_def
        assembleCheckpoint_def snapshot_def cloneSteps_def live_def agrees_def stands_def sameTask_def)
  moreover have "coherent initial ?s" "onLocals spare ?s"
    using a p by (auto simp: live_def sane_def coherent_def)
  ultimately show "readyToSave X T l0 st0 initial Reserved StatusRunningModel ?s \<and> onLocals spare ?s"
    unfolding readyToSave_def using a s
    by (auto simp: live_def sane_def intro!: exI [of _ Idle] exI [of _ saved])
qed (rule triple_save, use ini in auto)

lemma triple_iteration:
  assumes ini: "wfStructure initial"
  shows "triple (\<lambda>s. live X T l0 st0 initial Idle StatusRunningModel s \<and> r_iterations s < cp_MaxSteps initial)
           (iteration X initial)
           (\<lambda>_. live X T l0 st0 initial Idle StatusRunningModel) (leaves X T l0 st0 initial)
           (panicked X T l0 st0)"
proof -
  let ?dispatch = "\<lambda>(decision, err). case err of
         Some e \<Rightarrow> handleModelError X initial e
       | None \<Rightarrow> andThen checkContext (\<lambda>_. handleDecision X initial decision)"
  have d: "triple (\<lambda>s. live X T l0 st0 initial Answered StatusRunningModel s \<and> onLocals spare s) (?dispatch r)
      (\<lambda>_. live X T l0 st0 initial Idle StatusRunningModel) (leaves X T l0 st0 initial) (panicked X T l0 st0)" for r
    by (cases r, simp, intro triple_option triple_handleModelError [OF ini]
        triple_andThen [OF triple_checkContext triple_handleDecision [OF ini]]) simp_all
  have "triple (\<lambda>s. live X T l0 st0 initial Idle StatusRunningModel s \<and> r_iterations s < cp_MaxSteps initial)
      (andThen checkContext (\<lambda>_.
        andThen (andThen (modify (\<lambda>s. s\<lparr>r_iterations := r_iterations s + 1\<rparr>)) (\<lambda>_. save X initial)) (\<lambda>_.
          andThen checkContext (\<lambda>_. andThen (callModel X initial) ?dispatch))))
      (\<lambda>_. live X T l0 st0 initial Idle StatusRunningModel) (leaves X T l0 st0 initial) (panicked X T l0 st0)"
    by (rule triple_andThen [OF triple_checkContext triple_andThen [OF triple_reserve [OF ini]
          triple_andThen [OF triple_checkContext triple_andThen [OF triple_callModel d]]]]) simp_all
  then show ?thesis by (simp only: iteration_def andThen_assoc)
qed

lemma triple_exhausted:
  "triple (live X T l0 st0 initial Idle StatusRunningModel) exhausted Q
     (leaves X T l0 st0 initial) C"
proof -
  have "triple (\<lambda>s. live X T l0 st0 initial Idle StatusRunningModel s \<and> True) exhausted Q
     (leaves X T l0 st0 initial) C"
    unfolding exhausted_def
    by (rule triple_andThen [OF triple_checkContext], simp, simp,
        rule triple_pre [OF triple_abort [of Idle _ StatusRunningModel]]) auto
  then show ?thesis by simp
qed

lemma triple_runLoop:
  assumes "wfStructure initial"
  shows "triple (live X T l0 st0 initial Idle StatusRunningModel) (runLoop X initial)
           (\<lambda>_ _. False) (leaves X T l0 st0 initial) (panicked X T l0 st0)"
  by (rule runLoop_triple [OF triple_iteration [OF assms] triple_pre [OF triple_exhausted]]) simp

lemma triple_runBody:
  assumes "wfStructure initial"
  shows "triple (\<lambda>s. live X T l0 st0 initial Idle st s \<and> (st = StatusCreated \<or> st = StatusRunningModel))
           (runBody X initial) (\<lambda>_ _. False) (leaves X T l0 st0 initial) (panicked X T l0 st0)"
  unfolding runBody_def
proof (rule triple_andThen [OF _ triple_runLoop [OF assms]], unfold triple_def, intro allI impI, elim conjE)
  fix s :: "('a, 'b) rstate"
  assume lv: "live X T l0 st0 initial Idle st s" and st: "st = StatusCreated \<or> st = StatusRunningModel"
  from lv have x: "ex_status (r_exec s) = st" by (rule live_status)
  have "live X T l0 st0 initial Idle StatusRunningModel
      (s\<lparr>r_exec := fst (transition (r_exec s) StatusRunningModel)\<rparr>)" if "st = StatusCreated"
    using lv x that wf_transition [of "r_exec s" StatusRunningModel]
    by (auto simp: live_def sane_def coherent_def agrees_def transition_ok startsTool_def finishesTool_def)
  with lv st x show "case startRunning s of
      (s', Go u) \<Rightarrow> live X T l0 st0 initial Idle StatusRunningModel s'
    | (s', Ret r) \<Rightarrow> leaves X T l0 st0 initial r s' | (s', Panic) \<Rightarrow> panicked X T l0 st0 s'"
    by (auto simp: startRunning_def transition_ok)
qed

end
