(* ===== verification/Run_Refinement.thy ===== *)
theory Run_Refinement
  imports Loop_Refinement
begin

text \<open>
  The whole of \<^verbatim>\<open>run\<close>, with the creating write before the loop and the two deferred functions after
  it, follows the protocol and ends where \<open>concluded\<close> says.
\<close>

section \<open>The whole call refines the protocol\<close>

text \<open>What a finished call of \<^verbatim>\<open>run\<close> guarantees, in terms of the abstract machine.\<close>

definition concluded ::
  "('s, 'o) session \<Rightarrow> bool \<Rightarrow> effect list \<Rightarrow> phase \<times> Checkpoint \<Rightarrow> ('s, 'o, 'z) world_scheme \<Rightarrow> outcome \<Rightarrow> bool" where
  "concluded X T l0 st0 s out \<longleftrightarrow>
     (\<exists>p saved. reached X T l0 st0 p saved s \<and>
        (case out of
           Panicked \<Rightarrow> p = Answered \<or> (\<exists>call. p = Dispatched call)
         | Returned res err \<Rightarrow>
             (rt_store (ss_rt X) \<noteq> None \<longrightarrow> res = cp_Result saved) \<and>
             (p = Stopped \<and> terminal (rs_Status res) \<and> (err = None \<longleftrightarrow> rs_Status res = StatusCompleted) \<or>
              (\<exists>e. err = Some e \<and> errorsIs e ErrCheckpointStore))))"

lemma concluded_observe:
  "concluded X T l0 st0 s out \<Longrightarrow> concluded X T l0 st0 (observe Y ev s) out"
  unfolding concluded_def by (blast intro: reached_observe)

lemma persistTerminal_concludes:
  assumes lv: "leaves X T l0 st0 initial (result, err) s" and ini: "wfStructure initial"
    and pt: "persistTerminal X initial (result\<lparr>rs_ExecutionID := rq_ExecutionID (cp_Request initial)\<rparr>) err s =
               (s', res, err')"
  shows "concluded X T l0 st0 s' (Returned res err')"
proof (cases "r_storeFailed s")
  case True
  from lv True obtain p saved e where stn: "stands X T l0 st0 initial p saved s"
    and r: "rt_store (ss_rt X) \<noteq> None" "result = r_lastSaved s" "err = Some e" "errorsIs e ErrCheckpointStore"
    by (auto simp: leaves_def)
  from pt True have "s' = s" "res = result\<lparr>rs_ExecutionID := rq_ExecutionID (cp_Request initial)\<rparr>" "err' = err"
    by (auto simp: persistTerminal_def)
  moreover from stn r have "result\<lparr>rs_ExecutionID := rq_ExecutionID (cp_Request initial)\<rparr> = cp_Result saved"
    by (auto simp: stands_def)
  ultimately show ?thesis
    using stn r unfolding concluded_def
    by (intro exI [of _ p] exI [of _ saved]) (auto simp: stands_def)
next
  case False
  let ?res = "result\<lparr>rs_ExecutionID := rq_ExecutionID (cp_Request initial)\<rparr>"
  from lv False obtain p saved where stn: "stands X T l0 st0 initial p saved s"
    and p: "p \<noteq> Fresh" "p \<noteq> Stopped" and co: "coherent initial s" and de: "describes result s"
    and ag: "agrees saved s" and te: "terminal (rs_Status result)"
    and os: "T \<longrightarrow> outcomeShape X result err s" and er: "err = None \<longleftrightarrow> rs_Status result = StatusCompleted"
    by (auto simp: leaves_def)
  define cp where "cp = assembleCheckpoint X initial ?res err s"
  obtain t r where ps: "persist X initial ?res err False s = (t, r)" by (metis surj_pair)
  have de': "describes ?res s" and os': "T \<longrightarrow> outcomeShape X ?res err s"
    using de os by (auto simp: describes_def outcomeShape_def split: Status.splits)
  have wf: "T \<longrightarrow> wfStructure cp"
    using assemble_wfRecovery [OF co de', of X err] os' co ini de'
    by (auto simp: wfStructure_def cp_def assembleCheckpoint_def coherent_def wfExecution_def
        describes_def CheckpointSchemaVersion_def)
  have "acknowledge p saved cp = Some Stopped"
    using p te ag de by (simp add: acknowledge_def isTerminal_def sameProgress_def cp_def
        assembleCheckpoint_def agrees_def describes_def)
  then have step: "protocolStep (p, saved) (Wrote False (withRevision cp) (ss_token X) None) =
      Some (Stopped, withRevision cp)"
    using stn assemble_sameTask [OF ini] by (auto simp: stands_def cp_def)
  have re: "reached X T l0 st0 p saved s" using stn by (simp add: stands_def)
  note rp = reached_persist [OF re ps cp_def step p(2) wf]
  have run: "(case r of None \<Rightarrow> (t, ?res, err) | Some e \<Rightarrow> (t, r_lastSaved t, Some (errorsJoin err e))) = (s', res, err')"
    using pt False te ps by (auto simp: persistTerminal_def terminal_def)
  show ?thesis
  proof (cases r)
    case None
    with run rp te er show ?thesis
      unfolding concluded_def
      by (intro exI [of _ Stopped] exI [of _ "withRevision cp"]) (auto simp: cp_def assembleCheckpoint_def)
  next
    case (Some e)
    with rp obtain q where "reached X T l0 st0 q saved t" "r_lastSaved t = cp_Result saved"
      using stn by (auto simp: stands_def)
    with run Some persist_error [of X initial ?res err False s t e] ps show ?thesis
      unfolding concluded_def by (intro exI [of _ q] exI [of _ saved]) auto
  qed
qed

lemma finishRun_concludes:
  assumes r: "case r of (s, Go x) \<Rightarrow> False | (s, Ret x) \<Rightarrow> leaves X T l0 st0 initial x s
                | (s, Panic) \<Rightarrow> panicked X T l0 st0 s"
    and ini: "wfStructure initial" and fr: "finishRun X initial t0 r = (s', out)"
  shows "concluded X T l0 st0 s' out"
proof -
  obtain s f where rf: "r = (s, f)" by (cases r)
  show ?thesis
  proof (cases f)
    case (Ret x)
    obtain result err where x: "x = (result, err)" by (cases x)
    obtain t res err' where pt: "persistTerminal X initial
        (result\<lparr>rs_ExecutionID := rq_ExecutionID (cp_Request initial)\<rparr>) err s = (t, res, err')"
      by (metis surj_pair)
    have "concluded X T l0 st0 t (Returned res err')"
      using persistTerminal_concludes [OF _ ini pt] r rf Ret x by simp
    with fr rf Ret x pt show ?thesis
      by (auto simp: finishRun_def observeTerminal_def Let_def intro: concluded_observe split: if_splits)
  next
    case Panic
    with r rf fr show ?thesis by (auto simp: finishRun_def panicked_def concluded_def)
  qed (use r rf in simp)
qed

lemma start_coherent:
  assumes rb: "runnable initial"
  shows "coherent initial (startState initial w)"
proof -
  from rb have wf: "wfStructure initial" and re: "wfRecovery initial" and p: "cp_PendingTool initial = None"
    by (simp_all add: runnable_def wfStructure_def runnable_pending)
  from re p have "wfSteps (cp_Steps initial)" "finished (cp_Transitions initial) = length (cp_Steps initial)"
      "started (cp_Transitions initial) = length (cp_Steps initial)"
      "int (length (cp_Steps initial)) \<le> cp_ModelIterations initial"
    unfolding wfRecovery_def by (blast, blast, simp, blast)
  moreover from wf have "followTransitions StatusCreated (cp_Transitions initial) = Some (cp_Status initial)"
      "cp_ModelIterations initial \<le> cp_MaxSteps initial" "0 \<le> cp_ModelRetries initial"
      "cp_ModelRetries initial \<le> cp_MaxModelRetries initial" "cp_ModelRetries initial \<le> cp_ModelIterations initial"
    unfolding wfStructure_def by blast+
  ultimately show ?thesis
    by (simp only: coherent_def startState_def wfExecution_def cloneSteps_def rstate.simps world.simps
        execution.simps) simp
qed

lemma start_live:
  assumes "runnable initial" and "T \<longrightarrow> texts X \<and> doneText X w"
  shows "live X T (w_log w) (Idle, initial) initial Idle (cp_Status initial) (startState initial w)"
proof -
  have "stands X T (w_log w) (Idle, initial) initial Idle initial (startState initial w)"
    using assms(1) reached_start [of "startState initial w" "w_log w" X T Idle initial]
    by (simp add: stands_def startState_def runnable_def wfStructure_def sameTask_def)
  moreover have "agrees initial (startState initial w)"
    using assms(1) by (simp add: agrees_def startState_def runnable_pending cloneSteps_def)
  moreover have "sane X T initial (startState initial w)"
    using assms start_coherent [OF assms(1), of w] by (simp add: sane_def doneText_def startState_def)
  moreover have "ex_status (r_exec (startState initial w)) = cp_Status initial"
    by (simp add: startState_def)
  ultimately show ?thesis by (auto simp: live_def)
qed

lemma live_observe:
  assumes "live X T l0 st0 initial p cur s"
  shows "live X T l0 st0 initial p cur (observe X ev s)"
proof -
  from assms obtain saved where s: "stands X T l0 st0 initial p saved s" "agrees saved s" by (auto simp: live_def)
  show ?thesis
    by (rule live_after_callback [OF assms s sameLocals_refl]) (use s in \<open>auto simp: stands_def\<close>)
qed

lemma create_live:
  assumes rb: "runnable initial" and T: "T \<longrightarrow> texts X \<and> doneText X w" and st: "cp_Status initial = StatusCreated"
    and ps: "persist X initial (cp_Result initial) None True (startState initial w) = (s1, r)"
  shows "(r = None \<longrightarrow> live X T (w_log w) (Fresh, initial) initial Idle StatusCreated s1) \<and>
    (\<forall>e. r = Some e \<longrightarrow> concluded X T (w_log w) (Fresh, initial) s1 (Returned (r_lastSaved s1) (Some e)))"
proof -
  let ?s0 = "startState initial w"
  define cp where "cp = assembleCheckpoint X initial (cp_Result initial) None ?s0"
  have co: "coherent initial ?s0" by (rule start_coherent [OF rb])
  have de: "describes (cp_Result initial) ?s0" by (simp add: describes_def startState_def cloneSteps_def)
  have os: "outcomeShape X (cp_Result initial) None ?s0"
    using rb st by (simp add: outcomeShape_def startState_def runnable_def wfStructure_def wfRecovery_def wfStatus_def)
  have wf: "wfStructure cp"
    using assemble_wfRecovery [OF co de os] rb
    by (auto simp: wfStructure_def cp_def assembleCheckpoint_def runnable_def startState_def CheckpointSchemaVersion_def)
  have cpr: "cp_Result cp = cp_Result initial"
    using rb by (simp add: cp_def assembleCheckpoint_def runnable_def wfStructure_def)
  have task: "sameTask initial cp"
    unfolding cp_def using rb by (intro assemble_sameTask) (simp add: runnable_def)
  have step: "protocolStep (Fresh, initial) (Wrote True (withRevision cp) (ss_token X) None) = Some (Idle, withRevision cp)"
    using st cpr rb task by (simp add: sameProgress_def) (simp add: cp_def assembleCheckpoint_def startState_def runnable_pending)
  have re: "reached X T (w_log w) (Fresh, initial) Fresh initial ?s0"
    by (rule reached_start) (simp add: startState_def)
  note rp = reached_persist [OF re ps cp_def step _ impI [OF wf]]
  note loc = persist_locals [OF ps]
  have "live X T (w_log w) (Fresh, initial) initial Idle StatusCreated s1" if "r = None"
  proof -
    have "agrees (withRevision cp) s1"
      using loc cpr rb by (simp add: agrees_def cp_def assembleCheckpoint_def startState_def cloneSteps_def)
    moreover have "stands X T (w_log w) (Fresh, initial) initial Idle (withRevision cp) s1"
      using rp that task cpr rb by (auto simp: stands_def runnable_def wfStructure_def)
    moreover have "sane X T initial s1"
      using co loc that T doneText_persist [OF _ _ ps]
      by (auto simp: sane_def coherent_def startState_def doneText_def)
    moreover have "ex_status (r_exec s1) = StatusCreated" using loc st by (simp add: startState_def)
    ultimately show ?thesis by (auto simp: live_def)
  qed
  moreover have "concluded X T (w_log w) (Fresh, initial) s1 (Returned (r_lastSaved s1) (Some e))" if "r = Some e" for e
  proof -
    from rp that obtain q where "reached X T (w_log w) (Fresh, initial) q initial s1"
        "r_lastSaved s1 = cp_Result initial"
      by (auto simp: startState_def)
    moreover have "errorsIs e ErrCheckpointStore" using persist_error ps that by blast
    ultimately show ?thesis
      unfolding concluded_def by (intro exI [of _ q] exI [of _ initial]) auto
  qed
  ultimately show ?thesis by simp
qed

lemma run_concludes:
  assumes rb: "runnable initial" and T: "T \<longrightarrow> texts X \<and> doneText X w"
    and st: "create \<longrightarrow> cp_Status initial = StatusCreated"
    and run: "run X initial create w = (s, out)"
  shows "concluded X T (w_log w) (if create then Fresh else Idle, initial) s out"
proof -
  have ini: "wfStructure initial" and sti: "cp_Status initial = StatusCreated \<or> cp_Status initial = StatusRunningModel"
    using rb by (simp_all add: runnable_def)
  note body = triple_runBody [OF ini, unfolded triple_def, rule_format]
  have ls: "r_lastSaved (startState initial w) = cp_Result initial" by (simp add: startState_def)
  show ?thesis
  proof (cases create)
    case False
    with run have "finishRun X initial (now X w) (runBody X initial (startState initial w)) = (s, out)"
      by (simp add: run_def)
    from finishRun_concludes [OF body ini this] start_live [OF rb T] sti False show ?thesis by simp
  next
    case True
    obtain s1 r where ps: "persist X initial (cp_Result initial) None True (startState initial w) = (s1, r)"
      by (metis surj_pair)
    note cl = create_live [OF rb T _ ps]
    show ?thesis
    proof (cases r)
      case None
      with run True ps ls have f: "finishRun X initial (now X w) (runBody X initial (observe X
          (plainEvent EventExecutionStarted (rq_ExecutionID (cp_Request initial)) StatusCreated 0) s1)) = (s, out)"
        by (simp add: run_def)
      from cl None st True have "live X T (w_log w) (Fresh, initial) initial Idle StatusCreated s1" by simp
      from finishRun_concludes [OF body [OF conjI [OF live_observe [OF this] disjI1 [OF refl]]] ini f] True show ?thesis by simp
    next
      case (Some e)
      with run True ps ls cl st show ?thesis by (auto simp: run_def)
    qed
  qed
qed

end
