(* ===== verification/Histories.thy ===== *)
theory Histories
  imports Run_Refinement
begin

text \<open>
  Consequences of following the protocol, proved once for every admitted history: what precedes a
  callback, how often callbacks happen, how revisions grow, and that nothing follows the end.
\<close>

section \<open>Histories the protocol admits\<close>

fun inert :: "effect \<Rightarrow> bool" where
  "inert (Observed ev) = True"
| "inert (Renewed tok r) = True"
| "inert _ = False"

lemma protocolStep_inert: "inert e \<Longrightarrow> protocolStep st e = Some st"
  by (cases st; cases e) auto

lemma follow_snoc:
  "follow st (es @ [e]) = Some r \<longleftrightarrow> (\<exists>st'. follow st es = Some st' \<and> protocolStep st' e = Some r)"
  by (auto split: option.splits)

lemma follow_split:
  assumes "follow st (es @ e # fs) = Some r"
  obtains st1 st2 where "follow st es = Some st1" "protocolStep st1 e = Some st2" "follow st2 fs = Some r"
  using assms by (auto split: option.splits)

text \<open>The cases of one machine step, with what each one requires.\<close>

lemma protocolStep_cases [consumes 1, case_names inert model tool refused created saved]:
  assumes "protocolStep (p, saved) e = Some (p', saved')"
  obtains "inert e" "p' = p" "saved' = saved"
  | inp where "e = ModelCalled inp" "p = Reserved" "p' = Answered" "saved' = saved"
      "inp = \<lparr>mi_Prompt = rq_Prompt (cp_Request saved), mi_Steps = cp_Steps saved\<rparr>"
  | call where "e = ToolExecuted call" "p = Intended call" "p' = Dispatched call" "saved' = saved"
  | create cp tok err where "e = Wrote create cp tok (Some err)" "p \<noteq> Stopped" "p' = Stopped" "saved' = saved"
  | tok where "e = Wrote True saved' tok None" "p = Fresh" "p' = Idle" "cp_Status saved' = StatusCreated"
      "sameProgress saved saved'" "sameTask saved saved'"
  | tok where "e = Wrote False saved' tok None" "acknowledge p saved saved' = Some p'" "sameTask saved saved'"
proof (cases e)
  case (Wrote create cp tok r)
  show ?thesis
  proof (cases r)
    case None
    show ?thesis
    proof (cases create)
      case True
      with assms Wrote None show ?thesis by (intro that(5) [of tok]) (auto split: if_splits)
    next
      case False
      with assms Wrote None show ?thesis by (intro that(6) [of tok]) (auto split: if_splits)
    qed
  next
    case (Some err)
    with assms Wrote show ?thesis by (intro that(4) [of create cp tok err]) (auto split: if_splits)
  qed
next
  case (ModelCalled inp)
  with assms show ?thesis by (intro that(2) [of inp]) (auto split: if_splits)
next
  case (ToolExecuted call)
  with assms show ?thesis by (intro that(3) [of call]) (auto split: if_splits)
qed (use assms in \<open>auto intro: that(1)\<close>)

lemma acknowledge_cases [consumes 1, case_names terminal reservation retry intent completion]:
  assumes "acknowledge p saved cp = Some p'"
  obtains "isTerminal saved cp" "p \<noteq> Fresh" "p \<noteq> Stopped" "p' = Stopped"
  | "p = Idle" "isReservation saved cp" "p' = Reserved"
  | "p = Answered" "isRetry saved cp" "p' = Idle"
  | call where "p = Answered" "isIntent saved cp call" "cp_PendingTool cp = Some call" "p' = Intended call"
  | call where "p = Dispatched call" "isCompletion saved cp call" "p' = Idle"
  using assms that
  by (cases p) (auto simp: acknowledge_def split: if_splits option.splits)

lemma completion_steps:
  assumes "isCompletion saved cp call"
  obtains out where "cp_Steps cp = cp_Steps saved @ [completedStep (cp_Steps saved) call out]"
    "cp_Status cp = StatusRunningModel" "cp_PendingTool cp = None"
    "cp_ModelIterations cp = cp_ModelIterations saved" "cp_ModelRetries cp = cp_ModelRetries saved"
  using assms unfolding isCompletion_def by blast

lemma completedStep_ID [simp]: "stepID (completedStep steps call out) = tc_ID call"
  by (simp add: completedStep_def)

text \<open>What the acknowledged checkpoint looks like in each phase.\<close>

fun phaseShows :: "phase \<Rightarrow> Checkpoint \<Rightarrow> bool" where
  "phaseShows Fresh cp = True"
| "phaseShows Idle cp = (cp_Status cp = StatusCreated \<or> cp_Status cp = StatusRunningModel)"
| "phaseShows Reserved cp = (cp_Status cp = StatusRunningModel)"
| "phaseShows Answered cp = (cp_Status cp = StatusRunningModel)"
| "phaseShows (Intended call) cp =
     (cp_Status cp = StatusRunningTool \<and> cp_PendingTool cp = Some call \<and> tc_ID call \<notin> stepID ` set (cp_Steps cp))"
| "phaseShows (Dispatched call) cp =
     (cp_Status cp = StatusRunningTool \<and> cp_PendingTool cp = Some call \<and> tc_ID call \<notin> stepID ` set (cp_Steps cp))"
| "phaseShows Stopped cp = True"

lemma phaseShows_step:
  "protocolStep (p, saved) e = Some (p', saved') \<Longrightarrow> phaseShows p saved \<Longrightarrow> phaseShows p' saved'"
proof (induction rule: protocolStep_cases)
  case (saved tok)
  from saved(2) show ?case
    by (cases rule: acknowledge_cases)
       (auto simp: isReservation_def isRetry_def isIntent_def sameProgress_def elim!: completion_steps)
qed auto

lemma phaseShows_follow:
  "follow (p, saved) es = Some (p', saved') \<Longrightarrow> phaseShows p saved \<Longrightarrow> phaseShows p' saved'"
proof (induction es arbitrary: p saved)
  case (Cons e es)
  then show ?case by (auto split: option.splits dest: phaseShows_step)
qed simp

lemma stopped_follow:
  "follow (Stopped, saved) es = Some r \<Longrightarrow> list_all inert es \<and> r = (Stopped, saved)"
proof (induction es)
  case (Cons e es)
  then obtain st where st: "protocolStep (Stopped, saved) e = Some st" "follow st es = Some r"
    by (auto split: option.splits)
  obtain p' sv where "st = (p', sv)" by (cases st)
  from st(1) [unfolded this] have "inert e \<and> p' = Stopped \<and> sv = saved"
    by (cases rule: protocolStep_cases) (auto elim: acknowledge_cases)
  with st(2) \<open>st = (p', sv)\<close> Cons.IH show ?case by simp
qed simp

section \<open>Callbacks are covered by durable writes\<close>

definition coveredBy :: "effect list \<Rightarrow> Checkpoint \<Rightarrow> bool" where
  "coveredBy es cp \<longleftrightarrow> (\<exists>before tok after. es = before @ Wrote False cp tok None # after \<and> list_all inert after)"

lemma coveredBy_snoc: "coveredBy es cp \<Longrightarrow> inert e \<Longrightarrow> coveredBy (es @ [e]) cp"
  unfolding coveredBy_def by fastforce

lemma follow_covered:
  assumes "follow (p0, saved0) es = Some (p, saved)" and "p0 = Fresh \<or> p0 = Idle"
    and "p = Reserved \<or> (\<exists>call. p = Intended call)"
  shows "coveredBy es saved"
  using assms
proof (induction es arbitrary: p saved rule: rev_induct)
  case (snoc e es)
  from snoc.prems(1) obtain q sv where f: "follow (p0, saved0) es = Some (q, sv)"
    and st: "protocolStep (q, sv) e = Some (p, saved)"
    by (auto simp: follow_snoc simp del: follow_append)
  from st snoc.prems(3) show ?case
  proof (cases rule: protocolStep_cases)
    case inert
    with snoc.IH [OF f snoc.prems(2)] snoc.prems(3) show ?thesis by (auto intro: coveredBy_snoc)
  next
    case (saved tok)
    then show ?thesis unfolding coveredBy_def by (intro exI [of _ es] exI [of _ tok] exI [of _ "[]"]) simp
  qed auto
qed auto

lemma follow_tool_covered:
  assumes "follow (p0, saved0) (es @ ToolExecuted call # fs) = Some r" and "p0 = Fresh \<or> p0 = Idle"
    and "phaseShows p0 saved0"
  shows "\<exists>cp. coveredBy es cp \<and> cp_Status cp = StatusRunningTool \<and> cp_PendingTool cp = Some call \<and>
    tc_ID call \<notin> stepID ` set (cp_Steps cp)"
proof -
  obtain st1 st2 where s: "follow (p0, saved0) es = Some st1" "protocolStep st1 (ToolExecuted call) = Some st2"
    using assms(1) by (rule follow_split) blast
  obtain p saved where st1: "st1 = (p, saved)" by (cases st1)
  with s have p: "p = Intended call" by (auto split: if_splits)
  from phaseShows_follow [OF s(1) [unfolded st1] assms(3)] p have "phaseShows (Intended call) saved" by simp
  with follow_covered [OF s(1) [unfolded st1] assms(2)] p show ?thesis by auto
qed

section \<open>Counting\<close>

fun executedID :: "effect \<Rightarrow> string list" where
  "executedID (ToolExecuted call) = [tc_ID call]"
| "executedID _ = []"

fun isModelCall :: "effect \<Rightarrow> bool" where
  "isModelCall (ModelCalled inp) = True"
| "isModelCall _ = False"

definition executedIDs :: "effect list \<Rightarrow> string list" where
  "executedIDs es = concat (map executedID es)"

lemma executedIDs_simps [simp]:
  "executedIDs [] = []" "executedIDs (e # es) = executedID e @ executedIDs es"
  "executedIDs (es @ fs) = executedIDs es @ executedIDs fs"
  by (simp_all add: executedIDs_def)

abbreviation modelCalls :: "effect list \<Rightarrow> nat" where
  "modelCalls es \<equiv> length (filter isModelCall es)"

lemma executedIDs_callbacks: "executedIDs (filter isCallback es) = executedIDs es"
proof (induction es)
  case (Cons e es)
  then show ?case by (cases e) auto
qed simp

lemma modelCalls_callbacks: "modelCalls (filter isCallback es) = modelCalls es"
proof (induction es)
  case (Cons e es)
  then show ?case by (cases e) auto
qed simp

lemma inert_counts [simp]: "inert e \<Longrightarrow> executedID e = []" "inert e \<Longrightarrow> \<not> isModelCall e"
  by (cases e; simp)+

definition toolAccount :: "Checkpoint \<Rightarrow> effect list \<Rightarrow> phase \<Rightarrow> Checkpoint \<Rightarrow> bool" where
  "toolAccount initial es p saved \<longleftrightarrow>
     distinct (executedIDs es) \<and> stepID ` set (cp_Steps initial) \<inter> set (executedIDs es) = {} \<and>
     (p \<noteq> Stopped \<longrightarrow>
        stepID ` set (cp_Steps initial) \<subseteq> stepID ` set (cp_Steps saved) \<and>
        set (executedIDs es) \<subseteq> stepID ` set (cp_Steps saved) \<union> (case p of Dispatched c \<Rightarrow> {tc_ID c} | _ \<Rightarrow> {}))"

lemma toolAccount_step:
  assumes "protocolStep (p, saved) e = Some (p', saved')" and "toolAccount initial es p saved"
    and "phaseShows p saved"
  shows "toolAccount initial (es @ [e]) p' saved'"
  using assms
proof (induction rule: protocolStep_cases)
  case (saved tok)
  from saved(2) show ?case
    using saved
    by (cases rule: acknowledge_cases)
       (auto simp: toolAccount_def isReservation_def isRetry_def isIntent_def sameProgress_def
         elim!: completion_steps)
qed (auto simp: toolAccount_def sameProgress_def)

lemma follow_toolAccount:
  assumes "follow (p0, initial) es = Some (p, saved)" and "p0 = Fresh \<or> p0 = Idle" and "phaseShows p0 initial"
  shows "toolAccount initial es p saved"
  using assms(1)
proof (induction es arbitrary: p saved rule: rev_induct)
  case Nil
  with assms(2) show ?case by (auto simp: toolAccount_def)
next
  case (snoc e es)
  from snoc.prems(1) obtain q sv where f: "follow (p0, initial) es = Some (q, sv)"
    and st: "protocolStep (q, sv) e = Some (p, saved)"
    by (auto simp: follow_snoc simp del: follow_append)
  from toolAccount_step [OF st snoc.IH [OF f] phaseShows_follow [OF f assms(3)]] show ?case .
qed

definition modelAccount :: "Checkpoint \<Rightarrow> effect list \<Rightarrow> phase \<Rightarrow> Checkpoint \<Rightarrow> bool" where
  "modelAccount initial es p saved \<longleftrightarrow>
     sameTask initial saved \<and>
     int (modelCalls es) \<le> cp_ModelIterations saved - cp_ModelIterations initial \<and>
     (p \<noteq> Stopped \<longrightarrow>
        int (modelCalls es) + (if p = Reserved then 1 else 0) = cp_ModelIterations saved - cp_ModelIterations initial) \<and>
     cp_ModelIterations saved \<le> cp_MaxSteps initial"

lemma modelAccount_step:
  assumes "protocolStep (p, saved) e = Some (p', saved')" and "modelAccount initial es p saved"
  shows "modelAccount initial (es @ [e]) p' saved'"
  using assms
proof (induction rule: protocolStep_cases)
  case (saved tok)
  from saved(2) show ?case
    using saved
    by (cases rule: acknowledge_cases)
       (auto simp: modelAccount_def isReservation_def isRetry_def isIntent_def isTerminal_def
         sameProgress_def sameTask_def elim!: completion_steps split: if_splits)
qed (auto simp: modelAccount_def sameProgress_def sameTask_def split: if_splits)

lemma follow_modelAccount:
  assumes "follow (p0, initial) es = Some (p, saved)" and "p0 = Fresh \<or> p0 = Idle"
    and "cp_ModelIterations initial \<le> cp_MaxSteps initial"
  shows "modelAccount initial es p saved"
  using assms(1)
proof (induction es arbitrary: p saved rule: rev_induct)
  case Nil
  with assms(2,3) show ?case by (auto simp: modelAccount_def sameTask_def)
next
  case (snoc e es)
  from snoc.prems(1) obtain q sv where f: "follow (p0, initial) es = Some (q, sv)"
    and st: "protocolStep (q, sv) e = Some (p, saved)"
    by (auto simp: follow_snoc simp del: follow_append)
  from modelAccount_step [OF st snoc.IH [OF f]] show ?case .
qed

lemma follow_model_covered:
  assumes "follow (p0, initial) (es @ ModelCalled inp # fs) = Some r" and "p0 = Fresh \<or> p0 = Idle"
    and "phaseShows p0 initial" and "cp_ModelIterations initial \<le> cp_MaxSteps initial"
  shows "\<exists>cp. coveredBy es cp \<and> cp_Status cp = StatusRunningModel \<and>
    cp_ModelIterations cp = cp_ModelIterations initial + int (modelCalls es) + 1 \<and>
    inp = \<lparr>mi_Prompt = rq_Prompt (cp_Request cp), mi_Steps = cp_Steps cp\<rparr>"
proof -
  obtain st1 st2 where s: "follow (p0, initial) es = Some st1" "protocolStep st1 (ModelCalled inp) = Some st2"
    using assms(1) by (rule follow_split) blast
  obtain p saved where st1: "st1 = (p, saved)" by (cases st1)
  with s have p: "p = Reserved" "inp = \<lparr>mi_Prompt = rq_Prompt (cp_Request saved), mi_Steps = cp_Steps saved\<rparr>"
    by (auto split: if_splits)
  from phaseShows_follow [OF s(1) [unfolded st1] assms(3)] p have "phaseShows Reserved saved" by simp
  moreover from follow_modelAccount [OF s(1) [unfolded st1] assms(2,4)] p
  have "cp_ModelIterations saved = cp_ModelIterations initial + int (modelCalls es) + 1"
    by (simp add: modelAccount_def)
  ultimately show ?thesis using follow_covered [OF s(1) [unfolded st1] assms(2)] p by auto
qed

section \<open>Revisions\<close>

fun ackedCheckpoint :: "effect \<Rightarrow> Checkpoint list" where
  "ackedCheckpoint (Wrote create cp tok None) = [cp]"
| "ackedCheckpoint _ = []"

definition acked :: "effect list \<Rightarrow> Checkpoint list" where
  "acked es = concat (map ackedCheckpoint es)"

lemma acked_simps [simp]:
  "acked [] = []" "acked (e # es) = ackedCheckpoint e @ acked es" "acked (es @ fs) = acked es @ acked fs"
  by (simp_all add: acked_def)

lemma inert_acked [simp]: "inert e \<Longrightarrow> ackedCheckpoint e = []"
  by (cases e) auto

lemma wfStructure_progress:
  assumes "wfStructure cp"
  shows "progress cp = 1 + nat (cp_ModelIterations cp) + nat (cp_ModelRetries cp) + 2 * length (cp_Steps cp) +
    (if cp_PendingTool cp = None then 0 else 1) + (if terminal (cp_Status cp) then 1 else 0)"
proof -
  from assms have "wfRecovery cp" by (simp add: wfStructure_def)
  then have "finished (cp_Transitions cp) = length (cp_Steps cp)"
    and "started (cp_Transitions cp) = length (cp_Steps cp) + (if cp_PendingTool cp = None then 0 else 1)"
    unfolding wfRecovery_def by blast+
  then show ?thesis unfolding progress_def by linarith
qed

lemma acknowledge_progress:
  assumes ack: "acknowledge p saved cp = Some p'" and ph: "phaseShows p saved"
    and wf: "wfStructure saved" "wfStructure cp"
  shows "progress cp = Suc (progress saved)"
proof -
  have nn: "0 \<le> cp_ModelIterations saved" "0 \<le> cp_ModelRetries saved"
    and st: "wfStatus saved"
    using wf(1) unfolding wfStructure_def wfRecovery_def by blast+
  from ack show ?thesis
  proof (cases rule: acknowledge_cases)
    case terminal
    with ph have "\<not> terminal (cp_Status saved)" by (cases p) (auto simp: terminal_def)
    with terminal show ?thesis
      unfolding wfStructure_progress [OF wf(1)] wfStructure_progress [OF wf(2)]
      by (simp add: isTerminal_def sameProgress_def)
  next
    case reservation
    with ph nn show ?thesis
      unfolding wfStructure_progress [OF wf(1)] wfStructure_progress [OF wf(2)]
      by (auto simp: isReservation_def sameProgress_def terminal_def)
  next
    case retry
    with ph nn show ?thesis
      unfolding wfStructure_progress [OF wf(1)] wfStructure_progress [OF wf(2)]
      by (auto simp: isRetry_def sameProgress_def terminal_def)
  next
    case (intent call)
    with ph st have "cp_PendingTool saved = None" by (simp add: wfStatus_def)
    with intent ph nn show ?thesis
      unfolding wfStructure_progress [OF wf(1)] wfStructure_progress [OF wf(2)]
      by (auto simp: isIntent_def sameProgress_def terminal_def)
  next
    case (completion call)
    with ph nn show ?thesis
      unfolding wfStructure_progress [OF wf(1)] wfStructure_progress [OF wf(2)]
      by (auto simp: terminal_def elim!: completion_steps)
  qed
qed

lemma created_progress:
  assumes "wfStructure cp" "cp_Status cp = StatusCreated"
  shows "progress cp = 1"
proof -
  from assms(1) have "wfRecovery cp" unfolding wfStructure_def by blast
  then have "wfStatus cp" "int (length (cp_Steps cp)) \<le> cp_ModelIterations cp" unfolding wfRecovery_def by blast+
  with assms(2) show ?thesis
    unfolding wfStructure_progress [OF assms(1)] by (auto simp: wfStatus_def terminal_def)
qed

lemma wfStructure_revision:
  assumes "wfStructure cp" "cp_MaxSteps cp \<le> 2 ^ 61"
  shows "unat (checkpointRevision cp) = progress cp"
  using assms by (intro checkpointRevision_unat) (auto simp: wfStructure_def revisionFits_def)

text \<open>The revision a history starts from: none before the creating write.\<close>

definition baseRevision :: "phase \<Rightarrow> Checkpoint \<Rightarrow> nat" where
  "baseRevision p initial = (if p = Fresh then 0 else progress initial)"

lemma follow_revisions:
  assumes f: "follow (p0, initial) es = Some (p, saved)" and p0: "p0 = Fresh \<or> p0 = Idle"
    and ph: "phaseShows p0 initial" and wf: "wfStructure initial" and ms: "cp_MaxSteps initial \<le> 2 ^ 61"
    and snd: "list_all soundEffect es"
  shows "wfStructure saved \<and> sameTask initial saved \<and> (p = Fresh \<longrightarrow> acked es = [] \<and> p0 = Fresh) \<and>
    (p \<noteq> Fresh \<longrightarrow> p \<noteq> Stopped \<longrightarrow> progress saved = baseRevision p0 initial + length (acked es)) \<and>
    map (\<lambda>cp. unat (cp_Revision cp)) (acked es) = [Suc (baseRevision p0 initial)..<Suc (baseRevision p0 initial + length (acked es))]"
  using f snd
proof (induction es arbitrary: p saved rule: rev_induct)
  case Nil
  with wf p0 show ?case by (auto simp: sameTask_def baseRevision_def)
next
  case (snoc e es)
  from snoc.prems(1) obtain q sv where f: "follow (p0, initial) es = Some (q, sv)"
    and st: "protocolStep (q, sv) e = Some (p, saved)"
    by (auto simp: follow_snoc simp del: follow_append)
  from snoc.prems(2) have s: "list_all soundEffect es" "soundEffect e" by simp_all
  note IH = snoc.IH [OF f s(1)]
  have phq: "phaseShows q sv" by (rule phaseShows_follow [OF f ph])
  from st show ?case
  proof (cases rule: protocolStep_cases)
    case (created tok)
    with s have "wfStructure saved" "cp_Revision saved = checkpointRevision saved" by simp_all
    moreover have "sameTask initial saved" using IH created by (auto simp: sameTask_def)
    moreover have "unat (checkpointRevision saved) = 1"
      using created_progress wfStructure_revision calculation ms created(4) by (simp add: sameTask_def)
    ultimately show ?thesis using IH created created_progress by (simp add: baseRevision_def)
  next
    case (saved tok)
    with s have w: "wfStructure saved" "cp_Revision saved = checkpointRevision saved" by simp_all
    have t: "sameTask initial saved" using IH saved by (auto simp: sameTask_def)
    have pr: "progress saved = Suc (progress sv)"
      using acknowledge_progress [OF saved(2) phq] IH w by simp
    moreover have "unat (checkpointRevision saved) = progress saved"
      using wfStructure_revision w t ms by (simp add: sameTask_def)
    moreover have "q \<noteq> Fresh" "q \<noteq> Stopped" "p \<noteq> Fresh" using saved(2) by (auto elim: acknowledge_cases)
    moreover have "[Suc n..<Suc (n + Suc k)] = [Suc n..<Suc (n + k)] @ [Suc (n + k)]" for n k
      by simp
    ultimately show ?thesis using IH saved(1) w t by (simp del: upt_Suc)
  qed (use IH in auto)
qed

lemma follow_saved:
  "follow (p0, initial) es = Some (p, saved) \<Longrightarrow> saved = last (initial # acked es)"
proof (induction es arbitrary: p saved rule: rev_induct)
  case (snoc e es)
  from snoc.prems(1) obtain q sv where f: "follow (p0, initial) es = Some (q, sv)"
    and st: "protocolStep (q, sv) e = Some (p, saved)"
    by (auto simp: follow_snoc simp del: follow_append)
  from st snoc.IH [OF f] show ?case by (cases rule: protocolStep_cases) auto
qed simp

lemma follow_fresh: "follow (p0, initial) es = Some (Fresh, saved) \<Longrightarrow> saved = initial"
proof (induction es arbitrary: saved rule: rev_induct)
  case (snoc e es)
  from snoc.prems(1) obtain q sv where f: "follow (p0, initial) es = Some (q, sv)"
    and st: "protocolStep (q, sv) e = Some (Fresh, saved)"
    by (auto simp: follow_snoc simp del: follow_append)
  from st snoc.IH f show ?case
    by (cases rule: protocolStep_cases) (auto elim: acknowledge_cases)
qed simp

section \<open>Histories of a call of run\<close>

text \<open>The effects of one call of \<^verbatim>\<open>run\<close>.\<close>

definition history :: "('s, 'o) session \<Rightarrow> Checkpoint \<Rightarrow> bool \<Rightarrow> ('s, 'o) world \<Rightarrow> effect list" where
  "history X initial create w = drop (length (w_log w)) (w_log (fst (run X initial create w)))"

definition outcomeOf :: "('s, 'o) session \<Rightarrow> Checkpoint \<Rightarrow> bool \<Rightarrow> ('s, 'o) world \<Rightarrow> outcome" where
  "outcomeOf X initial create w = snd (run X initial create w)"

text \<open>A call of \<^verbatim>\<open>run\<close> as \<^verbatim>\<open>Run\<close> and \<^verbatim>\<open>Resume\<close> make it: a fresh execution is created, a saved one is not.\<close>

definition admissible :: "Checkpoint \<Rightarrow> bool \<Rightarrow> bool" where
  "admissible initial create \<longleftrightarrow> runnable initial \<and> (create \<longrightarrow> cp_Status initial = StatusCreated)"

abbreviation startPhase :: "bool \<Rightarrow> phase" where
  "startPhase create \<equiv> if create then Fresh else Idle"

text \<open>Error texts of cancellation causes are not empty, now and later.\<close>

definition spokenCauses :: "('s, 'o) session \<Rightarrow> ('s, 'o) world \<Rightarrow> bool" where
  "spokenCauses X w \<longleftrightarrow> texts X \<and> doneText X w"

text \<open>
  Where a call with a store ends: a panic leaves the machine right after a callback; a return hands
  out the last acknowledged result, which is terminal unless the store failed.
\<close>

definition settled :: "phase \<Rightarrow> Checkpoint \<Rightarrow> outcome \<Rightarrow> bool" where
  "settled p saved out \<longleftrightarrow>
     (case out of
        Panicked \<Rightarrow> p = Answered \<or> (\<exists>call. p = Dispatched call)
      | Returned res err \<Rightarrow>
          res = cp_Result saved \<and>
          (p = Stopped \<and> terminal (rs_Status res) \<and> (err = None \<longleftrightarrow> rs_Status res = StatusCompleted) \<or>
           (\<exists>e. err = Some e \<and> errorsIs e ErrCheckpointStore)))"

lemma admissible_phaseShows: "admissible initial create \<Longrightarrow> phaseShows (startPhase create) initial"
  by (auto simp: admissible_def runnable_def)

lemma startPhase_cases: "startPhase create = Fresh \<or> startPhase create = Idle"
  by simp

lemma admissible_wf: "admissible initial create \<Longrightarrow> wfStructure initial"
  by (simp add: admissible_def runnable_def)

lemma run_reaches:
  assumes "admissible initial create"
  obtains es p saved where
    "follow (startPhase create, initial) es = Some (p, saved)"
    "filter isCallback es = filter isCallback (history X initial create w)"
    "rt_store (ss_rt X) \<noteq> None \<Longrightarrow> es = history X initial create w"
    "rt_store (ss_rt X) \<noteq> None \<Longrightarrow> spokenCauses X w \<Longrightarrow> list_all soundEffect (history X initial create w)"
    "rt_store (ss_rt X) \<noteq> None \<Longrightarrow> settled p saved (outcomeOf X initial create w)"
proof -
  obtain s out where r: "run X initial create w = (s, out)" by (metis surj_pair)
  from assms have "concluded X (spokenCauses X w) (w_log w) (startPhase create, initial) s out"
    by (intro run_concludes [OF _ _ _ r]) (auto simp: admissible_def spokenCauses_def)
  then obtain p saved es es' where c: "w_log s = w_log w @ es" "follow (startPhase create, initial) es' = Some (p, saved)"
      "filter isCallback es' = filter isCallback es"
      "rt_store (ss_rt X) \<noteq> None \<longrightarrow> es' = es \<and> (spokenCauses X w \<longrightarrow> list_all soundEffect es)"
    and o: "case out of
       Panicked \<Rightarrow> p = Answered \<or> (\<exists>call. p = Dispatched call)
     | Returned res err \<Rightarrow>
         (rt_store (ss_rt X) \<noteq> None \<longrightarrow> res = cp_Result saved) \<and>
         (p = Stopped \<and> terminal (rs_Status res) \<and> (err = None \<longleftrightarrow> rs_Status res = StatusCompleted) \<or>
          (\<exists>e. err = Some e \<and> errorsIs e ErrCheckpointStore))"
    unfolding concluded_def reached_def by blast
  have "history X initial create w = es" using r c(1) by (simp add: history_def)
  with that [OF c(2)] c(3,4) o r show thesis by (auto simp: outcomeOf_def settled_def split: outcome.splits)
qed

lemma run_reaches_durably:
  assumes "admissible initial create" and "rt_store (ss_rt X) \<noteq> None"
  obtains p saved where
    "follow (startPhase create, initial) (history X initial create w) = Some (p, saved)"
    "spokenCauses X w \<Longrightarrow> list_all soundEffect (history X initial create w)"
    "settled p saved (outcomeOf X initial create w)"
proof (rule run_reaches [OF assms(1), of X w])
  fix es p saved
  assume r: "follow (startPhase create, initial) es = Some (p, saved)"
    "rt_store (ss_rt X) \<noteq> None \<Longrightarrow> es = history X initial create w"
    "rt_store (ss_rt X) \<noteq> None \<Longrightarrow> spokenCauses X w \<Longrightarrow> list_all soundEffect (history X initial create w)"
    "rt_store (ss_rt X) \<noteq> None \<Longrightarrow> settled p saved (outcomeOf X initial create w)"
  show thesis by (rule that [of p saved]) (use r assms(2) in auto)
qed

lemma follow_dispatched:
  "follow (p0, initial) es = Some (Dispatched call, saved) \<Longrightarrow> p0 = Fresh \<or> p0 = Idle \<Longrightarrow>
     ToolExecuted call \<in> set es"
proof (induction es arbitrary: saved rule: rev_induct)
  case (snoc e es)
  from snoc.prems(1) obtain q sv where f: "follow (p0, initial) es = Some (q, sv)"
    and st: "protocolStep (q, sv) e = Some (Dispatched call, saved)"
    by (auto simp: follow_snoc simp del: follow_append)
  from st snoc.IH f snoc.prems(2) show ?case
    by (cases rule: protocolStep_cases) (auto elim: acknowledge_cases)
qed auto

lemma run_executes_new:
  assumes "admissible initial create"
  shows "distinct (executedIDs (history X initial create w))"
    "stepID ` set (cp_Steps initial) \<inter> set (executedIDs (history X initial create w)) = {}"
proof -
  obtain es p saved where f: "follow (startPhase create, initial) es = Some (p, saved)"
    and c: "filter isCallback es = filter isCallback (history X initial create w)"
    using run_reaches [OF assms] by metis
  have e: "executedIDs (history X initial create w) = executedIDs es"
    using executedIDs_callbacks c by metis
  from follow_toolAccount [OF f startPhase_cases admissible_phaseShows [OF assms]]
  show "distinct (executedIDs (history X initial create w))"
    "stepID ` set (cp_Steps initial) \<inter> set (executedIDs (history X initial create w)) = {}"
    unfolding toolAccount_def e by blast+
qed

lemma run_completed:
  assumes "admissible initial create" and "rt_store (ss_rt X) \<noteq> None"
    and "outcomeOf X initial create w = Returned res None"
  shows "rs_Status res = StatusCompleted \<and> acked (history X initial create w) \<noteq> [] \<and>
    cp_Result (last (acked (history X initial create w))) = res"
proof (rule run_reaches_durably [OF assms(1,2)])
  fix p saved
  assume f: "follow (startPhase create, initial) (history X initial create w) = Some (p, saved)"
    and o: "settled p saved (outcomeOf X initial create w)"
  from o assms(3) have res: "res = cp_Result saved" "rs_Status res = StatusCompleted"
    by (auto simp: settled_def)
  have "saved = last (initial # acked (history X initial create w))" by (rule follow_saved [OF f])
  with res assms(1) show ?thesis
    by (cases "acked (history X initial create w) = []") (auto simp: admissible_def runnable_def)
qed

end
