(* ===== verification/World_Invariants.thy ===== *)
theory World_Invariants
  imports Histories
begin

text \<open>
  Invariants of the world that every operation of \<^verbatim>\<open>run\<close> keeps on every path (return, early return
  or panic). The locale \<open>loop_invariant\<close> lists what an invariant has to survive: the passing of
  time, the events of the loop and the callbacks, a write to a store while the lease is not lost, and
  the changes of the local variables. Its lemmas carry it up to the terminal event of the call;
  \<open>world_invariant\<close> carries it through that event as well.
\<close>

section \<open>Bodies that keep an invariant on every path\<close>

definition steady :: "('w \<Rightarrow> bool) \<Rightarrow> ('w, 'a, 'r) prog \<Rightarrow> bool" where
  "steady I m \<longleftrightarrow> (\<forall>s. I s \<longrightarrow> I (fst (m s)))"

lemma steady_andThen: "steady I m \<Longrightarrow> (\<And>x. steady I (k x)) \<Longrightarrow> steady I (andThen m k)"
  unfolding steady_def andThen_def
  by (force split: prod.splits flow.splits)

lemma steady_reads: "(\<And>s. steady I (k s)) \<Longrightarrow> steady I (reads k)"
  by (simp add: steady_def reads_def)

lemma steady_pass: "steady I (pass x)" "steady I (returns r)" "steady I panics"
  by (simp_all add: steady_def pass_def returns_def panics_def)

lemma steady_modify: "(\<And>s. I s \<Longrightarrow> I (f s)) \<Longrightarrow> steady I (modify f)"
  by (simp add: steady_def modify_def)

lemma steady_if: "steady I m \<Longrightarrow> steady I n \<Longrightarrow> steady I (if b then m else n)"
  by simp

lemma steady_option: "steady I m \<Longrightarrow> (\<And>y. steady I (n y)) \<Longrightarrow> steady I (case x of None \<Rightarrow> m | Some y \<Rightarrow> n y)"
  by (cases x) auto

lemma steady_prod: "(\<And>a b. steady I (n a b)) \<Longrightarrow> steady I (case x of (a, b) \<Rightarrow> n a b)"
  by (cases x) auto

lemmas steady_rules = steady_andThen steady_reads steady_pass steady_if steady_option steady_prod

lemma steadyD: "steady I m \<Longrightarrow> I s \<Longrightarrow> m s = (s', f) \<Longrightarrow> I s'"
  by (force simp: steady_def)

lemma triple_steady: "steady I m \<Longrightarrow> (\<And>s. P s \<Longrightarrow> I s) \<Longrightarrow> triple P m (\<lambda>_. I) (\<lambda>_. I) I"
  by (force simp: steady_def triple_def split: prod.splits flow.splits)

lemma steady_triple:
  assumes "triple I m (\<lambda>_ _. False) (\<lambda>_. I) I"
  shows "steady I m"
  unfolding steady_def
proof (intro allI impI)
  fix s
  assume "I s"
  with assms show "I (fst (m s))"
    unfolding triple_def by (cases "m s"; cases "snd (m s)") force+
qed

lemma exhausted_leaves: "exhausted s \<noteq> (s', Go u)"
  by (auto simp: exhausted_def checkContext_def abort_def andThen_def reads_def returns_def modify_def pass_def
      split: option.splits)

lemma triple_exhausted_leaves: "triple P exhausted Q R C \<Longrightarrow> triple P exhausted (\<lambda>_ _. False) R C"
  unfolding triple_def
proof (intro allI impI)
  fix s
  assume "\<forall>s. P s \<longrightarrow> (case exhausted s of (s', Go x) \<Rightarrow> Q x s' | (s', Ret r) \<Rightarrow> R r s' | (s', Panic) \<Rightarrow> C s')" "P s"
  then show "case exhausted s of (s', Go x) \<Rightarrow> False | (s', Ret r) \<Rightarrow> R r s' | (s', Panic) \<Rightarrow> C s'"
    using exhausted_leaves [of s] by (cases "exhausted s"; cases "snd (exhausted s)") auto
qed

section \<open>Invariants of the world\<close>

text \<open>The events of the loop: execution, status, attempt and duration are those of the state it is in.\<close>

definition loopEvent :: "('s, 'o) session \<Rightarrow> Checkpoint \<Rightarrow> ('s, 'o) rstate \<Rightarrow> Event \<Rightarrow> bool" where
  "loopEvent X initial s ev \<longleftrightarrow>
     ev_ExecutionID ev = rq_ExecutionID (cp_Request initial) \<and>
     (ev_Type ev, ev_Status ev) \<in> {(EventExecutionStarted, StatusCreated),
        (EventModelStarted, StatusRunningModel), (EventModelCompleted, StatusRunningModel),
        (EventToolStarted, StatusRunningTool), (EventToolCompleted, StatusRunningTool)} \<and>
     ev_ModelAttempt ev \<in> {0, r_iterations s} \<and>
     (ev_Duration ev = 0 \<or> (\<exists>t \<le> w_tick s. ev_Duration ev = now X s - en_clock (ss_env X) t))"

lemma passTime_tick: "w_tick (passTime X w) = Suc (w_tick w)"
  by (simp add: passTime_def renewStep_def emit_def Let_def split: option.splits prod.splits)

lemma Next_tick: "Next X m inp w = (w', r) \<Longrightarrow> w_tick w \<le> w_tick w'"
  by (induction X m inp w arbitrary: w' r rule: Next.induct)
     (auto simp: passTime_tick emit_def split: prod.splits option.splits)

lemma Execute_tick: "Execute X m call w = (w', r) \<Longrightarrow> w_tick w \<le> w_tick w'"
  by (induction X m call w arbitrary: w' r rule: Execute.induct)
     (auto simp: passTime_tick emit_def executeWithTimeout_def split: prod.splits option.splits)

lemma persist_refused_lastSaved:
  "persist X initial current cause create s = (s', Some e) \<Longrightarrow> r_lastSaved s' = r_lastSaved s"
  by (auto simp: persist_def writeCheckpoint_def finishWrite_def Let_def split: option.splits prod.splits if_splits)

locale loop_invariant =
  fixes X :: "('s, 'o) session" and initial :: Checkpoint and I :: "('s, 'o) rstate \<Rightarrow> bool"
  assumes passTime: "I s \<Longrightarrow> I (passTime X s)"
    and called: "I s \<Longrightarrow> isCallback e \<Longrightarrow> I (emit e s)"
    and wrote: "I s \<Longrightarrow> leaseLost s = None \<Longrightarrow> rt_store (ss_rt X) \<noteq> None \<Longrightarrow> I (emit (Wrote b cp tok r) (s\<lparr>w_store := st\<rparr>))"
    and observed: "I s \<Longrightarrow> rt_observer (ss_rt X) = Some obs \<Longrightarrow> loopEvent X initial s ev \<Longrightarrow>
      I (emit (Observed ev) (s\<lparr>w_obs := deliverObserver obs ev (w_obs s)\<rparr>))"
    and exec: "I s \<Longrightarrow> I (s\<lparr>r_exec := ex\<rparr>)"
    and iterations: "I s \<Longrightarrow> I (s\<lparr>r_iterations := r_iterations s + 1\<rparr>)"
    and modelRetries: "I s \<Longrightarrow> I (s\<lparr>r_modelRetries := n\<rparr>)"
    and steps: "I s \<Longrightarrow> I (s\<lparr>r_steps := ss\<rparr>)"
    and pendingTool: "I s \<Longrightarrow> I (s\<lparr>r_pendingTool := pt\<rparr>)"
    and lastSaved: "I s \<Longrightarrow> I (s\<lparr>r_lastSaved := ls\<rparr>)"
    and storeFailed: "I s \<Longrightarrow> I (s\<lparr>r_storeFailed := sf\<rparr>)"
begin

lemma observe_keeps: "I s \<Longrightarrow> loopEvent X initial s ev \<Longrightarrow> I (observe X ev s)"
  by (simp add: observe_def passTime observed split: option.splits)

lemma Next_keeps: "I s \<Longrightarrow> Next X m inp s = (s', r) \<Longrightarrow> I s'"
proof (induction m arbitrary: s' r)
  case (BaseModel f)
  then show ?case by (auto intro!: passTime called)
next
  case (timeoutModel m t)
  then show ?case by (fastforce split: prod.splits option.splits)
qed

lemma Execute_keeps: "I s \<Longrightarrow> Execute X m call s = (s', r) \<Longrightarrow> I s'"
proof (induction m arbitrary: s' r)
  case (BaseTools f)
  then show ?case by (auto intro!: passTime called)
next
  case (timeoutToolExecutor m t)
  then show ?case by (fastforce simp: executeWithTimeout_def split: prod.splits option.splits)
qed

lemma persist_keeps: "I s \<Longrightarrow> persist X initial current cause create s = (s', r) \<Longrightarrow> I s'"
  by (auto simp: persist_def writeCheckpoint_def finishWrite_def Let_def
      intro!: lastSaved storeFailed passTime wrote split: option.splits prod.splits if_splits)

lemma steady_callModel: "steady I (callModel X initial)"
  unfolding steady_def
proof (intro allI impI)
  fix s
  assume "I s"
  let ?eid = "rq_ExecutionID (cp_Request initial)"
  let ?s1 = "observe X (plainEvent EventModelStarted ?eid StatusRunningModel (r_iterations s)) s"
  let ?inp = "\<lparr>mi_Prompt = rq_Prompt (cp_Request initial), mi_Steps = cloneSteps (r_steps ?s1)\<rparr>"
  have s1: "I ?s1" using \<open>I s\<close> by (intro observe_keeps) (auto simp: loopEvent_def plainEvent_def)
  obtain s2 r where n: "Next X (rt_model (ss_rt X)) ?inp ?s1 = (s2, r)" by force
  have "I (observe X ((plainEvent EventModelCompleted ?eid StatusRunningModel (r_iterations s2))
          \<lparr>ev_Duration := now X s2 - now X ?s1, ev_Error := err\<rparr>) s2)" for err
    using Next_keeps [OF s1 n] Next_tick [OF n]
    by (intro observe_keeps) (auto simp: loopEvent_def plainEvent_def)
  with Next_keeps [OF s1 n] n show "I (fst (callModel X initial s))"
    by (cases r) (simp_all add: callModel_def Let_def split: prod.splits)
qed

lemma steady_callTool: "steady I (callTool X initial tools call)"
  unfolding steady_def
proof (intro allI impI)
  fix s
  assume "I s"
  let ?eid = "rq_ExecutionID (cp_Request initial)"
  let ?s1 = "observe X (toolEvent EventToolStarted ?eid (r_iterations s) call) s"
  have s1: "I ?s1" using \<open>I s\<close> by (intro observe_keeps) (auto simp: loopEvent_def toolEvent_def plainEvent_def)
  obtain s2 r where n: "Execute X tools call ?s1 = (s2, r)" by force
  have "I (observe X ((toolEvent EventToolCompleted ?eid (r_iterations s2) call)
          \<lparr>ev_Duration := now X s2 - now X ?s1, ev_Error := err\<rparr>) s2)" for err
    using Execute_keeps [OF s1 n] Execute_tick [OF n]
    by (intro observe_keeps) (auto simp: loopEvent_def toolEvent_def plainEvent_def)
  with Execute_keeps [OF s1 n] n show "I (fst (callTool X initial tools call s))"
    by (cases r) (simp_all add: callTool_def Let_def split: prod.splits)
qed

lemma steady_pieces:
  "steady I (abort st err)" "steady I checkContext" "steady I (save X initial)" "steady I (advance st)"
  "steady I (waitModelRetry X)"
proof -
  show ab: "steady I (abort st err)" for st err
    unfolding abort_def by (intro steady_rules steady_modify exec)
  show "steady I checkContext" unfolding checkContext_def by (intro steady_rules ab)
  show "steady I (save X initial)"
    unfolding steady_def save_def by (auto dest: persist_keeps split: prod.splits option.splits)
  show "steady I (advance st)"
    unfolding steady_def advance_def by (auto intro: exec split: prod.splits option.splits)
  show "steady I (waitModelRetry X)"
    unfolding steady_def waitModelRetry_def Let_def by (auto intro: passTime)
qed

lemmas steady_all = steady_rules steady_modify steady_pieces steady_callModel steady_callTool exec iterations modelRetries steps pendingTool

lemma steady_runTool: "steady I (runTool X initial tools call)"
  unfolding runTool_def by (intro steady_all)

lemma steady_dispatchTool: "steady I (dispatchTool X initial call)"
  unfolding dispatchTool_def by (intro steady_all steady_runTool)

lemma steady_handleDecision: "steady I (handleDecision X initial d)"
  unfolding handleDecision_def
  by (cases "d_Kind d") (auto intro!: steady_all steady_dispatchTool split: option.split)

lemma steady_handleModelError: "steady I (handleModelError X initial err)"
  unfolding handleModelError_def by (intro steady_all)

lemma steady_iteration: "steady I (iteration X initial)"
  unfolding iteration_def by (intro steady_all steady_handleDecision steady_handleModelError)

lemma steady_exhausted: "steady I exhausted"
  unfolding exhausted_def by (intro steady_all)

lemma steady_runLoop: "steady I (runLoop X initial)"
proof -
  have "triple I (runLoop X initial) (\<lambda>_ _. False) (\<lambda>_. I) I"
  proof (rule runLoop_triple)
    show "triple (\<lambda>s. I s \<and> r_iterations s < cp_MaxSteps initial) (iteration X initial) (\<lambda>_. I) (\<lambda>_. I) I"
      using steady_iteration by (rule triple_steady) simp
    show "triple (\<lambda>s. I s \<and> \<not> r_iterations s < cp_MaxSteps initial) exhausted (\<lambda>_ _. False) (\<lambda>_. I) I"
      by (rule triple_exhausted_leaves [OF triple_steady [OF steady_exhausted]]) simp
  qed
  then show ?thesis by (rule steady_triple)
qed

lemma steady_runBody: "steady I (runBody X initial)"
proof -
  have "steady I startRunning"
    by (auto simp: steady_def startRunning_def intro: exec split: prod.splits option.splits)
  then show ?thesis unfolding runBody_def by (intro steady_andThen steady_runLoop)
qed

text \<open>A call ends with its terminal event, with a panic, or where the first write is refused.\<close>

lemma finishRun_shape:
  assumes "I (fst r)" and "finishRun X initial t0 r = (s', out)"
  shows "(\<exists>s res err. I s \<and> out = Returned res err \<and> s' = observeTerminal X initial t0 res err s) \<or> I s' \<and> out = Panicked"
proof -
  obtain s f where r: "r = (s, f)" by (cases r)
  have k: "I s1" if "persistTerminal X initial res err s = (s1, res', err')" for res err s1 res' err'
    using that assms(1) r by (auto simp: persistTerminal_def dest: persist_keeps split: if_splits prod.splits option.splits)
  show ?thesis
  proof (cases f)
    case (Ret re)
    obtain s1 res' err' where "persistTerminal X initial ((fst re)\<lparr>rs_ExecutionID := rq_ExecutionID (cp_Request initial)\<rparr>)
        (snd re) s = (s1, res', err')" by (metis surj_pair)
    with k assms(2) r Ret show ?thesis by (cases re) (fastforce simp: finishRun_def)
  qed (use assms r in \<open>auto simp: finishRun_def\<close>)
qed

lemma run_shape:
  assumes "I (startState initial w)" and "run X initial create w = (s', out)"
  shows "(\<exists>s res err. I s \<and> out = Returned res err \<and> s' = observeTerminal X initial (now X w) res err s) \<or>
    I s' \<and> (out = Panicked \<or> (\<exists>err. create \<and> out = Returned (cp_Result initial) (Some err)))"
proof (cases create)
  case True
  obtain s1 r1 where p: "persist X initial (r_lastSaved (startState initial w)) None True (startState initial w) = (s1, r1)"
    by force
  have k: "I s1" by (rule persist_keeps [OF assms(1) p])
  show ?thesis
  proof (cases r1)
    case None
    let ?ev = "plainEvent EventExecutionStarted (rq_ExecutionID (cp_Request initial)) StatusCreated 0"
    have "I (observe X ?ev s1)" using k by (intro observe_keeps) (auto simp: loopEvent_def plainEvent_def)
    then have "I (fst (runBody X initial (observe X ?ev s1)))" using steady_runBody by (simp add: steady_def)
    from finishRun_shape [OF this] assms(2) p True None show ?thesis by (auto simp: run_def Let_def)
  next
    case (Some err)
    have "r_lastSaved s1 = cp_Result initial"
      using persist_refused_lastSaved [OF p [unfolded Some]] by (simp add: startState_def)
    with assms(2) p True Some k show ?thesis by (auto simp: run_def Let_def)
  qed
next
  case False
  have "I (fst (runBody X initial (startState initial w)))" using steady_runBody assms(1) by (simp add: steady_def)
  from finishRun_shape [OF this] assms(2) False show ?thesis by (auto simp: run_def Let_def)
qed

end

text \<open>An invariant that survives any event survives the whole call.\<close>

locale world_invariant = loop_invariant +
  assumes noted: "I s \<Longrightarrow> rt_observer (ss_rt X) = Some obs \<Longrightarrow>
    I (emit (Observed ev) (s\<lparr>w_obs := deliverObserver obs ev (w_obs s)\<rparr>))"
begin

lemma run_keeps: "I (startState initial w) \<Longrightarrow> I (fst (run X initial create w))"
proof -
  assume a: "I (startState initial w)"
  have "I (observe X ev s)" if "I s" for ev s
    using that by (simp add: observe_def passTime noted split: option.splits)
  with run_shape [OF a, of create] show ?thesis
    by (cases "run X initial create w") (auto simp: observeTerminal_def Let_def)
qed

end

section \<open>A lost lease ends all writes\<close>

fun isWrite :: "effect \<Rightarrow> bool" where
  "isWrite (Wrote create cp tok r) = True"
| "isWrite _ = False"

fun isLoss :: "effect \<Rightarrow> bool" where
  "isLoss (Renewed tok (Some e)) = True"
| "isLoss _ = False"

text \<open>No write follows a failed renewal.\<close>

fun writesBeforeLoss :: "effect list \<Rightarrow> bool" where
  "writesBeforeLoss [] = True"
| "writesBeforeLoss (e # es) = ((isLoss e \<longrightarrow> \<not> list_ex isWrite es) \<and> writesBeforeLoss es)"

lemma writesBeforeLoss_snoc:
  "writesBeforeLoss (es @ [e]) \<longleftrightarrow> writesBeforeLoss es \<and> (isWrite e \<longrightarrow> \<not> list_ex isLoss es)"
  by (induction es) auto

definition lossRespected :: "('s, 'o, 'z) world_scheme \<Rightarrow> bool" where
  "lossRespected s \<longleftrightarrow> writesBeforeLoss (w_log s) \<and> (list_ex isLoss (w_log s) \<longrightarrow> leaseLost s \<noteq> None)"

lemma lossRespected_passTime: "lossRespected s \<Longrightarrow> lossRespected (passTime X s)"
  by (auto simp: lossRespected_def passTime_def renewStep_def emit_def leaseLost_def writesBeforeLoss_snoc Let_def
      split: option.splits prod.splits if_splits)

interpretation loss: world_invariant X initial lossRespected for X initial
proof (unfold_locales, goal_cases)
  case (1 s)
  then show ?case by (rule lossRespected_passTime)
next
  case (2 s e)
  then have "\<not> isWrite e" "\<not> isLoss e" by (cases e; auto)+
  with 2(1) show ?case by (auto simp: lossRespected_def emit_def leaseLost_def writesBeforeLoss_snoc)
qed (auto simp: lossRespected_def emit_def leaseLost_def writesBeforeLoss_snoc)

lemma writesBeforeLoss_append:
  "writesBeforeLoss (es @ fs) \<Longrightarrow> writesBeforeLoss fs"
  by (induction es) auto

lemma writesBeforeLoss_split:
  "writesBeforeLoss (es @ Renewed tok (Some e) # fs) \<Longrightarrow> \<not> list_ex isWrite fs"
  by (induction es) auto

section \<open>The history only grows\<close>

interpretation grows: world_invariant X initial "\<lambda>s. \<exists>es. w_log s = l @ es" for X initial l
proof (unfold_locales, goal_cases)
  case (1 s)
  then show ?case using passTime_log [of X s] by auto
qed auto

lemma run_log: "w_log (fst (run X initial create w)) = w_log w @ history X initial create w"
proof -
  have "\<exists>es. w_log (startState initial w) = w_log w @ es" by (simp add: startState_def)
  from grows.run_keeps [OF this, of X create] show ?thesis by (auto simp: history_def)
qed

end
