(* ===== verification/Runtime_API.thy ===== *)
theory Runtime_API
  imports World_Invariants
begin

text \<open>
  The entry points of the library: building a \<^verbatim>\<open>Runtime\<close> with \<^verbatim>\<open>New\<close> and its options, taking and giving
  up the ownership of an execution (\<^verbatim>\<open>execution_lease.go\<close>, \<^verbatim>\<open>execution_lease_renewal.go\<close>), \<^verbatim>\<open>Run\<close>
  (\<^verbatim>\<open>runtime.go\<close>), and \<^verbatim>\<open>Resume\<close> (\<^verbatim>\<open>recovery.go\<close>) with the reconciliation and the replay of a pending tool
  (\<^verbatim>\<open>tool_reconciliation.go\<close>, \<^verbatim>\<open>tool_replay.go\<close>).

  \<open>ownSession\<close> is what a call works with before it owns the execution; acquisition adds the fencing
  token to it and starts the renewal goroutine. The deferred calls (stop the renewal, release the
  ownership) run on every path, also after a panic.
\<close>

section \<open>Options\<close>

type_synonym ('s, 'o) Option = "('s, 'o) Runtime \<Rightarrow> goerr + ('s, 'o) Runtime"

definition defaultMaxSteps :: int where
  "defaultMaxSteps = 16"

fun applyOptions :: "('s, 'o) Option option list \<Rightarrow> ('s, 'o) Option" where
  "applyOptions [] runtime = Inr runtime"
| "applyOptions (None # options) runtime = applyOptions options runtime"
| "applyOptions (Some option # options) runtime =
     (case option runtime of Inl err \<Rightarrow> Inl err | Inr runtime' \<Rightarrow> applyOptions options runtime')"

definition New ::
  "Model option \<Rightarrow> ToolExecutor option \<Rightarrow> ('s, 'o) Option option list \<Rightarrow> goerr + ('s, 'o) Runtime" where
  "New model tools options =
     (case model of
        None \<Rightarrow> Inl (errMsg ErrInvalidRequest ''model is required'')
      | Some m \<Rightarrow>
          applyOptions options
            \<lparr>rt_store = None, rt_model = m, rt_tools = tools, rt_observer = None, rt_maxSteps = defaultMaxSteps,
             rt_modelRetry = \<lparr>mr_MaxRetries = 0, mr_Delay = 0\<rparr>\<rparr>)"

definition WithMaxSteps :: "int \<Rightarrow> ('s, 'o) Option" where
  "WithMaxSteps maxSteps runtime =
     (if maxSteps \<le> 0 then Inl (errMsg ErrInvalidRequest ''max steps must be positive'')
      else Inr (runtime\<lparr>rt_maxSteps := maxSteps\<rparr>))"

definition WithCheckpointStore :: "'s CheckpointStore option \<Rightarrow> ('s, 'o) Option" where
  "WithCheckpointStore store runtime =
     (if store = None then Inl (errMsg ErrInvalidRequest ''checkpoint store is required'')
      else Inr (runtime\<lparr>rt_store := store\<rparr>))"

definition WithObserver :: "'o observer option \<Rightarrow> ('s, 'o) Option" where
  "WithObserver observer runtime =
     (if observer = None then Inl (errMsg ErrInvalidRequest ''observer is required'')
      else Inr (runtime\<lparr>rt_observer := observer\<rparr>))"

text \<open>The index of the first nil observer of a list, counted from \<open>i\<close>.\<close>

fun firstNil :: "int \<Rightarrow> 'a option list \<Rightarrow> int option" where
  "firstNil i [] = None"
| "firstNil i (None # xs) = Some i"
| "firstNil i (Some x # xs) = firstNil (i + 1) xs"

definition WithObservers :: "'o observer option list \<Rightarrow> ('s, 'o) Option" where
  "WithObservers observers runtime =
     (if observers = [] then Inl (errMsg ErrInvalidRequest ''at least one observer is required'')
      else case firstNil 0 observers of
        Some index \<Rightarrow>
          Inl (Errorf [W (Sentinel ErrInvalidRequest), Lit '': observer '', Num index, Lit '' is required''])
      | None \<Rightarrow> Inr (runtime\<lparr>rt_observer := Some (observerGroupOnEvent (map the observers))\<rparr>))"

definition WithModelTimeout :: "int \<Rightarrow> ('s, 'o) Option" where
  "WithModelTimeout timeout runtime =
     (if timeout \<le> 0 then Inl (errMsg ErrInvalidRequest ''model timeout must be positive'')
      else case rt_model runtime of
        timeoutModel inner old \<Rightarrow> Inr (runtime\<lparr>rt_model := timeoutModel inner timeout\<rparr>)
      | model \<Rightarrow> Inr (runtime\<lparr>rt_model := timeoutModel model timeout\<rparr>))"

definition WithToolTimeout :: "int \<Rightarrow> ('s, 'o) Option" where
  "WithToolTimeout timeout runtime =
     (if timeout \<le> 0 then Inl (errMsg ErrInvalidRequest ''tool timeout must be positive'')
      else case rt_tools runtime of
        None \<Rightarrow> Inr runtime
      | Some (timeoutToolExecutor inner old) \<Rightarrow>
          Inr (runtime\<lparr>rt_tools := Some (timeoutToolExecutor inner timeout)\<rparr>)
      | Some tools \<Rightarrow> Inr (runtime\<lparr>rt_tools := Some (timeoutToolExecutor tools timeout)\<rparr>))"

definition WithModelRetry :: "ModelRetryPolicy \<Rightarrow> ('s, 'o) Option" where
  "WithModelRetry policy runtime =
     (if mr_MaxRetries policy \<le> 0 then Inl (errMsg ErrInvalidRequest ''model max retries must be positive'')
      else if mr_Delay policy < 0 then Inl (errMsg ErrInvalidRequest ''model retry delay must not be negative'')
      else Inr (runtime\<lparr>rt_modelRetry := policy\<rparr>))"

section \<open>Ownership\<close>

record 's executionOwnership =
  ow_fencingToken :: uint64
  ow_release :: "'s release"

definition noop :: "'s executionOwnership" where
  "noop = \<lparr>ow_fencingToken = 0, ow_release = (\<lambda>c s. s)\<rparr>"

definition acquireExecutionOwnership ::
  "('s, 'o) session \<Rightarrow> string \<Rightarrow> bool \<Rightarrow> ('s, 'o) world \<Rightarrow> ('s, 'o) world \<times> (goerr + 's executionOwnership)" where
  "acquireExecutionOwnership X executionID required w =
     (let c = en_call (ss_env X) (w_tick w) in
      case rt_store (ss_rt X) of
        None \<Rightarrow>
          (w, if required then Inl (errMsg ErrRecoveryUnsupported ''checkpoint store is required'') else Inr noop)
      | Some st \<Rightarrow>
        (case st_AcquireExecutionLease st of
           Some acquire \<Rightarrow>
             if st_Fenced st = None
             then (w, Inl (errMsg ErrLeaseFencingUnsupported
                             ''store implements ExecutionLeaser without FencedCheckpointStore''))
             else (case acquire c executionID (w_store w) of
                 (s', Inl err) \<Rightarrow>
                   (passTime X (w\<lparr>w_store := s'\<rparr>),
                    Inl (Errorf [W (Sentinel ErrCheckpointStore), Lit '': lease execution '', Quoted executionID,
                                 Lit '': '', W err]))
               | (s', Inr (token, rel)) \<Rightarrow>
                   if token = 0 \<or> rel = None
                   then (passTime X (w\<lparr>w_store := (case rel of None \<Rightarrow> s' | Some r \<Rightarrow> r c s')\<rparr>),
                         Inl (Errorf [W (Sentinel ErrCheckpointStore), Lit '': lease execution '', Quoted executionID,
                                      Lit '' returned invalid ownership'']))
                   else (passTime X (w\<lparr>w_store := s'\<rparr>), Inr \<lparr>ow_fencingToken = token, ow_release = the rel\<rparr>))
         | None \<Rightarrow>
           (case st_LockExecution st of
              None \<Rightarrow>
                (w, if required
                    then Inl (errMsg ErrRecoveryUnsupported
                      ''store must implement ExecutionLeaser with FencedCheckpointStore or ExecutionLocker'')
                    else Inr noop)
            | Some lockExecution \<Rightarrow>
                (case lockExecution c executionID (w_store w) of
                   (s', Inl err) \<Rightarrow>
                     (passTime X (w\<lparr>w_store := s'\<rparr>),
                      Inl (Errorf [W (Sentinel ErrCheckpointStore), Lit '': lock execution '', Quoted executionID,
                                   Lit '': '', W err]))
                 | (s', Inr None) \<Rightarrow>
                     (passTime X (w\<lparr>w_store := s'\<rparr>),
                      Inl (errMsg ErrCheckpointStore ''execution lock returned no release function''))
                 | (s', Inr (Some rel)) \<Rightarrow>
                     (passTime X (w\<lparr>w_store := s'\<rparr>), Inr \<lparr>ow_fencingToken = 0, ow_release = rel\<rparr>)))))"

definition withExecutionFencingToken :: "uint64 \<Rightarrow> ('s, 'o) session \<Rightarrow> ('s, 'o) session" where
  "withExecutionFencingToken token X = (if token = 0 then X else X\<lparr>ss_token := token\<rparr>)"

definition startExecutionLeaseRenewal ::
  "('s, 'o) session \<Rightarrow> uint64 \<Rightarrow> 's \<Rightarrow> goerr + ('s, 'o) session" where
  "startExecutionLeaseRenewal X fencingToken s =
     (if fencingToken = 0 then Inr X
      else case rt_store (ss_rt X) of
        None \<Rightarrow> Inr X
      | Some st \<Rightarrow>
        (case st_Renewer st of
           None \<Rightarrow> Inr X
         | Some (renew, interval) \<Rightarrow>
             if interval s \<le> 0 then Inl (Errorf [W (Sentinel ErrInvalidLeaseRenewal), Lit '': '', Dur (interval s)])
             else Inr (X\<lparr>ss_renewing := True\<rparr>)))"

text \<open>The session before ownership: no token, no renewal.\<close>

definition ownSession :: "env \<Rightarrow> ('s, 'o) Runtime \<Rightarrow> string \<Rightarrow> ('s, 'o) session" where
  "ownSession E rt executionID =
     \<lparr>ss_env = E, ss_rt = rt, ss_id = executionID, ss_token = 0, ss_renewing = False\<rparr>"

text \<open>\<^verbatim>\<open>defer ownership.release()\<close>, after the renewal has stopped.\<close>

definition releaseOwnership ::
  "('s, 'o) session \<Rightarrow> 's executionOwnership \<Rightarrow> ('s, 'o) world \<Rightarrow> ('s, 'o) world" where
  "releaseOwnership X ownership w =
     passTime X (w\<lparr>w_store := ow_release ownership (en_call (ss_env X) (w_tick w)) (w_store w)\<rparr>)"

text \<open>Acquisition, the body under ownership, and the deferred calls, as \<^verbatim>\<open>Run\<close> and \<^verbatim>\<open>Resume\<close> share them.\<close>

definition underOwnership ::
  "('s, 'o) session \<Rightarrow> string \<Rightarrow> bool \<Rightarrow>
     (('s, 'o) session \<Rightarrow> ('s, 'o) world \<Rightarrow> ('s, 'o) world \<times> outcome) \<Rightarrow>
     ('s, 'o) world \<Rightarrow> ('s, 'o) world \<times> outcome" where
  "underOwnership X0 executionID required body w =
     (case acquireExecutionOwnership X0 executionID required w of
        (w1, Inl err) \<Rightarrow> (w1, Returned zeroResult (Some err))
      | (w1, Inr ownership) \<Rightarrow>
          (case startExecutionLeaseRenewal (withExecutionFencingToken (ow_fencingToken ownership) X0)
                  (ow_fencingToken ownership) (w_store w1) of
             Inl err \<Rightarrow> (releaseOwnership X0 ownership w1, Returned zeroResult (Some err))
           | Inr X \<Rightarrow> (case body X w1 of (w2, out) \<Rightarrow> (releaseOwnership X0 ownership w2, out))))"

section \<open>Run\<close>

definition initialCheckpoint :: "('s, 'o) Runtime \<Rightarrow> Request \<Rightarrow> Checkpoint" where
  "initialCheckpoint rt req =
     \<lparr>cp_SchemaVersion = CheckpointSchemaVersion, cp_Revision = 0, cp_ExecutionID = rq_ExecutionID req,
      cp_Request = req, cp_MaxSteps = rt_maxSteps rt, cp_ModelIterations = 0,
      cp_MaxModelRetries = mr_MaxRetries (rt_modelRetry rt), cp_ModelRetries = 0,
      cp_Result = (snapshot newExecution [] [])\<lparr>rs_ExecutionID := rq_ExecutionID req\<rparr>,
      cp_PendingTool = None, cp_Error = []\<rparr>"

text \<open>\<^verbatim>\<open>run\<close> on a plain world: its local variables are dropped at the end.\<close>

definition runWorld ::
  "('s, 'o) session \<Rightarrow> Checkpoint \<Rightarrow> bool \<Rightarrow> ('s, 'o) world \<Rightarrow> ('s, 'o) world \<times> outcome" where
  "runWorld X initial create w =
     (case run X initial create w of (s, out) \<Rightarrow> (world.truncate s, out))"

definition Run ::
  "env \<Rightarrow> ('s, 'o) Runtime \<Rightarrow> bool \<Rightarrow> Request \<Rightarrow> ('s, 'o) world \<Rightarrow> ('s, 'o) world \<times> outcome" where
  "Run E rt nilCtx req w =
     (if nilCtx then (w, Returned zeroResult (Some (errMsg ErrInvalidRequest ''context is required'')))
      else if rq_Prompt req = []
      then (w, Returned zeroResult (Some (errMsg ErrInvalidRequest ''prompt is required'')))
      else if rt_store rt \<noteq> None \<and> rq_ExecutionID req = []
      then (w, Returned zeroResult
              (Some (errMsg ErrInvalidRequest ''execution ID is required with a checkpoint store'')))
      else underOwnership (ownSession E rt (rq_ExecutionID req)) (rq_ExecutionID req) False
             (\<lambda>X. runWorld X (initialCheckpoint rt req) True) w)"

section \<open>A pending tool\<close>

text \<open>
  The three functions return the checkpoint to go on from, with an error or without; \<open>None\<close> stands for
  a panic of the callback.
\<close>

type_synonym ('s, 'o) resumption = "('s, 'o) world \<times> (Checkpoint \<times> goerr option) option"

definition completedCheckpoint :: "Checkpoint \<Rightarrow> ToolCall \<Rightarrow> string \<Rightarrow> Checkpoint" where
  "completedCheckpoint checkpoint call output =
     (cloneCheckpoint checkpoint)
       \<lparr>cp_Result := (cp_Result checkpoint)
          \<lparr>rs_Steps := cp_Steps checkpoint @ [completedStep (cp_Steps checkpoint) call output],
           rs_Transitions := cp_Transitions checkpoint @ [\<lparr>tn_From = StatusRunningTool, tn_To = StatusRunningModel\<rparr>],
           rs_Status := StatusRunningModel\<rparr>,
        cp_PendingTool := None\<rparr>"

definition completePendingTool ::
  "('s, 'o) session \<Rightarrow> 's CheckpointStore \<Rightarrow> Checkpoint \<Rightarrow> string \<Rightarrow> ('s, 'o) world \<Rightarrow> ('s, 'o) resumption" where
  "completePendingTool X st checkpoint output w =
     (case cp_PendingTool checkpoint of
        None \<Rightarrow> (w, Some (checkpoint, None))
      | Some call \<Rightarrow>
          (case writeCheckpoint X st (completedCheckpoint checkpoint call output) False w of
             (w', Some err) \<Rightarrow> (w', Some (checkpoint, Some err))
           | (w', None) \<Rightarrow> (w', Some (completedCheckpoint checkpoint call output, None))))"

definition outcomeUnknown :: "ToolCall \<Rightarrow> goerr" where
  "outcomeUnknown call = Errorf [W (Sentinel ErrToolOutcomeUnknown), Lit '': call '', Quoted (tc_ID call)]"

definition replayPendingTool ::
  "('s, 'o) session \<Rightarrow> 's CheckpointStore \<Rightarrow> Checkpoint \<Rightarrow> ('s, 'o) world \<Rightarrow> ('s, 'o) resumption" where
  "replayPendingTool X st checkpoint w =
     (case cp_PendingTool checkpoint of
        None \<Rightarrow> (w, Some (checkpoint, None))
      | Some call \<Rightarrow>
        (case rt_tools (ss_rt X) of
           None \<Rightarrow> (w, Some (checkpoint, Some (outcomeUnknown call)))
         | Some tools \<Rightarrow>
             if \<not> implementsReplay tools then (w, Some (checkpoint, Some (outcomeUnknown call)))
             else case Replay X tools call w of
               (w', None) \<Rightarrow> (w', None)
             | (w', Some (output, err)) \<Rightarrow>
                 (case executionContextErr w' of
                    Some ctxErr \<Rightarrow> (w', Some (checkpoint, Some ctxErr))
                  | None \<Rightarrow>
                    (case err of
                       Some e \<Rightarrow>
                         if errorsIs e errToolReplayUnsupported
                         then (w', Some (checkpoint, Some (outcomeUnknown call)))
                         else (w', Some (checkpoint, Some (Errorf [W (Sentinel ErrToolReplay), Lit '': call '',
                                                 Quoted (tc_ID call), Lit '': '', W e])))
                     | None \<Rightarrow> completePendingTool X st checkpoint output w'))))"

fun outcomeStateText :: "ToolOutcomeState \<Rightarrow> string" where
  "outcomeStateText ToolOutcomeUnknown = ''unknown''"
| "outcomeStateText ToolOutcomeCompleted = ''completed''"
| "outcomeStateText (ToolOutcomeOther s) = s"

definition reconcilePendingTool ::
  "('s, 'o) session \<Rightarrow> 's CheckpointStore \<Rightarrow> Checkpoint \<Rightarrow> ('s, 'o) world \<Rightarrow> ('s, 'o) resumption" where
  "reconcilePendingTool X st checkpoint w =
     (case cp_PendingTool checkpoint of
        None \<Rightarrow> (w, Some (checkpoint, None))
      | Some call \<Rightarrow>
        (case rt_tools (ss_rt X) of
           None \<Rightarrow> replayPendingTool X st checkpoint w
         | Some tools \<Rightarrow>
             if \<not> implementsReconcile tools then replayPendingTool X st checkpoint w
             else case ReconcileToolOutcome X tools call w of
               (w', None) \<Rightarrow> (w', None)
             | (w', Some (toolOutcome, err)) \<Rightarrow>
                 (case executionContextErr w' of
                    Some ctxErr \<Rightarrow> (w', Some (checkpoint, Some ctxErr))
                  | None \<Rightarrow>
                    (case err of
                       Some e \<Rightarrow> (w', Some (checkpoint, Some (Errorf [W (Sentinel ErrToolReconciliation),
                                             Lit '': call '', Quoted (tc_ID call), Lit '': '', W e])))
                     | None \<Rightarrow>
                       (case oc_State toolOutcome of
                          ToolOutcomeUnknown \<Rightarrow>
                            if oc_Output toolOutcome \<noteq> []
                            then (w', Some (checkpoint, Some (Errorf [W (Sentinel ErrToolReconciliation),
                                       Lit '': unknown call '', Quoted (tc_ID call), Lit '' returned output''])))
                            else replayPendingTool X st checkpoint w'
                        | ToolOutcomeCompleted \<Rightarrow>
                            completePendingTool X st checkpoint (oc_Output toolOutcome) w'
                        | ToolOutcomeOther s \<Rightarrow>
                            (w', Some (checkpoint, Some (Errorf [W (Sentinel ErrToolReconciliation), Lit '': call '',
                               Quoted (tc_ID call), Lit '' returned unknown state '', Quoted s]))))))))"

section \<open>Resume\<close>

definition loadExecution ::
  "('s, 'o) session \<Rightarrow> 's CheckpointStore \<Rightarrow> string \<Rightarrow> ('s, 'o) world \<Rightarrow> ('s, 'o) world \<times> (goerr + Checkpoint)" where
  "loadExecution X st executionID w =
     (let r = st_Load st (en_call (ss_env X) (w_tick w)) executionID (w_store w)
      in (passTime X (emit (Loaded executionID r) w), r))"

text \<open>What \<^verbatim>\<open>Resume\<close> does under ownership.\<close>

definition resumeBody ::
  "'s CheckpointStore \<Rightarrow> string \<Rightarrow> ('s, 'o) session \<Rightarrow> ('s, 'o) world \<Rightarrow> ('s, 'o) world \<times> outcome" where
  "resumeBody st executionID X w =
     (case loadExecution X st executionID w of
        (w1, Inl err) \<Rightarrow>
          (w1, Returned zeroResult (Some (case executionContextErr w1 of
                 Some ctxErr \<Rightarrow> ctxErr
               | None \<Rightarrow> Errorf [W (Sentinel ErrCheckpointStore), Lit '': load execution '', Quoted executionID,
                                  Lit '': '', W err])))
      | (w1, Inr loaded) \<Rightarrow>
        (case validateCheckpoint loaded of
           Some err \<Rightarrow> (w1, Returned zeroResult (Some err))
         | None \<Rightarrow>
           if cp_ExecutionID loaded \<noteq> executionID
           then (w1, Returned zeroResult (Some (errMsg ErrInvalidCheckpoint ''execution ID mismatch'')))
           else
             let checkpoint = cloneCheckpoint loaded in
             if cp_Status checkpoint = StatusCompleted then (w1, Returned (cp_Result checkpoint) None)
             else if cp_Status checkpoint = StatusFailed \<or> cp_Status checkpoint = StatusCancelled
             then (w1, Returned (cp_Result checkpoint)
                     (Some (Errorf [W (Sentinel ErrExecutionTerminal), Lit '': '', Str (statusText (cp_Status checkpoint)),
                                    Lit '': '', Str (cp_Error checkpoint)])))
             else if cp_SchemaVersion checkpoint < 2
             then (w1, Returned (cp_Result checkpoint)
                     (Some (Errorf [W (Sentinel ErrRecoveryUnsupported), Lit '': schema version '',
                                    Num (cp_SchemaVersion checkpoint),
                                    Lit '' lacks durable model-attempt reservations''])))
             else if cp_SchemaVersion checkpoint \<ge> 3 \<and> cp_MaxModelRetries checkpoint > 0 \<and>
                     mr_MaxRetries (rt_modelRetry (ss_rt X)) \<noteq> cp_MaxModelRetries checkpoint
             then (w1, Returned (cp_Result checkpoint)
                     (Some (Errorf [W (Sentinel ErrRecoveryUnsupported), Lit '': saved model retry budget is '',
                                    Num (cp_MaxModelRetries checkpoint), Lit '' but runtime configures '',
                                    Num (mr_MaxRetries (rt_modelRetry (ss_rt X)))])))
             else if cp_PendingTool checkpoint \<noteq> None
             then (case reconcilePendingTool X st checkpoint w1 of
                     (w2, None) \<Rightarrow> (w2, Panicked)
                   | (w2, Some (cp, Some err)) \<Rightarrow> (w2, Returned (cp_Result cp) (Some err))
                   | (w2, Some (cp, None)) \<Rightarrow> runWorld X cp False w2)
             else runWorld X checkpoint False w1))"

definition Resume ::
  "env \<Rightarrow> ('s, 'o) Runtime \<Rightarrow> bool \<Rightarrow> string \<Rightarrow> ('s, 'o) world \<Rightarrow> ('s, 'o) world \<times> outcome" where
  "Resume E rt nilCtx executionID w =
     (case rt_store rt of
        Some st \<Rightarrow>
          if nilCtx \<or> executionID = []
          then (w, Returned zeroResult (Some (errMsg ErrInvalidRequest
                     ''resume requires context, execution ID, and checkpoint store'')))
          else underOwnership (ownSession E rt executionID) executionID True (resumeBody st executionID) w
      | None \<Rightarrow>
          (w, Returned zeroResult (Some (errMsg ErrInvalidRequest
                ''resume requires context, execution ID, and checkpoint store''))))"

end
