(* ===== verification/Recovery.thy ===== *)
theory Recovery
  imports Runtime_API
begin

text \<open>
  Facts about the entry points: options keep runtimes well formed, ownership operations leave no
  trace in the history, completing a pending tool keeps checkpoints valid and advances them by one
  revision, and the paths of \<^verbatim>\<open>Resume\<close>.
\<close>

section \<open>Well-formed runtimes\<close>

definition wfRuntime :: "('s, 'o) Runtime \<Rightarrow> bool" where
  "wfRuntime rt \<longleftrightarrow> 0 < rt_maxSteps rt \<and> 0 \<le> mr_MaxRetries (rt_modelRetry rt) \<and> 0 \<le> mr_Delay (rt_modelRetry rt)"

text \<open>An option is proper when it keeps well-formed runtimes well formed.\<close>

definition properOption :: "('s, 'o) Option \<Rightarrow> bool" where
  "properOption option \<longleftrightarrow> (\<forall>rt rt'. wfRuntime rt \<longrightarrow> option rt = Inr rt' \<longrightarrow> wfRuntime rt')"

lemma library_options_proper:
  "properOption (WithMaxSteps n)" "properOption (WithCheckpointStore st)" "properOption (WithObserver ob)"
  "properOption (WithObservers obs)" "properOption (WithModelTimeout t)" "properOption (WithToolTimeout t)"
  "properOption (WithModelRetry p)"
  by (auto simp: properOption_def wfRuntime_def WithMaxSteps_def WithCheckpointStore_def WithObserver_def
      WithObservers_def WithModelTimeout_def WithToolTimeout_def WithModelRetry_def
      split: if_splits option.splits Model.splits ToolExecutor.splits)

text \<open>The options the library offers.\<close>

inductive libraryOption :: "('s, 'o) Option \<Rightarrow> bool" where
  "libraryOption (WithMaxSteps n)"
| "libraryOption (WithCheckpointStore st)"
| "libraryOption (WithObserver ob)"
| "libraryOption (WithObservers obs)"
| "libraryOption (WithModelTimeout t)"
| "libraryOption (WithToolTimeout t)"
| "libraryOption (WithModelRetry p)"

lemma libraryOption_proper: "libraryOption opt \<Longrightarrow> properOption opt"
  by (induction rule: libraryOption.induct) (rule library_options_proper)+

lemma applyOptions_wf:
  "(\<And>opt. Some opt \<in> set options \<Longrightarrow> properOption opt) \<Longrightarrow> wfRuntime rt \<Longrightarrow>
     applyOptions options rt = Inr rt' \<Longrightarrow> wfRuntime rt'"
proof (induction options rt rule: applyOptions.induct)
  case (3 opt options rt)
  obtain rt1 where o: "opt rt = Inr rt1" "applyOptions options rt1 = Inr rt'"
    using "3.prems"(3) by (auto split: sum.splits)
  then have "wfRuntime rt1" using "3.prems"(1) [of opt] "3.prems"(2) by (simp add: properOption_def)
  from "3.IH" [OF o(1) _ this o(2)] "3.prems"(1) show ?case by simp
qed auto

section \<open>Logs of the ownership operations\<close>

lemma passTime_quiet: "\<not> ss_renewing X \<Longrightarrow> w_log (passTime X w) = w_log w"
  by (simp add: passTime_def renewStep_def Let_def)

lemma releaseOwnership_log: "\<not> ss_renewing X \<Longrightarrow> w_log (releaseOwnership X ow w) = w_log w"
  by (simp add: releaseOwnership_def passTime_quiet)

lemma acquire_log: "\<not> ss_renewing X \<Longrightarrow> acquireExecutionOwnership X i req w = (w', r) \<Longrightarrow> w_log w' = w_log w"
  by (auto simp: acquireExecutionOwnership_def Let_def passTime_quiet split: option.splits prod.splits sum.splits if_splits)

lemma runWorld_log: "w_log (fst (runWorld X initial create w)) = w_log w @ history X initial create w"
  using run_log [of X initial create w] by (auto simp: runWorld_def world.truncate_def split: prod.splits)

lemma runWorld_outcome: "snd (runWorld X initial create w) = outcomeOf X initial create w"
  by (simp add: runWorld_def outcomeOf_def split: prod.splits)

lemma ownSession_simps [simp]:
  "ss_renewing (ownSession E rt i) = False" "ss_rt (ownSession E rt i) = rt" "ss_env (ownSession E rt i) = E"
  "ss_token (ownSession E rt i) = 0" "ss_id (ownSession E rt i) = i"
  by (simp_all add: ownSession_def)

text \<open>
  Every call under ownership either stops before its body, with nothing done, or consists of the
  body's effects in a session of the same runtime.
\<close>

lemma underOwnership_cases:
  assumes "\<not> ss_renewing X0" and "underOwnership X0 i req body w = (w', out)"
  obtains err where "out = Returned zeroResult (Some err)" "w_log w' = w_log w"
  | X w1 w2 where "ss_rt X = ss_rt X0" "ss_env X = ss_env X0" "ss_id X = ss_id X0" "w_log w1 = w_log w"
      "body X w1 = (w2, out)" "w_log w' = w_log w2"
proof -
  obtain w1 r where a: "acquireExecutionOwnership X0 i req w = (w1, r)" by (metis surj_pair)
  have l: "w_log w1 = w_log w" by (rule acquire_log [OF assms(1) a])
  show thesis
  proof (cases r)
    case (Inl err)
    with assms(2) a l that(1) show thesis by (auto simp: underOwnership_def)
  next
    case (Inr ow)
    let ?s = "startExecutionLeaseRenewal (withExecutionFencingToken (ow_fencingToken ow) X0) (ow_fencingToken ow) (w_store w1)"
    show thesis
    proof (cases ?s)
      case (Inl err)
      with assms a l Inr that(1) show thesis by (auto simp: underOwnership_def releaseOwnership_log)
    next
      case s: (Inr X)
      have "ss_rt X = ss_rt X0" "ss_env X = ss_env X0" "ss_id X = ss_id X0"
        using s by (auto simp: startExecutionLeaseRenewal_def withExecutionFencingToken_def
            split: if_splits option.splits prod.splits)
      moreover obtain w2 where "body X w1 = (w2, out)" "w' = releaseOwnership X0 ow w2"
        using assms(2) a Inr s by (auto simp: underOwnership_def split: prod.splits)
      ultimately show thesis using l assms(1) by (intro that(2) [of X w1 w2]) (simp_all add: releaseOwnership_log)
    qed
  qed
qed

section \<open>Run\<close>

lemma initial_admissible:
  "wfRuntime rt \<Longrightarrow> rq_Prompt req \<noteq> [] \<Longrightarrow> admissible (initialCheckpoint rt req) True"
  by (simp add: admissible_def runnable_def wfStructure_def initialCheckpoint_def wfRuntime_def snapshot_def
      newExecution_def cloneSteps_def CheckpointSchemaVersion_def wfRecovery_def wfSteps_def wfPending_def wfStatus_def)

section \<open>Completing a pending tool\<close>

text \<open>What \<^verbatim>\<open>Resume\<close> may start from: a valid checkpoint with durable reservations, before the end.\<close>

definition resumable :: "Checkpoint \<Rightarrow> bool" where
  "resumable cp \<longleftrightarrow> wfCheckpoint cp \<and> 2 \<le> cp_SchemaVersion cp \<and> \<not> terminal (cp_Status cp)"

lemma resumable_wf: "resumable cp \<Longrightarrow> wfStructure cp"
  using wfCheckpoint_wfStructure by (auto simp: resumable_def)

lemma resumable_pending:
  assumes "resumable cp"
  shows "cp_PendingTool cp \<noteq> None \<longleftrightarrow> cp_Status cp = StatusRunningTool"
proof -
  from resumable_wf [OF assms] have f: "followTransitions StatusCreated (cp_Transitions cp) = Some (cp_Status cp)"
    and st: "wfStatus cp" unfolding wfStructure_def wfRecovery_def by blast+
  show ?thesis
  proof (cases "cp_Status cp")
    case (StatusOther x)
    with f followTransitions_other show ?thesis by force
  qed (use st assms in \<open>auto simp: wfStatus_def resumable_def terminal_def\<close>)
qed

lemma resumable_runnable: "resumable cp \<Longrightarrow> cp_PendingTool cp = None \<Longrightarrow> runnable cp"
proof -
  assume r: "resumable cp" and p: "cp_PendingTool cp = None"
  from resumable_wf [OF r] have f: "followTransitions StatusCreated (cp_Transitions cp) = Some (cp_Status cp)"
    unfolding wfStructure_def by blast
  with r resumable_pending [OF r] p resumable_wf [OF r] show ?thesis
    by (cases "cp_Status cp") (auto simp: runnable_def resumable_def terminal_def dest: followTransitions_other)
qed

lemma completed_runnable:
  assumes r: "resumable cp" and p: "cp_PendingTool cp = Some call"
  shows "runnable (completedCheckpoint cp call out)"
proof -
  let ?cp = "completedCheckpoint cp call out"
  have st: "cp_Status cp = StatusRunningTool" using resumable_pending [OF r] p by simp
  have wf: "wfStructure cp" by (rule resumable_wf [OF r])
  then have f: "followTransitions StatusCreated (cp_Transitions cp) = Some StatusRunningTool"
    and re: "wfRecovery cp" using st unfolding wfStructure_def by simp_all
  from re p have s: "wfSteps (cp_Steps cp)" "validCall call" "tc_ID call \<notin> stepID ` set (cp_Steps cp)"
      "int (length (cp_Steps cp)) < cp_ModelIterations cp" "finished (cp_Transitions cp) = length (cp_Steps cp)"
      "started (cp_Transitions cp) = Suc (length (cp_Steps cp))" "wfStatus cp"
    unfolding wfRecovery_def wfPending_def by simp_all
  have "wfSteps (cp_Steps ?cp)"
    using s(1-3) by (auto simp: wfSteps_def completedCheckpoint_def completedStep_def nth_append less_Suc_eq)
  moreover have "wfStatus ?cp"
    using s(7) st by (auto simp: wfStatus_def completedCheckpoint_def)
  moreover have "finished (cp_Transitions ?cp) = length (cp_Steps ?cp)"
      "started (cp_Transitions ?cp) = length (cp_Steps ?cp)"
    using s(5,6) by (simp_all add: completedCheckpoint_def finishesTool_def startsTool_def)
  ultimately have "wfRecovery ?cp"
    using s(4) by (simp add: wfRecovery_def wfPending_def completedCheckpoint_def)
  with wf f show ?thesis
    by (simp add: runnable_def wfStructure_def completedCheckpoint_def)
qed

lemma completed_progress:
  assumes r: "resumable cp" and p: "cp_PendingTool cp = Some call"
  shows "progress (completedCheckpoint cp call out) = progress cp + 1"
proof -
  have st: "cp_Status cp = StatusRunningTool" using resumable_pending [OF r] p by simp
  have wf: "wfStructure cp" "wfStructure (completedCheckpoint cp call out)"
    using resumable_wf [OF r] completed_runnable [OF r p] by (simp_all add: runnable_def)
  show ?thesis
    unfolding wfStructure_progress [OF wf(1)] wfStructure_progress [OF wf(2)]
    using p st by (simp add: completedCheckpoint_def terminal_def)
qed

text \<open>The effects that reconciling and replaying the pending call may have.\<close>

fun pendingEffect :: "Checkpoint \<Rightarrow> ToolCall \<Rightarrow> effect \<Rightarrow> bool" where
  "pendingEffect cp call (Renewed tok r) = True"
| "pendingEffect cp call (ToolReconciled c) = (c = call)"
| "pendingEffect cp call (ToolReplayed c) = (c = call)"
| "pendingEffect cp call (Wrote create cp' tok r) =
     (\<not> create \<and> (\<exists>out. cp' = withRevision (completedCheckpoint cp call out)))"
| "pendingEffect cp call _ = False"

fun isReplay :: "effect \<Rightarrow> bool" where
  "isReplay (ToolReplayed c) = True"
| "isReplay _ = False"

fun isReconcile :: "effect \<Rightarrow> bool" where
  "isReconcile (ToolReconciled c) = True"
| "isReconcile _ = False"

definition pendingLog :: "Checkpoint \<Rightarrow> ToolCall \<Rightarrow> nat \<Rightarrow> nat \<Rightarrow> effect list \<Rightarrow> bool" where
  "pendingLog cp call reconciles replays es \<longleftrightarrow>
     list_all (pendingEffect cp call) es \<and> length (filter isReconcile es) \<le> reconciles \<and>
     length (filter isReplay es) \<le> replays"

lemma renewals_pendingLog: "list_all isRenewal es \<Longrightarrow> pendingLog cp call n m es"
proof (induction es)
  case (Cons e es)
  then show ?case by (cases e) (auto simp: pendingLog_def)
qed (simp add: pendingLog_def)

lemma pendingLog_append:
  "pendingLog cp call n m es \<Longrightarrow> pendingLog cp call n' m' fs \<Longrightarrow> pendingLog cp call (n + n') (m + m') (es @ fs)"
  by (auto simp: pendingLog_def)

lemma Replay_log:
  "Replay X tools call w = (w', r) \<Longrightarrow> \<exists>es. w_log w' = w_log w @ es \<and> pendingLog cp call 0 1 es"
proof (induction X tools call w arbitrary: w' r rule: Replay.induct)
  case (1 X ops call w)
  show ?case
  proof (cases "to_Replay ops")
    case None
    with 1 show ?thesis by (auto simp: pendingLog_def)
  next
    case (Some f)
    obtain rs where "w_log (passTime X (emit (ToolReplayed call) w)) = (w_log w @ [ToolReplayed call]) @ rs"
        "list_all isRenewal rs"
      using passTime_log [of X "emit (ToolReplayed call) w"] by auto
    moreover have "pendingLog cp call 0 1 ([ToolReplayed call] @ rs)"
      using pendingLog_append [of cp call 0 1 "[ToolReplayed call]" 0 0 rs] renewals_pendingLog [OF calculation(2), of cp call 0 0]
      by (simp add: pendingLog_def)
    ultimately show ?thesis using 1 Some by auto
  qed
next
  case (2 X inner timeout call w)
  then show ?case
    by (fastforce simp: executeWithTimeout_def pendingLog_def split: if_splits prod.splits option.splits)
qed

lemma Reconcile_log:
  "ReconcileToolOutcome X tools call w = (w', r) \<Longrightarrow> \<exists>es. w_log w' = w_log w @ es \<and> pendingLog cp call 1 0 es"
proof (induction X tools call w arbitrary: w' r rule: ReconcileToolOutcome.induct)
  case (1 X ops call w)
  show ?case
  proof (cases "to_ReconcileToolOutcome ops")
    case None
    with 1 show ?thesis by (auto simp: pendingLog_def)
  next
    case (Some f)
    obtain rs where "w_log (passTime X (emit (ToolReconciled call) w)) = (w_log w @ [ToolReconciled call]) @ rs"
        "list_all isRenewal rs"
      using passTime_log [of X "emit (ToolReconciled call) w"] by auto
    moreover have "pendingLog cp call 1 0 ([ToolReconciled call] @ rs)"
      using pendingLog_append [of cp call 1 0 "[ToolReconciled call]" 0 0 rs] renewals_pendingLog [OF calculation(2), of cp call 0 0]
      by (simp add: pendingLog_def)
    ultimately show ?thesis using 1 Some by auto
  qed
next
  case (2 X inner timeout call w)
  then show ?case by (auto simp: pendingLog_def split: if_splits)
qed

text \<open>
  How the three functions end: with the checkpoint untouched and an error, or with the completed
  checkpoint after the store has acknowledged it, or with a panic of a callback.
\<close>

definition resumesTo :: "Checkpoint \<Rightarrow> ToolCall \<Rightarrow> effect list \<Rightarrow> (Checkpoint \<times> goerr option) option \<Rightarrow> bool" where
  "resumesTo cp call es r \<longleftrightarrow>
     (case r of
        None \<Rightarrow> True
      | Some (cp', Some e) \<Rightarrow> cp' = cp
      | Some (cp', None) \<Rightarrow>
          (\<exists>out tok. cp' = completedCheckpoint cp call out \<and> Wrote False (withRevision cp') tok None \<in> set es))"

lemma resumesTo_append: "resumesTo cp call fs r \<Longrightarrow> resumesTo cp call (es @ fs) r"
  by (auto simp: resumesTo_def split: option.splits)

lemma completePendingTool_log:
  assumes "cp_PendingTool cp = Some call" and "completePendingTool X st cp out w = (w', r)"
  shows "\<exists>es. w_log w' = w_log w @ es \<and> pendingLog cp call 0 0 es \<and> resumesTo cp call es r"
proof -
  let ?cp = "completedCheckpoint cp call out"
  obtain w1 e where wc: "writeCheckpoint X st ?cp False w = (w1, e)" by (metis surj_pair)
  with assms have r: "w' = w1" "r = Some (case e of None \<Rightarrow> (?cp, None) | Some x \<Rightarrow> (cp, Some x))"
    by (auto simp: completePendingTool_def split: option.splits)
  from writeCheckpoint_log [OF wc] show ?thesis
  proof (elim disjE exE conjE)
    assume "w1 = w" "e \<noteq> None"
    with r show ?thesis by (auto simp: pendingLog_def resumesTo_def)
  next
    fix r0 rs
    assume l: "w_log w1 = w_log w @ Wrote False (withRevision ?cp) (ss_token X) r0 # rs" and rs: "list_all isRenewal rs"
      and e: "(e = None) = (r0 = None)"
    have "pendingLog cp call 0 0 (Wrote False (withRevision ?cp) (ss_token X) r0 # rs)"
      using renewals_pendingLog [OF rs, of cp call 0 0] by (auto simp: pendingLog_def)
    moreover have "resumesTo cp call (Wrote False (withRevision ?cp) (ss_token X) r0 # rs) r"
      using r e by (auto simp: resumesTo_def split: option.splits)
    ultimately show ?thesis using l r(1) by blast
  qed
qed

lemma replayPendingTool_log:
  assumes p: "cp_PendingTool cp = Some call" and rp: "replayPendingTool X st cp w = (w', r)"
  shows "\<exists>es. w_log w' = w_log w @ es \<and> pendingLog cp call 0 1 es \<and> resumesTo cp call es r"
proof (cases "\<exists>tools. rt_tools (ss_rt X) = Some tools \<and> implementsReplay tools")
  case False
  with assms have "w' = w" "r = Some (cp, Some (outcomeUnknown call))"
    by (auto simp: replayPendingTool_def split: option.splits)
  then show ?thesis by (auto simp: pendingLog_def resumesTo_def)
next
  case True
  then obtain tools where t: "rt_tools (ss_rt X) = Some tools" "implementsReplay tools" by blast
  obtain w1 r1 where re: "Replay X tools call w = (w1, r1)" by (metis surj_pair)
  obtain es where es: "w_log w1 = w_log w @ es" "pendingLog cp call 0 1 es" using Replay_log [OF re] by blast
  show ?thesis
  proof (cases "\<exists>out. r1 = Some (out, None) \<and> executionContextErr w1 = None")
    case True
    then obtain out where "r1 = Some (out, None)" "executionContextErr w1 = None" by blast
    with assms t re have "completePendingTool X st cp out w1 = (w', r)" by (simp add: replayPendingTool_def)
    from completePendingTool_log [OF p this] obtain fs where fs: "w_log w' = w_log w1 @ fs"
        "pendingLog cp call 0 0 fs" "resumesTo cp call fs r" by blast
    with es pendingLog_append [OF es(2) fs(2)] show ?thesis
      by (intro exI [of _ "es @ fs"]) (simp add: resumesTo_append)
  next
    case False
    with assms t re have "w' = w1" "resumesTo cp call es r"
      by (auto simp: replayPendingTool_def resumesTo_def split: option.splits prod.splits if_splits)
    with es show ?thesis by blast
  qed
qed

lemma reconcilePendingTool_log:
  assumes p: "cp_PendingTool cp = Some call" and rp: "reconcilePendingTool X st cp w = (w', r)"
  shows "\<exists>es. w_log w' = w_log w @ es \<and> pendingLog cp call 1 1 es \<and> resumesTo cp call es r"
proof (cases "\<exists>tools. rt_tools (ss_rt X) = Some tools \<and> implementsReconcile tools")
  case False
  with assms have "replayPendingTool X st cp w = (w', r)"
    by (auto simp: reconcilePendingTool_def split: option.splits)
  from replayPendingTool_log [OF p this] show ?thesis by (auto simp: pendingLog_def)
next
  case True
  then obtain tools where t: "rt_tools (ss_rt X) = Some tools" "implementsReconcile tools" by blast
  obtain w1 r1 where re: "ReconcileToolOutcome X tools call w = (w1, r1)" by (metis surj_pair)
  obtain es where es: "w_log w1 = w_log w @ es" "pendingLog cp call 1 0 es" using Reconcile_log [OF re] by blast
  consider (complete) out where "completePendingTool X st cp out w1 = (w', r)"
    | (replay) "replayPendingTool X st cp w1 = (w', r)"
    | (stop) "w' = w1" "resumesTo cp call es r"
    using assms t re
    by (auto simp: reconcilePendingTool_def resumesTo_def split: option.splits prod.splits if_splits ToolOutcomeState.splits)
  then obtain fs where "w_log w' = w_log w1 @ fs" "pendingLog cp call 0 1 fs" "resumesTo cp call (es @ fs) r"
  proof cases
    case (complete out)
    from completePendingTool_log [OF p this] that show ?thesis by (auto simp: pendingLog_def resumesTo_append)
  next
    case replay
    from replayPendingTool_log [OF p this] that show ?thesis by (auto simp: resumesTo_append)
  next
    case stop
    with that [of "[]"] show ?thesis by (simp add: pendingLog_def)
  qed
  with es pendingLog_append [OF es(2), of 0 1 fs] show ?thesis by (intro exI [of _ "es @ fs"]) simp
qed

section \<open>Resume\<close>

lemma loadExecution_log:
  assumes "loadExecution X st i w = (w', r)"
  shows "\<exists>rs. w_log w' = w_log w @ Loaded i r # rs \<and> list_all isRenewal rs"
proof -
  from assms have r: "w' = passTime X (emit (Loaded i r) w)" by (auto simp: loadExecution_def Let_def)
  from passTime_log [of X "emit (Loaded i r) w"] show ?thesis by (auto simp: r)
qed

text \<open>
  The paths of \<^verbatim>\<open>Resume\<close>: it stops after loading, it stops while dealing with the pending tool, or it
  goes on with \<^verbatim>\<open>run\<close> from the loaded or from the completed checkpoint.
\<close>

lemma resumeBody_cases [consumes 1, case_names stops pendingStops runs completesRuns]:
  assumes "resumeBody st i X w = (w', out)"
  obtains r rs where "w_log w' = w_log w @ Loaded i r # rs" "list_all isRenewal rs"
      "case out of Panicked \<Rightarrow> False | Returned res err \<Rightarrow>
         (\<exists>cp. r = Inr cp \<and> wfCheckpoint cp \<and> cp_ExecutionID cp = i \<and> cp_Status cp = StatusCompleted \<and>
            res = cp_Result cp \<and> err = None) \<or>
         (err \<noteq> None \<and> (\<forall>cp. r = Inr cp \<longrightarrow> wfCheckpoint cp \<longrightarrow> cp_ExecutionID cp = i \<longrightarrow>
            cp_Status cp \<noteq> StatusCompleted \<and> res = cp_Result cp))"
  | cp call rs es where "w_log w' = w_log w @ Loaded i (Inr cp) # rs @ es" "list_all isRenewal rs" "resumable cp"
      "cp_ExecutionID cp = i" "cp_PendingTool cp = Some call" "pendingLog cp call 1 1 es"
      "case out of Panicked \<Rightarrow> True | Returned res err \<Rightarrow> res = cp_Result cp \<and> err \<noteq> None"
  | cp rs w1 where "w_log w' = w_log w @ Loaded i (Inr cp) # rs @ history X cp False w1" "list_all isRenewal rs"
      "resumable cp" "cp_ExecutionID cp = i" "cp_PendingTool cp = None" "out = outcomeOf X cp False w1"
  | cp call rs es cp' w1 where "w_log w' = w_log w @ Loaded i (Inr cp) # rs @ es @ history X cp' False w1"
      "list_all isRenewal rs" "resumable cp" "cp_ExecutionID cp = i" "cp_PendingTool cp = Some call"
      "pendingLog cp call 1 1 es" "resumesTo cp call es (Some (cp', None))" "out = outcomeOf X cp' False w1"
proof -
  obtain w1 r where ld: "loadExecution X st i w = (w1, r)" by (metis surj_pair)
  obtain rs where rs: "w_log w1 = w_log w @ Loaded i r # rs" "list_all isRenewal rs"
    using loadExecution_log [OF ld] by blast
  show thesis
  proof (cases "\<exists>cp. r = Inr cp \<and> resumable cp \<and> cp_ExecutionID cp = i \<and>
      \<not> (cp_SchemaVersion cp \<ge> 3 \<and> cp_MaxModelRetries cp > 0 \<and>
         mr_MaxRetries (rt_modelRetry (ss_rt X)) \<noteq> cp_MaxModelRetries cp)")
    case False
    have "w' = w1 \<and> (case out of Panicked \<Rightarrow> False | Returned res err \<Rightarrow>
         (\<exists>cp. r = Inr cp \<and> wfCheckpoint cp \<and> cp_ExecutionID cp = i \<and> cp_Status cp = StatusCompleted \<and>
            res = cp_Result cp \<and> err = None) \<or>
         (err \<noteq> None \<and> (\<forall>cp. r = Inr cp \<longrightarrow> wfCheckpoint cp \<longrightarrow> cp_ExecutionID cp = i \<longrightarrow>
            cp_Status cp \<noteq> StatusCompleted \<and> res = cp_Result cp)))"
      using assms ld False
      by (auto simp: resumeBody_def Let_def resumable_def terminal_def validateCheckpoint_iff [symmetric]
          split: sum.splits option.splits if_splits)
    with rs that(1) show thesis by blast
  next
    case True
    then obtain cp where cp: "r = Inr cp" "resumable cp" "cp_ExecutionID cp = i"
        "\<not> (cp_SchemaVersion cp \<ge> 3 \<and> cp_MaxModelRetries cp > 0 \<and>
         mr_MaxRetries (rt_modelRetry (ss_rt X)) \<noteq> cp_MaxModelRetries cp)" by blast
    then have v: "validateCheckpoint cp = None" "\<not> terminal (cp_Status cp)" "\<not> cp_SchemaVersion cp < 2"
      by (auto simp: resumable_def validateCheckpoint_iff)
    have body: "(w', out) = (if cp_PendingTool cp \<noteq> None
             then (case reconcilePendingTool X st cp w1 of
                     (w2, None) \<Rightarrow> (w2, Panicked)
                   | (w2, Some (cp', Some err)) \<Rightarrow> (w2, Returned (cp_Result cp') (Some err))
                   | (w2, Some (cp', None)) \<Rightarrow> runWorld X cp' False w2)
             else runWorld X cp False w1)"
      using assms ld cp(1,3,4) v by (auto simp: resumeBody_def Let_def terminal_def split: if_split_asm)
    show thesis
    proof (cases "cp_PendingTool cp")
      case None
      with body have "runWorld X cp False w1 = (w', out)" by simp
      then have "w_log w' = w_log w1 @ history X cp False w1" "out = outcomeOf X cp False w1"
        using runWorld_log [of X cp False w1] runWorld_outcome [of X cp False w1] by simp_all
      with rs cp None show thesis by (intro that(3) [of cp rs w1]) simp_all
    next
      case (Some call)
      obtain w2 q where rc: "reconcilePendingTool X st cp w1 = (w2, q)" by (metis surj_pair)
      obtain es where es: "w_log w2 = w_log w1 @ es" "pendingLog cp call 1 1 es" "resumesTo cp call es q"
        using reconcilePendingTool_log [OF Some rc] by blast
      show thesis
      proof (cases "\<exists>cp'. q = Some (cp', None)")
        case True
        then obtain cp' where q: "q = Some (cp', None)" by blast
        with body rc Some have "runWorld X cp' False w2 = (w', out)" by simp
        then have "w_log w' = w_log w2 @ history X cp' False w2" "out = outcomeOf X cp' False w2"
          using runWorld_log [of X cp' False w2] runWorld_outcome [of X cp' False w2] by simp_all
        with rs cp Some es q show thesis by (intro that(4) [of cp rs es cp' w2 call]) simp_all
      next
        case False
        with body rc Some es(3) have "w' = w2"
            "case out of Panicked \<Rightarrow> True | Returned res err \<Rightarrow> res = cp_Result cp \<and> err \<noteq> None"
          by (auto simp: resumesTo_def split: option.splits)
        with rs cp Some es show thesis by (intro that(2) [of cp rs es call]) simp_all
      qed
    qed
  qed
qed

text \<open>Histories of \<^verbatim>\<open>run\<close> contain no loads, reconciliations or replays.\<close>

fun plain :: "effect \<Rightarrow> bool" where
  "plain (Loaded i r) = False"
| "plain (ToolReconciled c) = False"
| "plain (ToolReplayed c) = False"
| "plain _ = True"

lemma follow_plain: "follow st es = Some r \<Longrightarrow> list_all plain es"
proof (induction es arbitrary: st)
  case (Cons e es)
  obtain p saved where "st = (p, saved)" by (cases st)
  with Cons show ?case by (cases e) (auto split: option.splits)
qed simp

lemma history_plain:
  assumes "admissible cp create" and "rt_store (ss_rt X) \<noteq> None"
  shows "list_all plain (history X cp create w)"
  using run_reaches_durably [OF assms, of w] follow_plain by metis

lemma renewals_facts:
  assumes "list_all isRenewal es"
  shows "executedIDs es = []" "filter isReplay es = []" "acked es = []" "filter isCallback es = []"
    "Loaded i r \<notin> set es" "ToolReplayed c \<notin> set es" "\<not> list_ex isWrite es"
  using assms
proof (induction es)
  case (Cons e es)
  { case 1 with Cons show ?case by (cases e) auto }
  { case 2 with Cons show ?case by (cases e) auto }
  { case 3 with Cons show ?case by (cases e) auto }
  { case 4 with Cons show ?case by (cases e) auto }
  { case 5 with Cons show ?case by (cases e) auto }
  { case 6 with Cons show ?case by (cases e) auto }
  { case 7 with Cons show ?case by (cases e) auto }
qed simp_all

lemma pendingLog_facts:
  assumes "pendingLog cp call n m es"
  shows "executedIDs es = []" "filter isCallback es = []" "length (filter isReplay es) \<le> m"
    "Loaded i r \<notin> set es" "ToolReplayed c \<in> set es \<Longrightarrow> c = call"
proof -
  from assms have a: "list_all (pendingEffect cp call) es" and m: "length (filter isReplay es) \<le> m"
    by (auto simp: pendingLog_def)
  show "length (filter isReplay es) \<le> m" by (rule m)
  from a show "executedIDs es = []"
  proof (induction es)
    case (Cons e es)
    then show ?case by (cases e) auto
  qed simp
  from a show "filter isCallback es = []"
  proof (induction es)
    case (Cons e es)
    then show ?case by (cases e) auto
  qed simp
  from a show "Loaded i r \<notin> set es" "ToolReplayed c \<in> set es \<Longrightarrow> c = call"
    by (auto simp: list_all_iff)
qed

lemma plain_facts:
  assumes "list_all plain es"
  shows "filter isReplay es = []" "Loaded i r \<notin> set es" "ToolReplayed c \<notin> set es"
proof -
  from assms show "filter isReplay es = []"
  proof (induction es)
    case (Cons e es)
    then show ?case by (cases e) auto
  qed simp
  from assms show "Loaded i r \<notin> set es" "ToolReplayed c \<notin> set es" by (auto simp: list_all_iff)
qed

definition pendingIDs :: "Checkpoint \<Rightarrow> string set" where
  "pendingIDs cp = (case cp_PendingTool cp of None \<Rightarrow> {} | Some call \<Rightarrow> {tc_ID call})"

lemma Resume_cases:
  assumes "Resume E rt nilCtx i w = (w', out)"
  obtains err where "out = Returned zeroResult (Some err)" "w_log w' = w_log w"
  | st X w1 w2 where "rt_store rt = Some st" "ss_rt X = rt" "ss_env X = E" "ss_id X = i" "w_log w1 = w_log w"
      "resumeBody st i X w1 = (w2, out)" "w_log w' = w_log w2"
proof (cases "rt_store rt")
  case None
  with assms that(1) show thesis by (auto simp: Resume_def)
next
  case (Some st)
  show thesis
  proof (cases "nilCtx \<or> i = []")
    case True
    with assms Some that(1) show thesis by (auto simp: Resume_def)
  next
    case False
    with assms Some have u: "underOwnership (ownSession E rt i) i True (resumeBody st i) w = (w', out)"
      by (simp add: Resume_def)
    have nr: "\<not> ss_renewing (ownSession E rt i)" by simp
    from nr u show thesis
    proof (cases rule: underOwnership_cases)
      case (1 err)
      then show thesis by (rule that(1))
    next
      case (2 X w1 w2)
      with Some show thesis by (intro that(2) [of st X w1 w2]) simp_all
    qed
  qed
qed

lemma completed_admissible: "resumable cp \<Longrightarrow> cp_PendingTool cp = Some call \<Longrightarrow> admissible (completedCheckpoint cp call out) False"
  by (simp add: admissible_def completed_runnable)

lemma resumable_admissible: "resumable cp \<Longrightarrow> cp_PendingTool cp = None \<Longrightarrow> admissible cp False"
  by (simp add: admissible_def resumable_runnable)

lemma prefix_before_callback:
  assumes "es @ e # fs = ps @ hs" and "isCallback e" and "filter isCallback ps = []"
  shows "set ps \<subseteq> set es"
proof -
  have "length ps \<le> length es"
  proof (rule ccontr)
    assume "\<not> length ps \<le> length es"
    then have "ps ! length es = e" "length es < length ps"
      using assms(1) by (metis nth_append nth_append_length not_le)+
    then have "e \<in> set ps" by (metis nth_mem)
    with assms(2,3) show False by (auto simp: filter_empty_conv)
  qed
  then obtain us where "es = ps @ us"
    using assms(1) by (auto simp: append_eq_append_conv2)
  then show ?thesis by simp
qed

text \<open>The effects of \<^verbatim>\<open>Resume\<close> relative to the checkpoint it loaded.\<close>

definition repeatsNoTool :: "Checkpoint \<Rightarrow> effect list \<Rightarrow> bool" where
  "repeatsNoTool cp es \<longleftrightarrow>
     distinct (executedIDs es) \<and>
     set (executedIDs es) \<inter> (stepID ` set (cp_Steps cp) \<union> pendingIDs cp) = {} \<and>
     length (filter isReplay es) \<le> 1 \<and> (\<forall>c. ToolReplayed c \<in> set es \<longrightarrow> cp_PendingTool cp = Some c)"

end
