(* ===== verification/Json_Text.thy ===== *)
theory Json_Text
  imports Prelude
begin

text \<open>
  JSON text as \<^verbatim>\<open>encoding/json\<close> writes and reads it. The encoder escapes control characters, quotes, the
  characters HTML is sensitive to and the two line separators, and replaces a byte that is not part of a
  valid UTF-8 sequence by U+FFFD. The decoder is the package's scanner: a lexer and a machine with a stack
  of open arrays and objects, whose depth is limited.
\<close>

section \<open>Documents\<close>

datatype json =
    JNull
  | JBool bool
  | JNum int            \<comment> \<open>a number written as an integer\<close>
  | JFrac string        \<comment> \<open>any other number\<close>
  | JStr string
  | JArr "json list"
  | JObj "(string \<times> json) list"

datatype document = Doc json | Malformed

section \<open>Strings\<close>

definition replacementRune :: string where
  "replacementRune = [CHR 0xEF, CHR 0xBF, CHR 0xBD]"

function coerceUTF8 :: "string \<Rightarrow> string" where
  "coerceUTF8 s =
     (case s of
        [] \<Rightarrow> []
      | c # t \<Rightarrow>
        (case decodeRune s of
           None \<Rightarrow> replacementRune @ coerceUTF8 t
         | Some (r, w) \<Rightarrow> take w s @ coerceUTF8 (drop w s)))"
  by pat_completeness auto
termination
  by (relation "measure length") (auto dest!: decodeRune_width)

declare coerceUTF8.simps [simp del]

lemma coerceUTF8_Nil [simp]: "coerceUTF8 [] = []"
  by (simp add: coerceUTF8.simps)

lemma decodeRune_agree:
  assumes "decodeRune (c # t) = Some (r, w)" and "take (w - 1) u = take (w - 1) t" and "w - 1 \<le> length u"
  shows "decodeRune (c # u) = Some (r, w)"
proof -
  have w: "w = runeWidth (byte c)" using assms(1) by (auto simp: decodeRune_def Let_def split: if_splits prod.splits)
  have tails: "take (w - 2) (drop 1 u) = take (w - 2) (drop 1 t)"
    using arg_cong [OF assms(2), of "drop 1"] by (simp add: drop_take numeral_2_eq_2)
  have head: "u ! 0 = t ! 0" if "w \<noteq> 1" "w \<noteq> 0"
    using arg_cong [OF assms(2), of "\<lambda>l. l ! 0"] that by simp
  show ?thesis
    using assms tails head w
    by (auto simp: decodeRune_def Let_def simp del: One_nat_def split: if_splits prod.splits)
qed

lemma decodeRune_prefix:
  assumes "decodeRune s = Some (r, w)"
  shows "decodeRune (take w s @ t) = Some (r, w)"
proof -
  obtain c u where s: "s = c # u" using assms by (cases s) (auto simp: decodeRune_def)
  obtain v where w: "w = Suc v" "v \<le> length u" using decodeRune_width [OF assms] s by (cases w) auto
  from decodeRune_agree [of c u r w "take v u @ t"] assms s w show ?thesis by simp
qed

lemma coerceUTF8_valid: "validString s \<Longrightarrow> coerceUTF8 s = s"
proof (induction s rule: validString.induct)
  case (1 s)
  show ?case
  proof (cases s)
    case (Cons c t)
    with "1.prems" obtain r w where "decodeRune s = Some (r, w)" "validString (drop w s)"
      by (subst (asm) validString.simps) (auto split: option.splits)
    with "1.IH" Cons show ?thesis by (subst coerceUTF8.simps) auto
  qed simp
qed

lemma coerceUTF8_is_valid: "validString (coerceUTF8 s)"
proof (induction s rule: coerceUTF8.induct)
  case (1 s)
  have rep: "decodeRune (replacementRune @ t) = Some (0xFFFD, 3)" for t
    by (simp add: decodeRune_def replacementRune_def runeWidth_def secondRange_def contByte_def Let_def)
  show ?case
  proof (cases s)
    case (Cons c t)
    show ?thesis
    proof (cases "decodeRune s")
      case None
      with "1.IH"(1) [OF Cons None] Cons have "coerceUTF8 s = replacementRune @ coerceUTF8 t"
        by (subst coerceUTF8.simps) simp
      with "1.IH"(1) [OF Cons None] show ?thesis
        by (subst validString.simps) (simp add: rep, simp add: replacementRune_def)
    next
      case (Some rw)
      obtain r w where rw: "rw = (r, w)" by force
      with Some Cons have e: "coerceUTF8 s = take w s @ coerceUTF8 (drop w s)"
        by (subst coerceUTF8.simps) simp
      have w: "0 < w" "w \<le> length s" using decodeRune_width Some rw by auto
      show ?thesis
        unfolding e using "1.IH"(2) [OF Cons Some rw [symmetric]] decodeRune_prefix Some rw w
        by (subst validString.simps) auto
    qed
  qed simp
qed

text \<open>A string survives the encoder exactly when it is valid UTF-8.\<close>

lemma coerceUTF8_iff: "coerceUTF8 s = s \<longleftrightarrow> validString s"
  using coerceUTF8_valid coerceUTF8_is_valid by metis

text \<open>\<^verbatim>\<open>utf8.EncodeRune\<close>\<close>

definition encodeRune :: "nat \<Rightarrow> string" where
  "encodeRune r = map char_of
     (if r < 0x80 then [r]
      else if r < 0x800 then [0xC0 + r div 64, 0x80 + r mod 64]
      else if r < 0x10000 then [0xE0 + r div 4096, 0x80 + r div 64 mod 64, 0x80 + r mod 64]
      else [0xF0 + r div 262144, 0x80 + r div 4096 mod 64, 0x80 + r div 64 mod 64, 0x80 + r mod 64])"

lemma rune_digits:
  fixes b :: nat
  assumes "0x80 \<le> b" "b \<le> 0xBF"
  shows "(q * 64 + (b - 0x80)) div 64 = q" "0x80 + (q * 64 + (b - 0x80)) mod 64 = b"
proof -
  obtain k where "b = 0x80 + k" "k < 64" using assms le_Suc_ex [of "0x80" b] by auto
  then show "(q * 64 + (b - 0x80)) div 64 = q" "0x80 + (q * 64 + (b - 0x80)) mod 64 = b" by simp_all
qed

lemma decodeRune_encodeRune:
  assumes "decodeRune s = Some (r, w)"
  shows "take w s = encodeRune r"
proof -
  obtain c t where s: "s = c # t" using assms by (cases s) (auto simp: decodeRune_def)
  define lead where "lead = (if w = 2 then 0xC0 else if w = 3 then 0xE0 else 0xF0 :: nat)"
  from assms s have w: "w = runeWidth (byte c)" "w \<noteq> 0" "w - 1 \<le> length t"
    by (auto simp: decodeRune_def Let_def Suc_le_eq split: if_splits prod.splits)
  have tail: "contByte (fst (secondRange (byte c))) (snd (secondRange (byte c))) (t ! 0)"
      "list_all (contByte 0x80 0xBF) (take (w - 2) (drop 1 t))"
      "r = foldl (\<lambda>r c. r * 64 + (byte c - 0x80)) (byte c - lead) (take (w - 1) t)" if "w \<noteq> 1"
    using assms s that by (auto simp: decodeRune_def Let_def lead_def split: if_splits prod.splits)
  have second: "0x80 \<le> byte (t ! 0) \<and> byte (t ! 0) \<le> 0xBF \<and> (byte c = 0xE0 \<longrightarrow> 0xA0 \<le> byte (t ! 0)) \<and>
      (byte c = 0xF0 \<longrightarrow> 0x90 \<le> byte (t ! 0))" if "w \<noteq> 1"
    using tail(1) [OF that] by (auto simp: contByte_def secondRange_def split: if_splits)
  consider "w = 1" "byte c < 0x80" | "w = 2" "0xC2 \<le> byte c" "byte c < 0xE0" | "w = 3" "0xE0 \<le> byte c" "byte c < 0xF0"
    | "w = 4" "0xF0 \<le> byte c" "byte c < 0xF5"
    using w(1,2) by (auto simp: runeWidth_def split: if_splits)
  then show ?thesis
  proof cases
    case 1
    with assms s show ?thesis by (auto simp: decodeRune_def runeWidth_def encodeRune_def Let_def split: prod.splits)
  next
    case 2
    then obtain x u where t: "t = x # u" using w(3) by (cases t) auto
    have r: "r = (byte c - 0xC0) * 64 + (byte x - 0x80)" using tail(3) 2 t by (simp add: lead_def)
    have x: "0x80 \<le> byte x" "byte x \<le> 0xBF" using second 2 t by auto
    have "r div 64 = byte c - 0xC0" "0x80 + r mod 64 = byte x" unfolding r by (rule rune_digits [OF x])+
    moreover have "0x80 \<le> r" "r < 0x800" using 2 x r by arith+
    ultimately show ?thesis using 2 s t by (simp add: encodeRune_def)
  next
    case 3
    then obtain x y u where t: "t = x # y # u" using w(3) by (cases t; cases "tl t") auto
    have r: "r = ((byte c - 0xE0) * 64 + (byte x - 0x80)) * 64 + (byte y - 0x80)"
      using tail(3) 3 t by (simp add: lead_def numeral_2_eq_2)
    have x: "0x80 \<le> byte x" "byte x \<le> 0xBF" using second 3 t by auto
    have y: "0x80 \<le> byte y" "byte y \<le> 0xBF" using tail(2) 3 t by (auto simp: contByte_def)
    have d: "r div 64 = (byte c - 0xE0) * 64 + (byte x - 0x80)" "0x80 + r mod 64 = byte y"
      unfolding r by (rule rune_digits [OF y])+
    have e: "r div 64 div 64 = byte c - 0xE0" "0x80 + r div 64 mod 64 = byte x"
      unfolding d(1) by (rule rune_digits [OF x])+
    have "r div 4096 = r div 64 div 64" by (simp add: div_mult2_eq [symmetric])
    moreover have "0x800 \<le> r" "r < 0x10000" using 3 x y r second t by (auto simp: not_less)
    ultimately show ?thesis using 3 s t d(2) e by (simp add: encodeRune_def numeral_2_eq_2)
  next
    case 4
    then obtain x y z u where t: "t = x # y # z # u" using w(3) by (cases t; cases "tl t"; cases "tl (tl t)") auto
    have r: "r = (((byte c - 0xF0) * 64 + (byte x - 0x80)) * 64 + (byte y - 0x80)) * 64 + (byte z - 0x80)"
      using tail(3) 4 t by (simp add: lead_def numeral_3_eq_3)
    have x: "0x80 \<le> byte x" "byte x \<le> 0xBF" using second 4 t by auto
    have y: "0x80 \<le> byte y" "byte y \<le> 0xBF" "0x80 \<le> byte z" "byte z \<le> 0xBF"
      using tail(2) 4 t by (auto simp: contByte_def numeral_2_eq_2)
    have d: "r div 64 = ((byte c - 0xF0) * 64 + (byte x - 0x80)) * 64 + (byte y - 0x80)" "0x80 + r mod 64 = byte z"
      unfolding r by (rule rune_digits [OF y(3,4)])+
    have e: "r div 64 div 64 = (byte c - 0xF0) * 64 + (byte x - 0x80)" "0x80 + r div 64 mod 64 = byte y"
      unfolding d(1) by (rule rune_digits [OF y(1,2)])+
    have f: "r div 64 div 64 div 64 = byte c - 0xF0" "0x80 + r div 64 div 64 mod 64 = byte x"
      unfolding e(1) by (rule rune_digits [OF x])+
    have "0x10000 \<le> r" using 4 x y r second t by (auto simp: not_less)
    moreover have "r div 4096 = r div 64 div 64" "r div 262144 = r div 64 div 64 div 64" by (simp_all add: div_mult2_eq [symmetric])
    ultimately show ?thesis using 4 s t d(2) e(2) f by (simp add: encodeRune_def numeral_3_eq_3)
  qed
qed

section \<open>The encoder\<close>

definition escapeASCII :: "char \<Rightarrow> string" where
  "escapeASCII c =
     (let b = byte c in
      if b = 0x5C \<or> b = 0x22 then [CHR 0x5C, c]
      else if b = 0x08 then CHR 0x5C # ''b''
      else if b = 0x0C then CHR 0x5C # ''f''
      else if b = 0x0A then CHR 0x5C # ''n''
      else if b = 0x0D then CHR 0x5C # ''r''
      else if b = 0x09 then CHR 0x5C # ''t''
      else if b < 0x20 \<or> b = 0x3C \<or> b = 0x3E \<or> b = 0x26 then CHR 0x5C # ''u00'' @ [hexDigit (b div 16), hexDigit (b mod 16)]
      else [c])"

function quoteJSONBody :: "string \<Rightarrow> string" where
  "quoteJSONBody s =
     (case s of
        [] \<Rightarrow> []
      | c # t \<Rightarrow>
        (case decodeRune s of
           None \<Rightarrow> CHR 0x5C # ''ufffd'' @ quoteJSONBody t
         | Some (r, w) \<Rightarrow>
             (if byte c < 0x80 then escapeASCII c
              else if r = 0x2028 \<or> r = 0x2029 then CHR 0x5C # ''u202'' @ [hexDigit (r mod 16)]
              else take w s) @ quoteJSONBody (drop w s)))"
  by pat_completeness auto
termination
  by (relation "measure length") (auto dest!: decodeRune_width)

declare quoteJSONBody.simps [simp del]

definition quoteJSON :: "string \<Rightarrow> string" where
  "quoteJSON s = [CHR 0x22] @ quoteJSONBody s @ [CHR 0x22]"

fun printJSON :: "json \<Rightarrow> string"
and printElements :: "json list \<Rightarrow> string"
and printMembers :: "(string \<times> json) list \<Rightarrow> string" where
  "printJSON JNull = ''null''"
| "printJSON (JBool b) = (if b then ''true'' else ''false'')"
| "printJSON (JNum n) = decimal n"
| "printJSON (JFrac s) = s"
| "printJSON (JStr s) = quoteJSON s"
| "printJSON (JArr js) = ''['' @ printElements js @ '']''"
| "printJSON (JObj ms) = ''{'' @ printMembers ms @ ''}''"
| "printElements [] = []"
| "printElements [j] = printJSON j"
| "printElements (j # j' # js) = printJSON j @ '','' @ printElements (j' # js)"
| "printMembers [] = []"
| "printMembers [(k, j)] = quoteJSON k @ '':'' @ printJSON j"
| "printMembers ((k, j) # m # ms) = quoteJSON k @ '':'' @ printJSON j @ '','' @ printMembers (m # ms)"

section \<open>The lexer\<close>

datatype token =
    TokOpenObject | TokCloseObject | TokOpenArray | TokCloseArray | TokColon | TokComma
  | TokValue json

definition isJSONSpace :: "char \<Rightarrow> bool" where
  "isJSONSpace c \<longleftrightarrow> byte c = 0x20 \<or> byte c = 0x09 \<or> byte c = 0x0D \<or> byte c = 0x0A"

definition isDigit :: "char \<Rightarrow> bool" where
  "isDigit c \<longleftrightarrow> 0x30 \<le> byte c \<and> byte c \<le> 0x39"

definition digitsValue :: "string \<Rightarrow> nat" where
  "digitsValue s = foldl (\<lambda>n c. 10 * n + (byte c - 0x30)) 0 s"

text \<open>Four hexadecimal digits of an escape.\<close>

definition hexValue :: "char \<Rightarrow> nat option" where
  "hexValue c =
     (let b = byte c in
      if 0x30 \<le> b \<and> b \<le> 0x39 then Some (b - 0x30)
      else if 0x61 \<le> b \<and> b \<le> 0x66 then Some (b - 0x61 + 10)
      else if 0x41 \<le> b \<and> b \<le> 0x46 then Some (b - 0x41 + 10) else None)"

fun getu4 :: "string \<Rightarrow> nat option" where
  "getu4 (a # b # c # d # s) =
     (case (hexValue a, hexValue b, hexValue c, hexValue d) of
        (Some a', Some b', Some c', Some d') \<Rightarrow> Some (((a' * 16 + b') * 16 + c') * 16 + d')
      | _ \<Rightarrow> None)"
| "getu4 _ = None"

definition unescape :: "char \<Rightarrow> char option" where
  "unescape c =
     (if byte c = 0x22 \<or> byte c = 0x5C \<or> byte c = 0x2F then Some c
      else if c = CHR ''b'' then Some (CHR 0x08) else if c = CHR ''f'' then Some (CHR 0x0C)
      else if c = CHR ''n'' then Some (CHR 0x0A) else if c = CHR ''r'' then Some (CHR 0x0D)
      else if c = CHR ''t'' then Some (CHR 0x09) else None)"

text \<open>The low surrogate that an escape right after a high one adds to it.\<close>

definition surrogatePair :: "nat \<Rightarrow> string \<Rightarrow> nat option" where
  "surrogatePair r s =
     (if take 2 s = [CHR 0x5C, CHR ''u''] \<and> 0xD800 \<le> r \<and> r < 0xDC00
      then (case getu4 (drop 2 s) of
              None \<Rightarrow> None
            | Some r2 \<Rightarrow> if 0xDC00 \<le> r2 \<and> r2 < 0xE000 then Some (0x10000 + (r - 0xD800) * 0x400 + (r2 - 0xDC00)) else None)
      else None)"

text \<open>One character or escape of a string literal, whose first byte is \<open>c\<close>: its value and what follows.\<close>

definition quotedPiece :: "char \<Rightarrow> string \<Rightarrow> (string \<times> string) option" where
  "quotedPiece c t =
     (if byte c < 0x20 then None
      else if byte c = 0x5C then
        (case t of
           [] \<Rightarrow> None
         | e # u \<Rightarrow>
           if e = CHR ''u'' then
             (case getu4 u of
                None \<Rightarrow> None
              | Some r \<Rightarrow>
                (case surrogatePair r (drop 4 u) of
                   Some r' \<Rightarrow> Some (encodeRune r', drop 10 u)
                 | None \<Rightarrow> Some (if 0xD800 \<le> r \<and> r < 0xE000 then replacementRune else encodeRune r, drop 4 u)))
           else map_option (\<lambda>x. ([x], u)) (unescape e))
      else
        (case decodeRune (c # t) of
           None \<Rightarrow> Some (replacementRune, t)
         | Some (r, w) \<Rightarrow> Some (take w (c # t), drop w (c # t))))"

lemma quotedPiece_length: "quotedPiece c t = Some (v, rest) \<Longrightarrow> length rest \<le> length t"
  by (auto simp: quotedPiece_def split: if_splits list.splits option.splits dest: decodeRune_width)

text \<open>The rest of a string literal after its opening quote: its value and what follows the closing quote.\<close>

function readQuoted :: "string \<Rightarrow> (string \<times> string) option" where
  "readQuoted [] = None"
| "readQuoted (c # t) =
     (if byte c = 0x22 then Some ([], t)
      else case quotedPiece c t of
             None \<Rightarrow> None
           | Some (v, rest) \<Rightarrow> map_option (apfst ((@) v)) (readQuoted rest))"
  by pat_completeness auto
termination
  by (relation "measure length") (auto dest!: quotedPiece_length)

lemma readQuoted_length: "readQuoted s = Some (v, rest) \<Longrightarrow> length rest < length s"
proof (induction s arbitrary: v rule: readQuoted.induct)
  case (2 c t)
  then show ?case by (fastforce split: if_splits option.splits dest: quotedPiece_length)
qed simp

text \<open>A number: sign, integer part, and an optional fraction and exponent.\<close>

definition numberTail :: "(string \<Rightarrow> string) \<Rightarrow> string \<Rightarrow> string" where
  "numberTail marks s = (let m = marks s; d = takeWhile isDigit (drop (length m) s) in if m = [] \<or> d = [] then [] else m @ d)"

definition fractionMark :: "string \<Rightarrow> string" where
  "fractionMark s = (if take 1 s = ''.'' then ''.'' else [])"

definition exponentMark :: "string \<Rightarrow> string" where
  "exponentMark s =
     (if take 1 s = ''e'' \<or> take 1 s = ''E''
      then take 1 s @ (if take 1 (drop 1 s) = ''+'' \<or> take 1 (drop 1 s) = ''-'' then take 1 (drop 1 s) else [])
      else [])"

definition signMark :: "string \<Rightarrow> string" where
  "signMark s = (if take 1 s = ''-'' then ''-'' else [])"

definition integerPart :: "string \<Rightarrow> string" where
  "integerPart s = (if take 1 s = ''0'' then ''0'' else takeWhile isDigit s)"

definition readNumber :: "string \<Rightarrow> (json \<times> string) option" where
  "readNumber s =
     (let sign = signMark s;
          t = drop (length sign) s;
          digits = integerPart t;
          u = drop (length digits) t;
          frac = numberTail fractionMark u;
          expo = numberTail exponentMark (drop (length frac) u)
      in if digits = [] then None
         else if frac = [] \<and> expo = []
         then Some (JNum (if sign = [] then int (digitsValue digits) else - int (digitsValue digits)), u)
         else Some (JFrac (sign @ digits @ frac @ expo), drop (length frac + length expo) u))"

definition nextToken :: "char \<Rightarrow> string \<Rightarrow> (token \<times> string) option" where
  "nextToken c t =
     (if c = CHR ''{'' then Some (TokOpenObject, t) else if c = CHR ''}'' then Some (TokCloseObject, t)
      else if c = CHR ''['' then Some (TokOpenArray, t) else if c = CHR '']'' then Some (TokCloseArray, t)
      else if c = CHR '':'' then Some (TokColon, t) else if c = CHR '','' then Some (TokComma, t)
      else if byte c = 0x22 then map_option (apfst (TokValue \<circ> JStr)) (readQuoted t)
      else if c = CHR ''n'' then if take 3 t = ''ull'' then Some (TokValue JNull, drop 3 t) else None
      else if c = CHR ''t'' then if take 3 t = ''rue'' then Some (TokValue (JBool True), drop 3 t) else None
      else if c = CHR ''f'' then if take 4 t = ''alse'' then Some (TokValue (JBool False), drop 4 t) else None
      else map_option (apfst TokValue) (readNumber (c # t)))"

lemma readNumber_length: "readNumber s = Some (j, rest) \<Longrightarrow> length rest < length s"
  by (cases s) (auto simp: readNumber_def signMark_def integerPart_def Let_def less_Suc_eq_le split: if_splits)

lemma nextToken_length: "nextToken c t = Some (tok, rest) \<Longrightarrow> length rest < Suc (length t)"
  by (auto simp: nextToken_def dest: readQuoted_length readNumber_length split: if_splits)

function lexJSON :: "string \<Rightarrow> token list option" where
  "lexJSON [] = Some []"
| "lexJSON (c # t) =
     (if isJSONSpace c then lexJSON t
      else case nextToken c t of
             None \<Rightarrow> None
           | Some (tok, rest) \<Rightarrow> map_option ((#) tok) (lexJSON rest))"
  by pat_completeness auto
termination
  by (relation "measure length") (auto dest!: nextToken_length)

section \<open>The scanner\<close>

text \<open>What the scanner expects next, and the open arrays and objects with what they hold so far.\<close>

datatype scan_mode =
    BeginValue | BeginValueOrEmpty | BeginStringOrEmpty | BeginString | AfterKey | EndValue
  | EndTop json

datatype scan_frame = ArrayFrame "json list" | ObjectFrame "(string \<times> json) list" string

type_synonym scan_state = "scan_mode \<times> scan_frame list"

definition maxNestingDepth :: nat where
  "maxNestingDepth = 10000"

fun completeValue :: "json \<Rightarrow> scan_frame list \<Rightarrow> scan_state" where
  "completeValue j [] = (EndTop j, [])"
| "completeValue j (ArrayFrame js # st) = (EndValue, ArrayFrame (js @ [j]) # st)"
| "completeValue j (ObjectFrame ms k # st) = (EndValue, ObjectFrame (ms @ [(k, j)]) k # st)"

definition pushFrame :: "scan_mode \<Rightarrow> scan_frame \<Rightarrow> scan_frame list \<Rightarrow> scan_state option" where
  "pushFrame m f st = (if length st < maxNestingDepth then Some (m, f # st) else None)"

definition beginValue :: "token \<Rightarrow> scan_frame list \<Rightarrow> scan_state option" where
  "beginValue tok st =
     (case tok of
        TokValue j \<Rightarrow> Some (completeValue j st)
      | TokOpenArray \<Rightarrow> pushFrame BeginValueOrEmpty (ArrayFrame []) st
      | TokOpenObject \<Rightarrow> pushFrame BeginStringOrEmpty (ObjectFrame [] []) st
      | _ \<Rightarrow> None)"

definition beginKey :: "token \<Rightarrow> scan_frame list \<Rightarrow> scan_state option" where
  "beginKey tok st =
     (case (tok, st) of
        (TokValue (JStr k), ObjectFrame ms _ # st') \<Rightarrow> Some (AfterKey, ObjectFrame ms k # st')
      | _ \<Rightarrow> None)"

fun closeFrame :: "token \<Rightarrow> scan_frame list \<Rightarrow> scan_state option" where
  "closeFrame TokCloseArray (ArrayFrame js # st) = Some (completeValue (JArr js) st)"
| "closeFrame TokCloseObject (ObjectFrame ms k # st) = Some (completeValue (JObj ms) st)"
| "closeFrame _ _ = None"

fun nextElement :: "scan_frame list \<Rightarrow> scan_state option" where
  "nextElement [] = None"
| "nextElement (ArrayFrame js # st) = Some (BeginValue, ArrayFrame js # st)"
| "nextElement (ObjectFrame ms k # st) = Some (BeginString, ObjectFrame ms k # st)"

fun scanStep :: "scan_state \<Rightarrow> token \<Rightarrow> scan_state option" where
  "scanStep (BeginValue, st) tok = beginValue tok st"
| "scanStep (BeginValueOrEmpty, st) tok = (if tok = TokCloseArray then closeFrame tok st else beginValue tok st)"
| "scanStep (BeginStringOrEmpty, st) tok = (if tok = TokCloseObject then closeFrame tok st else beginKey tok st)"
| "scanStep (BeginString, st) tok = beginKey tok st"
| "scanStep (AfterKey, st) tok = (if tok = TokColon then Some (BeginValue, st) else None)"
| "scanStep (EndValue, st) tok = (if tok = TokComma then nextElement st else closeFrame tok st)"
| "scanStep (EndTop j, st) tok = None"

fun scanTokens :: "scan_state \<Rightarrow> token list \<Rightarrow> scan_state option" where
  "scanTokens s [] = Some s"
| "scanTokens s (tok # toks) = (case scanStep s tok of None \<Rightarrow> None | Some s' \<Rightarrow> scanTokens s' toks)"

definition parseJSON :: "string \<Rightarrow> document" where
  "parseJSON s =
     (case lexJSON s of
        None \<Rightarrow> Malformed
      | Some toks \<Rightarrow> (case scanTokens (BeginValue, []) toks of Some (EndTop j, _) \<Rightarrow> Doc j | _ \<Rightarrow> Malformed))"

lemma parseJSON_Nil [simp]: "parseJSON [] = Malformed"
  by (simp add: parseJSON_def)

section \<open>What is read back\<close>

fun coercedJSON :: "json \<Rightarrow> json" where
  "coercedJSON (JStr s) = JStr (coerceUTF8 s)"
| "coercedJSON (JArr js) = JArr (map coercedJSON js)"
| "coercedJSON (JObj ms) = JObj (map (\<lambda>(k, j). (coerceUTF8 k, coercedJSON j)) ms)"
| "coercedJSON j = j"

fun nesting :: "json \<Rightarrow> nat" where
  "nesting (JArr js) = Suc (fold max (map nesting js) 0)"
| "nesting (JObj ms) = Suc (fold max (map (\<lambda>(k, j). nesting j) ms) 0)"
| "nesting j = 0"

text \<open>The text of a number that is not an integer is one the lexer takes as a whole.\<close>

fun numbersRead :: "json \<Rightarrow> bool" where
  "numbersRead (JFrac s) = (readNumber s = Some (JFrac s, []))"
| "numbersRead (JArr js) = list_all numbersRead js"
| "numbersRead (JObj ms) = list_all (\<lambda>(k, j). numbersRead j) ms"
| "numbersRead j = True"

text \<open>The tokens of a printed document.\<close>

fun tokensOf :: "json \<Rightarrow> token list"
and elementTokens :: "json list \<Rightarrow> token list"
and memberTokens :: "(string \<times> json) list \<Rightarrow> token list" where
  "tokensOf (JArr js) = TokOpenArray # elementTokens js @ [TokCloseArray]"
| "tokensOf (JObj ms) = TokOpenObject # memberTokens ms @ [TokCloseObject]"
| "tokensOf j = [TokValue (coercedJSON j)]"
| "elementTokens [] = []"
| "elementTokens [j] = tokensOf j"
| "elementTokens (j # j' # js) = tokensOf j @ TokComma # elementTokens (j' # js)"
| "memberTokens [] = []"
| "memberTokens [(k, j)] = TokValue (JStr (coerceUTF8 k)) # TokColon # tokensOf j"
| "memberTokens ((k, j) # m # ms) = TokValue (JStr (coerceUTF8 k)) # TokColon # tokensOf j @ TokComma # memberTokens (m # ms)"

subsection \<open>Strings\<close>

lemma char_eq_byte: "c = d \<longleftrightarrow> byte c = byte d"
  by simp

lemma hexValue_hexDigit: "n < 16 \<Longrightarrow> hexValue (hexDigit n) = Some n"
proof -
  assume "n < 16"
  then have "n \<in> {0, 1, 2, 3, 4, 5, 6, 7, 8, 9, 10, 11, 12, 13, 14, 15}"
    unfolding insert_iff empty_iff by presburger
  then show ?thesis by (elim insertE) (simp_all add: hexValue_def hexDigit_def)
qed

lemma getu4_hex:
  assumes "n < 16" "m < 16"
  shows "getu4 (CHR ''0'' # CHR ''0'' # hexDigit n # hexDigit m # rest) = Some (n * 16 + m)"
proof -
  have "hexValue (CHR ''0'') = Some 0" by (simp add: hexValue_def)
  with assms show ?thesis by (simp add: hexValue_hexDigit)
qed

lemma quotedPiece_unicode:
  assumes "getu4 u = Some r" and "r < 0xD800 \<or> 0xE000 \<le> r"
  shows "quotedPiece (CHR 0x5C) (CHR ''u'' # u) = Some (encodeRune r, drop 4 u)"
  using assms by (auto simp: quotedPiece_def surrogatePair_def)

lemma quotedPiece_ascii:
  assumes "byte c < 0x80" "0x20 \<le> byte c" "byte c \<noteq> 0x5C"
  shows "quotedPiece c rest = Some ([c], rest)"
  using assms by (simp add: quotedPiece_def decodeRune_def runeWidth_def Let_def split: prod.splits)

lemma readQuoted_escape:
  assumes "byte c < 0x80"
  shows "readQuoted (escapeASCII c @ rest) = map_option (apfst ((@) [c])) (readQuoted rest)"
proof -
  define b where "b = byte c"
  have d: "b div 16 < 16" "b mod 16 < 16" "b div 16 * 16 + b mod 16 = b" using assms by (auto simp: b_def)
  have rune: "encodeRune b = [c]" using assms by (simp add: encodeRune_def b_def)
  have u: "quotedPiece (CHR 0x5C) (CHR ''u'' # CHR ''0'' # CHR ''0'' # hexDigit (b div 16) # hexDigit (b mod 16) # rest) = Some ([c], rest)"
    using quotedPiece_unicode [OF getu4_hex [OF d(1,2), of rest]] d(3) rune assms by (simp add: b_def [symmetric])
  have e: "quotedPiece (CHR 0x5C) (x # rest) = map_option (\<lambda>y. ([y], rest)) (unescape x)" if "x \<noteq> CHR ''u''" for x
    using that by (simp add: quotedPiece_def)
  have p: "\<not> b < 0x20 \<Longrightarrow> b \<noteq> 0x5C \<Longrightarrow> quotedPiece c rest = Some ([c], rest)"
    using quotedPiece_ascii assms by (simp add: b_def)
  consider "c \<in> {CHR 0x5C, CHR 0x22, CHR 0x08, CHR 0x0C, CHR 0x0A, CHR 0x0D, CHR 0x09}"
    | "b \<notin> {0x5C, 0x22, 0x08, 0x0C, 0x0A, 0x0D, 0x09}" "b < 0x20 \<or> b = 0x3C \<or> b = 0x3E \<or> b = 0x26"
    | "b \<notin> {0x5C, 0x22, 0x08, 0x0C, 0x0A, 0x0D, 0x09}" "\<not> (b < 0x20 \<or> b = 0x3C \<or> b = 0x3E \<or> b = 0x26)"
    by (auto simp: b_def char_eq_byte)
  then show ?thesis
  proof cases
    case 2
    then have "escapeASCII c = CHR 0x5C # ''u00'' @ [hexDigit (b div 16), hexDigit (b mod 16)]"
      by (auto simp: escapeASCII_def b_def Let_def)
    then show ?thesis by (simp add: u)
  next
    case 3
    then have "escapeASCII c = [c]" by (auto simp: escapeASCII_def b_def Let_def)
    with 3 p show ?thesis by (simp add: b_def)
  qed (auto simp: escapeASCII_def Let_def e unescape_def)
qed

lemma encodeRune_replacement: "encodeRune 0xFFFD = replacementRune"
  by (simp add: encodeRune_def replacementRune_def char_eq_byte)

text \<open>A quoted string reads back with the bytes that are no UTF-8 replaced.\<close>

lemma readQuoted_quote: "readQuoted (quoteJSONBody s @ CHR 0x22 # rest) = Some (coerceUTF8 s, rest)"
proof (induction s rule: quoteJSONBody.induct)
  case (1 s)
  show ?case
  proof (cases s)
    case (Cons c t)
    show ?thesis
    proof (cases "decodeRune s")
      case None
      have "getu4 (''fffd'' @ u) = Some 0xFFFD" for u by (simp add: hexValue_def)
      from quotedPiece_unicode [OF this] have "quotedPiece (CHR 0x5C) (''ufffd'' @ u) = Some (replacementRune, u)" for u
        by (simp add: encodeRune_replacement)
      with "1.IH"(1) [OF Cons None] None Cons show ?thesis
        by (subst quoteJSONBody.simps, subst coerceUTF8.simps) simp
    next
      case (Some rw)
      obtain r w where rw: "rw = (r, w)" by force
      have w: "0 < w" "w \<le> length s" using decodeRune_width Some rw by auto
      note IH = "1.IH"(2) [OF Cons Some rw [symmetric]]
      consider "byte c < 0x80" | "0x80 \<le> byte c" "r = 0x2028 \<or> r = 0x2029" | "0x80 \<le> byte c" "r \<noteq> 0x2028" "r \<noteq> 0x2029" by linarith
      then show ?thesis
      proof cases
        case 1
        then have "r = byte c" "w = 1" using Some rw Cons by (auto simp: decodeRune_def runeWidth_def Let_def split: prod.splits)
        with 1 IH Some rw Cons show ?thesis
          by (subst quoteJSONBody.simps, subst coerceUTF8.simps) (simp add: readQuoted_escape)
      next
        case 2
        have t: "take w s = encodeRune r" using decodeRune_encodeRune Some rw by simp
        have "getu4 (''202'' @ hexDigit (r mod 16) # u) = Some r" for u
          using 2(2) by (auto simp: hexValue_def hexDigit_def)
        from quotedPiece_unicode [OF this] 2(2)
        have "quotedPiece (CHR 0x5C) (''u202'' @ hexDigit (r mod 16) # u) = Some (encodeRune r, u)" for u by auto
        with 2 t IH Some rw Cons show ?thesis
          by (subst quoteJSONBody.simps, subst coerceUTF8.simps) auto
      next
        case 3
        obtain v where v: "w = Suc v" using w by (cases w) auto
        have "quotedPiece c (take v t @ u) = Some (take w s, u)" for u
          using decodeRune_prefix [of s r w u] 3(1) Some rw w v Cons by (simp add: quotedPiece_def)
        with 3 IH Some rw Cons v show ?thesis
          by (subst quoteJSONBody.simps, subst coerceUTF8.simps) auto
      qed
    qed
  qed (simp add: quoteJSONBody.simps)
qed

subsection \<open>Numbers\<close>

text \<open>A text before which a number ends.\<close>

definition numberEnds :: "string \<Rightarrow> bool" where
  "numberEnds s \<longleftrightarrow> (case s of [] \<Rightarrow> True | c # t \<Rightarrow> \<not> isDigit c \<and> c \<notin> {CHR ''.'', CHR ''e'', CHR ''E'', CHR ''+'', CHR ''-''})"

lemma numberEnds_take:
  assumes "numberEnds rest"
  shows "take 1 rest \<noteq> ''.''" "take 1 rest \<noteq> ''e''" "take 1 rest \<noteq> ''E''" "take 1 rest \<noteq> ''+''" "take 1 rest \<noteq> ''-''"
    "take 1 rest \<noteq> ''0''" "takeWhile isDigit rest = []"
proof -
  have "isDigit (CHR ''0'')" by (simp add: isDigit_def)
  with assms show "take 1 rest \<noteq> ''.''" "take 1 rest \<noteq> ''e''" "take 1 rest \<noteq> ''E''" "take 1 rest \<noteq> ''+''"
    "take 1 rest \<noteq> ''-''" "take 1 rest \<noteq> ''0''" "takeWhile isDigit rest = []"
    by (cases rest; auto simp: numberEnds_def)+
qed

lemma takeWhile_ends: "numberEnds rest \<Longrightarrow> takeWhile isDigit (s @ rest) = takeWhile isDigit s"
  by (induction s) (simp_all add: numberEnds_take)

lemma take_1_append: "take 1 (s @ rest) = (if s = [] then take 1 rest else take 1 s)"
  by (cases s) auto

lemma fraction_ends: "numberEnds rest \<Longrightarrow> numberTail fractionMark (s @ rest) = numberTail fractionMark s"
  by (cases s) (auto simp: numberTail_def fractionMark_def Let_def takeWhile_ends numberEnds_take [simplified])

lemma exponent_ends: "numberEnds rest \<Longrightarrow> numberTail exponentMark (s @ rest) = numberTail exponentMark s"
  by (cases s; cases "tl s") (auto simp: numberTail_def exponentMark_def Let_def takeWhile_ends numberEnds_take [simplified])

lemma numberTail_length: "length (numberTail marks s) \<le> length s" if "length (marks s) \<le> length s"
proof -
  have "length (takeWhile isDigit t) \<le> length t" for t by (rule length_takeWhile_le)
  from this [of "drop (length (marks s)) s"] that show ?thesis by (auto simp: numberTail_def Let_def)
qed

lemma number_marks [simp]: "length (fractionMark s) \<le> length s" "length (exponentMark s) \<le> length s"
  by (cases s; cases "tl s"; simp add: fractionMark_def exponentMark_def)+

lemma integerPart_length: "length (integerPart s) \<le> length s"
  by (cases s) (auto simp: integerPart_def length_takeWhile_le)

lemma readNumber_ends:
  assumes "readNumber s = Some (j, [])" and "numberEnds rest"
  shows "readNumber (s @ rest) = Some (j, rest)"
proof -
  define sign where "sign = signMark s"
  define t where "t = drop (length sign) s"
  define digits where "digits = integerPart t"
  define u where "u = drop (length digits) t"
  define frac where "frac = numberTail fractionMark u"
  define expo where "expo = numberTail exponentMark (drop (length frac) u)"
  have r: "digits \<noteq> []"
    "if frac = [] \<and> expo = [] then j = JNum (if sign = [] then int (digitsValue digits) else - int (digitsValue digits)) \<and> u = []
     else j = JFrac (sign @ digits @ frac @ expo) \<and> length u \<le> length frac + length expo"
    using assms(1) unfolding readNumber_def Let_def sign_def [symmetric] t_def [symmetric] digits_def [symmetric]
      u_def [symmetric] frac_def [symmetric] expo_def [symmetric]
    by (auto split: if_splits)
  from r(1) have ne: "s \<noteq> []" "t \<noteq> []" by (auto simp: digits_def t_def integerPart_def)
  have f: "length frac \<le> length u" by (simp add: frac_def numberTail_length)
  have e: "length expo \<le> length u - length frac"
    using numberTail_length [of exponentMark "drop (length frac) u", OF number_marks(2)] by (simp add: expo_def)
  have "signMark (s @ rest) = sign" "drop (length sign) (s @ rest) = t @ rest"
    using ne(1) by (cases s; simp add: sign_def signMark_def t_def)+
  moreover have "integerPart (t @ rest) = digits"
    using ne(2) by (cases t) (auto simp: digits_def integerPart_def takeWhile_ends assms(2))
  moreover have "drop (length digits) (t @ rest) = u @ rest" using integerPart_length by (simp add: u_def digits_def)
  moreover have "drop (length frac) (u @ rest) = drop (length frac) u @ rest" using f by simp
  moreover have "numberTail fractionMark (u @ rest) = frac" "numberTail exponentMark (drop (length frac) u @ rest) = expo"
    by (simp_all add: frac_def expo_def fraction_ends exponent_ends assms(2))
  ultimately have "readNumber (s @ rest) = (if digits = [] then None
      else if frac = [] \<and> expo = []
      then Some (JNum (if sign = [] then int (digitsValue digits) else - int (digitsValue digits)), u @ rest)
      else Some (JFrac (sign @ digits @ frac @ expo), drop (length frac + length expo) (u @ rest)))"
    by (simp only: readNumber_def Let_def)
  with r f e show ?thesis by (auto split: if_splits)
qed

lemma natDecimal_digits: "list_all isDigit (natDecimal n) \<and> digitsValue (natDecimal n) = n \<and> natDecimal n \<noteq> [] \<and> (take 1 (natDecimal n) = ''0'' \<longrightarrow> n = 0)"
proof (induction n rule: natDecimal.induct)
  case (1 n)
  have d: "isDigit (''0123456789'' ! k) \<and> byte (''0123456789'' ! k) - 0x30 = k \<and> (''0123456789'' ! k = CHR ''0'' \<longrightarrow> k = 0)" if "k < 10" for k
  proof -
    have "k \<in> {0, 1, 2, 3, 4, 5, 6, 7, 8, 9}" using that unfolding insert_iff empty_iff by presburger
    then show ?thesis by (elim insertE) (simp_all add: isDigit_def)
  qed
  show ?case
  proof (cases "n < 10")
    case True
    with d [of n] show ?thesis by (subst (1 2 3 4) natDecimal.simps) (simp add: digitsValue_def)
  next
    case False
    with 1 d [of "n mod 10"] show ?thesis
      by (subst (1 2 3 4) natDecimal.simps) (auto simp: digitsValue_def take_1_append [simplified])
  qed
qed

lemma readNumber_decimal: "readNumber (decimal n) = Some (JNum n, [])"
proof -
  have nat: "readNumber (natDecimal k) = Some (JNum (int k), [])" "readNumber (CHR ''-'' # natDecimal k) = Some (JNum (- int k), [])" for k
  proof -
    note d = natDecimal_digits [of k]
    have "take 1 (natDecimal k) \<noteq> ''-''" using d by (cases "natDecimal k") (auto simp: isDigit_def)
    moreover have "integerPart (natDecimal k) = natDecimal k"
      using d natDecimal.simps [of 0] by (auto simp: integerPart_def takeWhile_eq_all_conv list_all_iff)
    ultimately show "readNumber (natDecimal k) = Some (JNum (int k), [])" "readNumber (CHR ''-'' # natDecimal k) = Some (JNum (- int k), [])"
      using d by (simp_all add: readNumber_def signMark_def Let_def numberTail_def fractionMark_def exponentMark_def)
  qed
  show ?thesis using nat(1) [of "nat n"] nat(2) [of "nat (- n)"] by (simp add: decimal_def)
qed

subsection \<open>Tokens\<close>

lemma readNumber_first:
  assumes "readNumber (c # t) = Some r"
  shows "isDigit c \<or> c = CHR ''-''"
  using assms by (auto simp: readNumber_def signMark_def integerPart_def isDigit_def Let_def split: if_splits)

lemma nextToken_number:
  assumes "readNumber (c # t) = Some (j, rest)"
  shows "\<not> isJSONSpace c" "nextToken c t = Some (TokValue j, rest)"
  using readNumber_first [OF assms] assms by (auto simp: isJSONSpace_def nextToken_def isDigit_def char_eq_byte)

text \<open>\<open>lexes s ts rest\<close>: the lexer takes the tokens \<open>ts\<close> from the front of \<open>s\<close>, with no space before or between them.\<close>

inductive lexes :: "string \<Rightarrow> token list \<Rightarrow> string \<Rightarrow> bool" where
  none: "lexes s [] s"
| token: "lexes (c # t) (tok # ts) rest" if "\<not> isJSONSpace c" and "nextToken c t = Some (tok, u)" and "lexes u ts rest"

lemma lexJSON_lexes: "lexes s ts rest \<Longrightarrow> lexJSON s = map_option ((@) ts) (lexJSON rest)"
  by (induction rule: lexes.induct) (simp_all add: option.map_comp comp_def option.map_ident)

lemma lexes_first: "lexes (c # t) (tok # ts) rest \<Longrightarrow> \<not> isJSONSpace c"
  by (cases rule: lexes.cases) auto

lemma lexes_number:
  assumes "readNumber s = Some (j, [])" and "numberEnds rest" and "lexes rest ts r"
  shows "lexes (s @ rest) (TokValue j # ts) r"
proof -
  obtain c t where s: "s = c # t" using assms(1) by (cases s) (auto simp: readNumber_def signMark_def integerPart_def)
  from readNumber_ends [OF assms(1,2)] s nextToken_number [of c "t @ rest" j rest] assms(3) show ?thesis
    by (auto intro: lexes.token)
qed

lemma lexes_quote: "lexes rest ts r \<Longrightarrow> lexes (quoteJSON s @ rest) (TokValue (JStr (coerceUTF8 s)) # ts) r"
  by (auto simp: quoteJSON_def isJSONSpace_def nextToken_def readQuoted_quote intro!: lexes.token)

lemma lexes_punctuation:
  assumes "lexes t ts r"
  shows "lexes (CHR ''{'' # t) (TokOpenObject # ts) r" "lexes (CHR ''}'' # t) (TokCloseObject # ts) r"
    "lexes (CHR ''['' # t) (TokOpenArray # ts) r" "lexes (CHR '']'' # t) (TokCloseArray # ts) r"
    "lexes (CHR '':'' # t) (TokColon # ts) r" "lexes (CHR '','' # t) (TokComma # ts) r"
  using assms by (auto simp: isJSONSpace_def nextToken_def intro!: lexes.token)

lemma lexes_literal:
  assumes "lexes t ts r"
  shows "lexes (CHR ''n'' # CHR ''u'' # CHR ''l'' # CHR ''l'' # t) (TokValue JNull # ts) r"
    "lexes (CHR ''t'' # CHR ''r'' # CHR ''u'' # CHR ''e'' # t) (TokValue (JBool True) # ts) r"
    "lexes (CHR ''f'' # CHR ''a'' # CHR ''l'' # CHR ''s'' # CHR ''e'' # t) (TokValue (JBool False) # ts) r"
  using assms by (auto simp: isJSONSpace_def nextToken_def intro!: lexes.token)

declare lexJSON.simps(2) [simp del]

lemma numberEnds_punctuation [simp]:
  "numberEnds []" "numberEnds (CHR '','' # t)" "numberEnds (CHR '']'' # t)" "numberEnds (CHR ''}'' # t)" "numberEnds (CHR 0x0A # t)"
  by (simp_all add: numberEnds_def isDigit_def)

lemma lexes_print:
  "numbersRead j \<Longrightarrow> numberEnds rest \<Longrightarrow> lexes rest ts r \<Longrightarrow> lexes (printJSON j @ rest) (tokensOf j @ ts) r"
  "list_all numbersRead js \<Longrightarrow> numberEnds rest \<Longrightarrow> lexes rest ts r \<Longrightarrow> lexes (printElements js @ rest) (elementTokens js @ ts) r"
  "list_all (\<lambda>(k, j). numbersRead j) ms \<Longrightarrow> numberEnds rest \<Longrightarrow> lexes rest ts r \<Longrightarrow>
     lexes (printMembers ms @ rest) (memberTokens ms @ ts) r"
proof (induction j and js and ms arbitrary: rest ts and rest ts and rest ts rule: printJSON_printElements_printMembers.induct)
  case (3 n)
  then show ?case by (simp add: lexes_number [OF readNumber_decimal])
next
  case (4 s)
  then show ?case by (simp add: lexes_number)
next
  case (6 js)
  from "6.IH" [OF _ _ lexes_punctuation(4) [OF "6.prems"(3)]] "6.prems" show ?case by (simp add: lexes_punctuation)
next
  case (7 ms)
  from "7.IH" [OF _ _ lexes_punctuation(2) [OF "7.prems"(3)]] "7.prems" show ?case by (simp add: lexes_punctuation)
next
  case (10 j j' js)
  from "10.IH"(1) [OF _ _ lexes_punctuation(6) [OF "10.IH"(2) [OF _ "10.prems"(2,3)]]] "10.prems"(1) show ?case by simp
next
  case (13 k j m ms)
  from "13.IH"(1) [OF _ _ lexes_punctuation(6) [OF "13.IH"(2) [OF _ "13.prems"(2,3)]]] "13.prems"(1) show ?case
    by (auto intro!: lexes_quote lexes_punctuation)
qed (auto intro!: lexes_quote lexes_punctuation lexes_literal)

subsection \<open>Documents\<close>

lemma fold_max_bound: "fold max (map f xs) (n :: nat) \<le> m \<longleftrightarrow> n \<le> m \<and> (\<forall>x\<in>set xs. f x \<le> m)"
  by (induction xs arbitrary: n) auto

lemma nesting_part:
  "j \<in> set js \<Longrightarrow> nesting j < nesting (JArr js)"
  "(k, j) \<in> set ms \<Longrightarrow> nesting j < nesting (JObj ms)"
  using fold_max_bound [of nesting js 0 "fold max (map nesting js) 0"]
    fold_max_bound [of "\<lambda>(k, j). nesting j" ms 0 "fold max (map (\<lambda>(k, j). nesting j) ms) 0"]
  by (auto simp: less_Suc_eq_le)

text \<open>Reading the tokens of a value is one step of the scanner, wherever a value may begin.\<close>

lemma scan_tokens:
  "nesting j + length st \<le> maxNestingDepth \<Longrightarrow> m = BeginValue \<or> m = BeginValueOrEmpty \<Longrightarrow>
     scanTokens (m, st) (tokensOf j @ us) = scanTokens (completeValue (coercedJSON j) st) us"
  "(\<forall>j\<in>set js. nesting j + length st < maxNestingDepth) \<Longrightarrow> js \<noteq> [] \<Longrightarrow> m = BeginValue \<or> m = BeginValueOrEmpty \<Longrightarrow>
     scanTokens (m, ArrayFrame done # st) (elementTokens js @ us) = scanTokens (EndValue, ArrayFrame (done @ map coercedJSON js) # st) us"
  "(\<forall>(k, j)\<in>set ms. nesting j + length st < maxNestingDepth) \<Longrightarrow> ms \<noteq> [] \<Longrightarrow> m = BeginString \<or> m = BeginStringOrEmpty \<Longrightarrow>
     scanTokens (m, ObjectFrame ready key # st) (memberTokens ms @ us) =
       scanTokens (EndValue, ObjectFrame (ready @ map (\<lambda>(k, j). (coerceUTF8 k, coercedJSON j)) ms) (coerceUTF8 (fst (last ms))) # st) us"
proof (induction j and js and ms arbitrary: st us m and st us m "done" and st us m ready key
    rule: tokensOf_elementTokens_memberTokens.induct)
  case (1 js)
  show ?case
  proof (cases "js = []")
    case False
    with 1 have "scanTokens (BeginValueOrEmpty, ArrayFrame [] # st) (elementTokens js @ TokCloseArray # us) =
        scanTokens (EndValue, ArrayFrame ([] @ map coercedJSON js) # st) (TokCloseArray # us)"
      by (intro "1.IH") (use "1.prems"(1) in \<open>auto simp del: nesting.simps dest: nesting_part(1)\<close>)
    with "1.prems" show ?thesis by (auto simp: beginValue_def pushFrame_def)
  qed (use "1.prems" in \<open>auto simp: beginValue_def pushFrame_def\<close>)
next
  case (2 ms)
  show ?case
  proof (cases "ms = []")
    case False
    with 2 have "scanTokens (BeginStringOrEmpty, ObjectFrame [] [] # st) (memberTokens ms @ TokCloseObject # us) =
        scanTokens (EndValue, ObjectFrame ([] @ map (\<lambda>(k, j). (coerceUTF8 k, coercedJSON j)) ms) (coerceUTF8 (fst (last ms))) # st)
          (TokCloseObject # us)"
      by (intro "2.IH") (use "2.prems"(1) in \<open>auto simp del: nesting.simps dest: nesting_part(2)\<close>)
    with "2.prems" show ?thesis by (auto simp: beginValue_def pushFrame_def)
  qed (use "2.prems" in \<open>auto simp: beginValue_def pushFrame_def\<close>)
next
  case (9 k j m' ms)
  have "scanTokens (BeginValue, ObjectFrame ready (coerceUTF8 k) # st) (tokensOf j @ TokComma # memberTokens (m' # ms) @ us) =
      scanTokens (BeginString, ObjectFrame (ready @ [(coerceUTF8 k, coercedJSON j)]) (coerceUTF8 k) # st) (memberTokens (m' # ms) @ us)"
    using "9.IH"(1) [of "ObjectFrame ready (coerceUTF8 k) # st" BeginValue] "9.prems"(1) by auto
  also have "\<dots> = scanTokens (EndValue, ObjectFrame ((ready @ [(coerceUTF8 k, coercedJSON j)]) @
      map (\<lambda>(k, j). (coerceUTF8 k, coercedJSON j)) (m' # ms)) (coerceUTF8 (fst (last (m' # ms)))) # st) us"
    by (rule "9.IH"(2)) (use "9.prems"(1) in auto)
  finally show ?case using "9.prems"(3) by (auto simp: beginKey_def)
qed (auto simp: beginValue_def beginKey_def)

text \<open>
  What the encoder prints, the decoder reads: the same document with its strings made valid UTF-8, as long
  as it is not nested more deeply than the decoder admits.
\<close>

lemma parse_print:
  assumes "numbersRead j" and "nesting j \<le> maxNestingDepth"
  shows "parseJSON (printJSON j) = Doc (coercedJSON j)"
  using lexJSON_lexes [OF lexes_print(1) [OF assms(1) _ lexes.none, of "[]"]] scan_tokens(1) [of j "[]" BeginValue "[]"] assms(2)
  by (simp add: parseJSON_def)

section \<open>Evaluation\<close>

text \<open>Most characters stand for themselves on both sides; evaluation need not take them apart.\<close>

fun plainChar :: "char \<Rightarrow> bool" where
  "plainChar (Char b0 b1 b2 b3 b4 b5 b6 b7) \<longleftrightarrow>
     \<not> b7 \<and> (b5 \<or> b6) \<and>
     \<not> (\<not> b0 \<and> b1 \<and> \<not> b2 \<and> \<not> b3 \<and> \<not> b4 \<and> b5 \<and> \<not> b6) \<and> \<not> (\<not> b0 \<and> b1 \<and> b2 \<and> \<not> b3 \<and> \<not> b4 \<and> b5 \<and> \<not> b6) \<and>
     \<not> (\<not> b0 \<and> b2 \<and> b3 \<and> b4 \<and> b5 \<and> \<not> b6) \<and> \<not> (\<not> b0 \<and> \<not> b1 \<and> b2 \<and> b3 \<and> b4 \<and> \<not> b5 \<and> b6)"

lemma plainChar_byte:
  "plainChar c \<Longrightarrow> 0x20 \<le> byte c \<and> byte c < 0x80 \<and> byte c \<noteq> 0x22 \<and> byte c \<noteq> 0x26 \<and> byte c \<noteq> 0x3C \<and> byte c \<noteq> 0x3E \<and> byte c \<noteq> 0x5C"
  by (cases c) (auto simp: of_char_def)

lemma quoteJSONBody_plain:
  assumes "plainChar c"
  shows "quoteJSONBody (c # t) = c # quoteJSONBody t"
proof -
  have "decodeRune (c # t) = Some (byte c, 1)"
    using plainChar_byte [OF assms] by (simp add: decodeRune_def runeWidth_def Let_def split: prod.splits)
  moreover have "escapeASCII c = [c]" using plainChar_byte [OF assms] by (auto simp: escapeASCII_def Let_def)
  ultimately show ?thesis using plainChar_byte [OF assms] by (subst quoteJSONBody.simps) simp
qed

lemma quoteJSONBody_code [code]:
  "quoteJSONBody [] = []"
  "quoteJSONBody (c # t) =
     (if plainChar c then c # quoteJSONBody t
      else case decodeRune (c # t) of
             None \<Rightarrow> CHR 0x5C # ''ufffd'' @ quoteJSONBody t
           | Some (r, w) \<Rightarrow>
               (if byte c < 0x80 then escapeASCII c
                else if r = 0x2028 \<or> r = 0x2029 then CHR 0x5C # ''u202'' @ [hexDigit (r mod 16)]
                else take w (c # t)) @ quoteJSONBody (drop w (c # t)))" (is "_ = ?piece")
proof -
  show "quoteJSONBody [] = []" by (simp add: quoteJSONBody.simps)
  show "quoteJSONBody (c # t) = ?piece"
    by (cases "plainChar c") (simp add: quoteJSONBody_plain, subst quoteJSONBody.simps, simp)
qed

lemma readQuoted_code [code]:
  "readQuoted [] = None"
  "readQuoted (c # t) =
     (if plainChar c then map_option (apfst ((#) c)) (readQuoted t)
      else if byte c = 0x22 then Some ([], t)
      else case quotedPiece c t of
             None \<Rightarrow> None
           | Some (v, rest) \<Rightarrow> map_option (apfst ((@) v)) (readQuoted rest))"
  using quotedPiece_ascii [of c t] plainChar_byte [of c] by (auto simp: fun_eq_iff intro!: option.map_cong)

end
