(* ===== verification/Json_Codec.thy ===== *)
theory Json_Codec
  imports Stores Json_Text
begin

text \<open>
  The JSON form of checkpoints: what \<^verbatim>\<open>json.Marshal\<close> and \<^verbatim>\<open>json.Unmarshal\<close> of \<^verbatim>\<open>encoding/json\<close> do with
  the struct \<^verbatim>\<open>Checkpoint\<close> and its tags (\<^verbatim>\<open>checkpoint.go\<close>, \<^verbatim>\<open>runtime.go\<close>), over the text of \<open>Json_Text\<close>.

  The encoder makes string values valid UTF-8, which validation relies on, and the decoder does the same. The
  decoder looks a member up by its exact name, then by its folded name, ignores unknown members, keeps a field on
  \<^verbatim>\<open>null\<close> and rejects values of another type and numbers outside the range of the field's type.
\<close>

section \<open>Decoding\<close>

type_synonym 'a reader = "json \<Rightarrow> 'a \<Rightarrow> 'a option"

definition readString :: "string reader" where
  "readString j old = (case j of JNull \<Rightarrow> Some old | JStr s \<Rightarrow> Some (coerceUTF8 s) | _ \<Rightarrow> None)"

definition readInt :: "(int \<Rightarrow> bool) \<Rightarrow> int reader" where
  "readInt fits j old = (case j of JNull \<Rightarrow> Some old | JNum n \<Rightarrow> if fits n then Some n else None | _ \<Rightarrow> None)"

definition readBool :: "bool reader" where
  "readBool j old = (case j of JNull \<Rightarrow> Some old | JBool b \<Rightarrow> Some b | _ \<Rightarrow> None)"

definition readUint64 :: "uint64 reader" where
  "readUint64 j old =
     (case j of JNull \<Rightarrow> Some old
      | JNum n \<Rightarrow> if 0 \<le> n \<and> n < 2 ^ 64 then Some (word_of_int n) else None
      | _ \<Rightarrow> None)"

fun readElements :: "'a reader \<Rightarrow> 'a \<Rightarrow> 'a list \<Rightarrow> json list \<Rightarrow> 'a list option" where
  "readElements rd zero old [] = Some []"
| "readElements rd zero old (j # js) =
     (case rd j (case old of [] \<Rightarrow> zero | x # _ \<Rightarrow> x) of
        None \<Rightarrow> None
      | Some x \<Rightarrow> map_option ((#) x) (readElements rd zero (tl old) js))"

definition readSlice :: "'a reader \<Rightarrow> 'a \<Rightarrow> 'a list reader" where
  "readSlice rd zero j old =
     (case j of JNull \<Rightarrow> Some [] | JArr js \<Rightarrow> readElements rd zero old js | _ \<Rightarrow> None)"

definition readPointer :: "'a reader \<Rightarrow> 'a \<Rightarrow> 'a option reader" where
  "readPointer rd zero j old =
     (if j = JNull then Some None else map_option Some (rd j (case old of None \<Rightarrow> zero | Some x \<Rightarrow> x)))"

text \<open>Name folding: the ASCII letters, the long s (U+017F) and the Kelvin sign (U+212A).\<close>

definition lowerASCII :: "char \<Rightarrow> char" where
  "lowerASCII c = (if 0x41 \<le> byte c \<and> byte c \<le> 0x5A then char_of (byte c + 0x20) else c)"

fun foldName :: "string \<Rightarrow> string" where
  "foldName [] = []"
| "foldName (c # t) =
     (if byte c = 0xC5 \<and> take 1 t = [CHR 0xBF] then CHR ''s'' # foldName (drop 1 t)
      else if byte c = 0xE2 \<and> take 2 t = [CHR 0x84, CHR 0xAA] then CHR ''k'' # foldName (drop 2 t)
      else lowerASCII c # foldName t)"

definition findField :: "(string \<times> 'a reader) list \<Rightarrow> string \<Rightarrow> 'a reader option" where
  "findField fds name =
     (case map_of fds name of
        Some rd \<Rightarrow> Some rd
      | None \<Rightarrow> map_of (map (\<lambda>(n, rd). (foldName n, rd)) fds) (foldName name))"

fun readMembers :: "(string \<times> 'a reader) list \<Rightarrow> (string \<times> json) list \<Rightarrow> 'a \<Rightarrow> 'a option" where
  "readMembers fds [] x = Some x"
| "readMembers fds ((name, j) # members) x =
     (case findField fds name of
        None \<Rightarrow> readMembers fds members x
      | Some rd \<Rightarrow> (case rd j x of None \<Rightarrow> None | Some y \<Rightarrow> readMembers fds members y))"

definition readStruct :: "(string \<times> 'a reader) list \<Rightarrow> 'a reader" where
  "readStruct fds j old =
     (case j of JNull \<Rightarrow> Some old | JObj members \<Rightarrow> readMembers fds members old | _ \<Rightarrow> None)"

definition jsonField :: "('a \<Rightarrow> 'b) \<Rightarrow> ('b \<Rightarrow> 'a \<Rightarrow> 'a) \<Rightarrow> 'b reader \<Rightarrow> 'a reader" where
  "jsonField get put rd j x = map_option (\<lambda>v. put v x) (rd j (get x))"

section \<open>The structs of a checkpoint\<close>

definition statusOf :: "string \<Rightarrow> Status" where
  "statusOf s =
     (if s = ''created'' then StatusCreated else if s = ''running_model'' then StatusRunningModel
      else if s = ''running_tool'' then StatusRunningTool else if s = ''completed'' then StatusCompleted
      else if s = ''failed'' then StatusFailed else if s = ''cancelled'' then StatusCancelled
      else StatusOther s)"

definition readStatus :: "Status reader" where
  "readStatus j old = map_option statusOf (readString j (statusText old))"

definition readToolCall :: "ToolCall reader" where
  "readToolCall = readStruct
     [(''ID'', jsonField tc_ID (\<lambda>v x. x\<lparr>tc_ID := v\<rparr>) readString),
      (''Name'', jsonField tc_Name (\<lambda>v x. x\<lparr>tc_Name := v\<rparr>) readString),
      (''Arguments'', jsonField tc_Arguments (\<lambda>v x. x\<lparr>tc_Arguments := v\<rparr>) readString)]"

definition readToolResult :: "ToolResult reader" where
  "readToolResult = readStruct
     [(''CallID'', jsonField tr_CallID (\<lambda>v x. x\<lparr>tr_CallID := v\<rparr>) readString),
      (''Output'', jsonField tr_Output (\<lambda>v x. x\<lparr>tr_Output := v\<rparr>) readString)]"

definition readStep :: "(int \<Rightarrow> bool) \<Rightarrow> Step reader" where
  "readStep fits = readStruct
     [(''Index'', jsonField sp_Index (\<lambda>v x. x\<lparr>sp_Index := v\<rparr>) (readInt fits)),
      (''Call'', jsonField sp_Call (\<lambda>v x. x\<lparr>sp_Call := v\<rparr>) readToolCall),
      (''Result'', jsonField sp_Result (\<lambda>v x. x\<lparr>sp_Result := v\<rparr>) readToolResult)]"

definition readTransition :: "Transition reader" where
  "readTransition = readStruct
     [(''From'', jsonField tn_From (\<lambda>v x. x\<lparr>tn_From := v\<rparr>) readStatus),
      (''To'', jsonField tn_To (\<lambda>v x. x\<lparr>tn_To := v\<rparr>) readStatus)]"

definition readRequest :: "Request reader" where
  "readRequest = readStruct
     [(''ExecutionID'', jsonField rq_ExecutionID (\<lambda>v x. x\<lparr>rq_ExecutionID := v\<rparr>) readString),
      (''Prompt'', jsonField rq_Prompt (\<lambda>v x. x\<lparr>rq_Prompt := v\<rparr>) readString)]"

definition zeroStep :: Step where
  "zeroStep = \<lparr>sp_Index = 0, sp_Call = zeroToolCall, sp_Result = \<lparr>tr_CallID = [], tr_Output = []\<rparr>\<rparr>"

definition zeroTransition :: Transition where
  "zeroTransition = \<lparr>tn_From = StatusOther [], tn_To = StatusOther []\<rparr>"

definition readResult :: "(int \<Rightarrow> bool) \<Rightarrow> Result reader" where
  "readResult fits = readStruct
     [(''ExecutionID'', jsonField rs_ExecutionID (\<lambda>v x. x\<lparr>rs_ExecutionID := v\<rparr>) readString),
      (''Status'', jsonField rs_Status (\<lambda>v x. x\<lparr>rs_Status := v\<rparr>) readStatus),
      (''Output'', jsonField rs_Output (\<lambda>v x. x\<lparr>rs_Output := v\<rparr>) readString),
      (''Steps'', jsonField rs_Steps (\<lambda>v x. x\<lparr>rs_Steps := v\<rparr>) (readSlice (readStep fits) zeroStep)),
      (''Transitions'', jsonField rs_Transitions (\<lambda>v x. x\<lparr>rs_Transitions := v\<rparr>)
         (readSlice readTransition zeroTransition))]"

definition readCheckpoint :: "(int \<Rightarrow> bool) \<Rightarrow> Checkpoint reader" where
  "readCheckpoint fits = readStruct
     [(''schema_version'', jsonField cp_SchemaVersion (\<lambda>v x. x\<lparr>cp_SchemaVersion := v\<rparr>) (readInt fits)),
      (''revision'', jsonField cp_Revision (\<lambda>v x. x\<lparr>cp_Revision := v\<rparr>) readUint64),
      (''execution_id'', jsonField cp_ExecutionID (\<lambda>v x. x\<lparr>cp_ExecutionID := v\<rparr>) readString),
      (''request'', jsonField cp_Request (\<lambda>v x. x\<lparr>cp_Request := v\<rparr>) readRequest),
      (''max_steps'', jsonField cp_MaxSteps (\<lambda>v x. x\<lparr>cp_MaxSteps := v\<rparr>) (readInt fits)),
      (''model_iterations'', jsonField cp_ModelIterations (\<lambda>v x. x\<lparr>cp_ModelIterations := v\<rparr>) (readInt fits)),
      (''max_model_retries'', jsonField cp_MaxModelRetries (\<lambda>v x. x\<lparr>cp_MaxModelRetries := v\<rparr>) (readInt fits)),
      (''model_retries'', jsonField cp_ModelRetries (\<lambda>v x. x\<lparr>cp_ModelRetries := v\<rparr>) (readInt fits)),
      (''result'', jsonField cp_Result (\<lambda>v x. x\<lparr>cp_Result := v\<rparr>) (readResult fits)),
      (''pending_tool'', jsonField cp_PendingTool (\<lambda>v x. x\<lparr>cp_PendingTool := v\<rparr>)
         (readPointer readToolCall zeroToolCall)),
      (''error'', jsonField cp_Error (\<lambda>v x. x\<lparr>cp_Error := v\<rparr>) readString)]"

text \<open>\<^verbatim>\<open>json.Unmarshal(data, &checkpoint)\<close> into a zero \<^verbatim>\<open>Checkpoint\<close>; \<open>None\<close> is an error.\<close>

definition unmarshalCheckpoint :: "(int \<Rightarrow> bool) \<Rightarrow> string \<Rightarrow> Checkpoint option" where
  "unmarshalCheckpoint fits data = (case parseJSON data of Malformed \<Rightarrow> None | Doc j \<Rightarrow> readCheckpoint fits j zeroCheckpoint)"

text \<open>The range of \<^verbatim>\<open>int\<close> and \<^verbatim>\<open>int64\<close> on a 64-bit platform.\<close>

definition fitsInt64 :: "int \<Rightarrow> bool" where
  "fitsInt64 n \<longleftrightarrow> - (2 ^ 63) \<le> n \<and> n < 2 ^ 63"

section \<open>Encoding\<close>

abbreviation jsonString :: "string \<Rightarrow> json" where
  "jsonString s \<equiv> JStr (coerceUTF8 s)"

definition jsonToolCall :: "ToolCall \<Rightarrow> json" where
  "jsonToolCall c = JObj [(''ID'', jsonString (tc_ID c)), (''Name'', jsonString (tc_Name c)),
     (''Arguments'', jsonString (tc_Arguments c))]"

definition jsonToolResult :: "ToolResult \<Rightarrow> json" where
  "jsonToolResult r = JObj [(''CallID'', jsonString (tr_CallID r)), (''Output'', jsonString (tr_Output r))]"

definition jsonStep :: "Step \<Rightarrow> json" where
  "jsonStep s = JObj [(''Index'', JNum (sp_Index s)), (''Call'', jsonToolCall (sp_Call s)),
     (''Result'', jsonToolResult (sp_Result s))]"

definition jsonTransition :: "Transition \<Rightarrow> json" where
  "jsonTransition t = JObj [(''From'', jsonString (statusText (tn_From t))), (''To'', jsonString (statusText (tn_To t)))]"

definition jsonRequest :: "Request \<Rightarrow> json" where
  "jsonRequest r = JObj [(''ExecutionID'', jsonString (rq_ExecutionID r)), (''Prompt'', jsonString (rq_Prompt r))]"

definition jsonResult :: "Result \<Rightarrow> json" where
  "jsonResult r = JObj [(''ExecutionID'', jsonString (rs_ExecutionID r)),
     (''Status'', jsonString (statusText (rs_Status r))), (''Output'', jsonString (rs_Output r)),
     (''Steps'', JArr (map jsonStep (rs_Steps r))), (''Transitions'', JArr (map jsonTransition (rs_Transitions r)))]"

text \<open>A member with the option \<^verbatim>\<open>omitempty\<close>.\<close>

abbreviation omitEmpty :: "bool \<Rightarrow> string \<Rightarrow> json \<Rightarrow> (string \<times> json) list" where
  "omitEmpty isEmpty name j \<equiv> if isEmpty then [] else [(name, j)]"

definition marshalCheckpoint :: "Checkpoint \<Rightarrow> json" where
  "marshalCheckpoint cp = JObj
     ([(''schema_version'', JNum (cp_SchemaVersion cp))] @
      omitEmpty (cp_Revision cp = 0) ''revision'' (JNum (uint (cp_Revision cp))) @
      [(''execution_id'', jsonString (cp_ExecutionID cp)), (''request'', jsonRequest (cp_Request cp)),
       (''max_steps'', JNum (cp_MaxSteps cp)), (''model_iterations'', JNum (cp_ModelIterations cp))] @
      omitEmpty (cp_MaxModelRetries cp = 0) ''max_model_retries'' (JNum (cp_MaxModelRetries cp)) @
      omitEmpty (cp_ModelRetries cp = 0) ''model_retries'' (JNum (cp_ModelRetries cp)) @
      [(''result'', jsonResult (cp_Result cp))] @
      (case cp_PendingTool cp of None \<Rightarrow> [] | Some call \<Rightarrow> [(''pending_tool'', jsonToolCall call)]) @
      omitEmpty (cp_Error cp = []) ''error'' (jsonString (cp_Error cp)))"

text \<open>\<^verbatim>\<open>json.Marshal(checkpoint)\<close>\<close>

definition encodeCheckpoint :: "Checkpoint \<Rightarrow> string" where
  "encodeCheckpoint cp = printJSON (marshalCheckpoint cp)"

section \<open>Round trip\<close>

text \<open>The text of a checkpoint is read back as the document it was printed from.\<close>

lemma coerceUTF8_idem [simp]: "coerceUTF8 (coerceUTF8 s) = coerceUTF8 s"
  by (rule coerceUTF8_valid [OF coerceUTF8_is_valid])

lemma coercedJSON_parts:
  "coercedJSON (jsonToolCall c) = jsonToolCall c" "coercedJSON (jsonStep s) = jsonStep s"
  "coercedJSON (jsonTransition t) = jsonTransition t" "coercedJSON (jsonRequest q) = jsonRequest q"
  "coercedJSON (jsonResult r) = jsonResult r"
  by (simp_all add: jsonToolCall_def jsonStep_def jsonToolResult_def jsonTransition_def jsonRequest_def jsonResult_def
      coerceUTF8_valid validString_ASCII comp_def)

lemma checkpoint_coerced: "coercedJSON (marshalCheckpoint cp) = marshalCheckpoint cp"
  by (simp add: marshalCheckpoint_def coercedJSON_parts coerceUTF8_valid validString_ASCII split: option.splits)

lemma parse_encode: "parseJSON (encodeCheckpoint cp) = Doc (marshalCheckpoint cp)"
proof -
  have n: "numbersRead (marshalCheckpoint cp)"
    by (cases "cp_PendingTool cp") (auto simp: marshalCheckpoint_def jsonToolCall_def jsonStep_def jsonToolResult_def
        jsonTransition_def jsonRequest_def jsonResult_def list_all_iff)
  have parts: "nesting (jsonToolCall c) = 1" "nesting (jsonStep s) = 2" "nesting (jsonTransition t) = 1" "nesting (jsonRequest q) = 1"
    for c s t q
    by (simp_all add: jsonToolCall_def jsonStep_def jsonToolResult_def jsonTransition_def jsonRequest_def)
  have "nesting (jsonResult r) \<le> 4" for r
    using fold_max_bound [of nesting "map jsonStep (rs_Steps r)" 0 2]
      fold_max_bound [of nesting "map jsonTransition (rs_Transitions r)" 0 1]
    by (simp add: jsonResult_def parts comp_def)
  with parts have "nesting (marshalCheckpoint cp) \<le> maxNestingDepth"
    by (auto simp: marshalCheckpoint_def fold_max_bound maxNestingDepth_def le_Suc_eq split: option.splits
        intro: order_trans [of _ 4])
  from parse_print [OF n this] show ?thesis by (simp add: encodeCheckpoint_def checkpoint_coerced)
qed

text \<open>Structural facts of the decoder, so that no proof below looks at names twice.\<close>

lemma readMembers_hit:
  "map_of fds name = Some (jsonField get put rd) \<Longrightarrow> rd j (get x) = Some v \<Longrightarrow>
   readMembers fds ((name, j) # members) x = readMembers fds members (put v x)"
  by (simp add: findField_def jsonField_def)

lemma readMembers_omitted:
  assumes "map_of fds name = Some (jsonField get put rd)" and "\<not> isEmpty \<Longrightarrow> rd j (get x) = Some v"
    and "isEmpty \<Longrightarrow> put v x = x"
  shows "readMembers fds (omitEmpty isEmpty name j @ members) x = readMembers fds members (put v x)"
  using assms by (cases isEmpty) (simp_all add: readMembers_hit del: readMembers.simps)

lemma readString_coerced [simp]: "validString s \<Longrightarrow> readString (jsonString s) old = Some s"
  by (simp add: readString_def coerceUTF8_valid)

lemma readInt_JNum [simp]: "fits n \<Longrightarrow> readInt fits (JNum n) old = Some n"
  by (simp add: readInt_def)

lemma readUint64_uint [simp]: "readUint64 (JNum (uint w)) old = Some w"
  using uint_lt2p [of w] by (simp add: readUint64_def)

lemma readElements_map:
  "(\<And>x. x \<in> set xs \<Longrightarrow> rd (enc x) zero = Some x) \<Longrightarrow> readElements rd zero [] (map enc xs) = Some xs"
  by (induction xs) auto

definition known :: "Status \<Rightarrow> bool" where
  "known st \<longleftrightarrow> st \<in> {StatusCreated, StatusRunningModel, StatusRunningTool, StatusCompleted, StatusFailed, StatusCancelled}"

lemma ascii_valid: "list_all (\<lambda>c. byte c < 0x80) s \<Longrightarrow> validString s"
  by (induction s) (auto simp: validString_ASCII)

lemma readStatus_known [simp]: "known st \<Longrightarrow> readStatus (jsonString (statusText st)) old = Some st"
proof -
  assume "known st"
  then have "validString (statusText st)" "statusOf (statusText st) = st"
    by (auto simp: known_def statusOf_def intro!: ascii_valid)
  then show ?thesis by (simp add: readStatus_def)
qed

lemma readToolCall_json [simp]:
  "list_all validString (callStrings c) \<Longrightarrow> readToolCall (jsonToolCall c) zeroToolCall = Some c"
  by (simp add: readToolCall_def jsonToolCall_def readStruct_def findField_def jsonField_def zeroToolCall_def)

lemma readToolResult_json:
  "validString (tr_CallID r) \<Longrightarrow> validString (tr_Output r) \<Longrightarrow>
   readToolResult (jsonToolResult r) \<lparr>tr_CallID = [], tr_Output = []\<rparr> = Some r"
  by (simp add: readToolResult_def jsonToolResult_def readStruct_def findField_def jsonField_def)

lemma readStep_json:
  assumes "fits (sp_Index s)" and "list_all validString (callStrings (sp_Call s))"
    and "validString (tr_CallID (sp_Result s))" "validString (tr_Output (sp_Result s))"
  shows "readStep fits (jsonStep s) zeroStep = Some s"
proof -
  note readToolResult_json [OF assms(3,4)] readToolCall_json [OF assms(2)]
  with assms(1) show ?thesis
    by (simp add: readStep_def jsonStep_def readStruct_def findField_def jsonField_def zeroStep_def)
qed

lemma readTransition_json:
  "known (tn_From t) \<Longrightarrow> known (tn_To t) \<Longrightarrow> readTransition (jsonTransition t) zeroTransition = Some t"
  by (simp add: readTransition_def jsonTransition_def readStruct_def findField_def jsonField_def zeroTransition_def)

lemma readRequest_json:
  "validString (rq_ExecutionID r) \<Longrightarrow> validString (rq_Prompt r) \<Longrightarrow>
   readRequest (jsonRequest r) \<lparr>rq_ExecutionID = [], rq_Prompt = []\<rparr> = Some r"
  by (simp add: readRequest_def jsonRequest_def readStruct_def findField_def jsonField_def)

text \<open>What the encoder preserves: valid strings, known statuses, numbers in range.\<close>

definition encodable :: "(int \<Rightarrow> bool) \<Rightarrow> Checkpoint \<Rightarrow> bool" where
  "encodable fits cp \<longleftrightarrow>
     list_all fits [cp_SchemaVersion cp, cp_MaxSteps cp, cp_ModelIterations cp, cp_MaxModelRetries cp, cp_ModelRetries cp] \<and>
     list_all (\<lambda>s. fits (sp_Index s)) (cp_Steps cp) \<and>
     list_all validString (checkpointStrings cp) \<and>
     validString (rq_ExecutionID (cp_Request cp)) \<and> validString (rs_ExecutionID (cp_Result cp)) \<and>
     known (cp_Status cp) \<and> list_all (\<lambda>t. known (tn_From t) \<and> known (tn_To t)) (cp_Transitions cp)"

lemma readResult_json:
  assumes "encodable fits cp"
  shows "readResult fits (jsonResult (cp_Result cp)) zeroResult = Some (cp_Result cp)"
proof -
  from assms have "readElements (readStep fits) zeroStep [] (map jsonStep (cp_Steps cp)) = Some (cp_Steps cp)"
    by (intro readElements_map readStep_json)
       (auto simp: encodable_def list_all_iff checkpointStrings_def)
  moreover from assms have "readElements readTransition zeroTransition [] (map jsonTransition (cp_Transitions cp)) =
      Some (cp_Transitions cp)"
    by (intro readElements_map readTransition_json) (auto simp: encodable_def list_all_iff)
  ultimately show ?thesis using assms
    by (simp add: readResult_def jsonResult_def readStruct_def findField_def jsonField_def zeroResult_def readSlice_def
        encodable_def checkpointStrings_def)
qed

lemma unmarshal_marshal:
  assumes "encodable fits cp"
  shows "unmarshalCheckpoint fits (encodeCheckpoint cp) = Some cp"
proof -
  from assms have "readRequest (jsonRequest (cp_Request cp)) \<lparr>rq_ExecutionID = [], rq_Prompt = []\<rparr> = Some (cp_Request cp)"
    by (intro readRequest_json) (auto simp: encodable_def checkpointStrings_def)
  moreover from assms have "readToolCall (jsonToolCall call) zeroToolCall = Some call \<and> jsonToolCall call \<noteq> JNull"
    if "cp_PendingTool cp = Some call" for call
    using that by (intro conjI readToolCall_json) (simp_all add: encodable_def checkpointStrings_def, simp add: jsonToolCall_def)
  moreover note readResult_json [OF assms]
  ultimately show ?thesis using assms
    by (auto simp: unmarshalCheckpoint_def parse_encode readCheckpoint_def marshalCheckpoint_def readStruct_def findField_def
        jsonField_def zeroCheckpoint_def readPointer_def encodable_def checkpointStrings_def split: option.splits)
qed

text \<open>Validated checkpoints are encodable: this is what the UTF-8 check of \<^verbatim>\<open>validateCheckpoint\<close> is for.\<close>

lemma followTransitions_known:
  "followTransitions st ts = Some st' \<Longrightarrow> known st \<Longrightarrow> known st' \<and> list_all (\<lambda>t. known (tn_From t) \<and> known (tn_To t)) ts"
proof (induction st ts rule: followTransitions.induct)
  case (2 st t ts)
  then have "known (tn_To t)" by (cases st) (auto simp: known_def split: if_splits)
  with 2 show ?case by (auto split: if_splits)
qed simp

lemma valid_encodable_in:
  assumes "validateCheckpoint cp = None"
    and "list_all fits [cp_SchemaVersion cp, cp_MaxSteps cp, cp_ModelIterations cp, cp_MaxModelRetries cp, cp_ModelRetries cp]"
    and "list_all (\<lambda>s. fits (sp_Index s)) (cp_Steps cp)"
  shows "encodable fits cp"
proof -
  have wf: "wfCheckpoint cp" using assms(1) validateCheckpoint_iff by blast
  then have "known (cp_Status cp) \<and> list_all (\<lambda>t. known (tn_From t) \<and> known (tn_To t)) (cp_Transitions cp)"
    by (intro followTransitions_known [of StatusCreated]) (auto simp: wfCheckpoint_def known_def)
  moreover have "cp_ExecutionID cp \<in> set (checkpointStrings cp)" by (simp add: checkpointStrings_def)
  ultimately show ?thesis
    using wf assms(2,3) by (auto simp: encodable_def wfCheckpoint_def list_all_iff)
qed

lemma valid_encodable_any: "validateCheckpoint cp = None \<Longrightarrow> encodable (\<lambda>_. True) cp"
  by (rule valid_encodable_in) (auto simp: list_all_iff)

text \<open>The integer fields that validation does not bound hold Go integers.\<close>

definition goInts :: "Checkpoint \<Rightarrow> bool" where
  "goInts cp \<longleftrightarrow> fitsInt64 (cp_MaxSteps cp) \<and> fitsInt64 (cp_MaxModelRetries cp) \<and> list_all (\<lambda>s. fitsInt64 (sp_Index s)) (cp_Steps cp)"

lemma valid_encodable: "validateCheckpoint cp = None \<Longrightarrow> goInts cp \<Longrightarrow> encodable fitsInt64 cp"
  by (rule valid_encodable_in)
     (auto simp: validateCheckpoint_iff wfCheckpoint_def goInts_def fitsInt64_def CheckpointSchemaVersion_def)

text \<open>Without the range checks the decoder accepts more and decodes the same.\<close>

definition extendsReader :: "'a reader \<Rightarrow> 'a reader \<Rightarrow> bool" where
  "extendsReader rd rd' \<longleftrightarrow> (\<forall>j x y. rd j x = Some y \<longrightarrow> rd' j x = Some y)"

abbreviation extendsFields :: "(string \<times> 'a reader) list \<Rightarrow> (string \<times> 'a reader) list \<Rightarrow> bool" where
  "extendsFields fds fds' \<equiv> list_all2 (\<lambda>(n, rd) (n', rd'). n = n' \<and> extendsReader rd rd') fds fds'"

lemma extendsReader_refl [simp]: "extendsReader rd rd"
  by (simp add: extendsReader_def)

lemma extendsReader_readInt [simp]: "extendsReader (readInt fits) (readInt (\<lambda>_. True))"
  by (auto simp: extendsReader_def readInt_def split: json.splits if_splits)

lemma extendsReader_jsonField: "extendsReader rd rd' \<Longrightarrow> extendsReader (jsonField get put rd) (jsonField get put rd')"
  by (auto simp: extendsReader_def jsonField_def)

lemma readElements_extends:
  "extendsReader rd rd' \<Longrightarrow> readElements rd zero old js = Some xs \<Longrightarrow> readElements rd' zero old js = Some xs"
  by (induction rd zero old js arbitrary: xs rule: readElements.induct)
     (auto simp: extendsReader_def split: option.splits)

lemma extendsReader_readSlice: "extendsReader rd rd' \<Longrightarrow> extendsReader (readSlice rd zero) (readSlice rd' zero)"
  by (auto simp: extendsReader_def [of "readSlice rd zero"] readSlice_def intro: readElements_extends split: json.splits)

lemma map_of_extends:
  "extendsFields fds fds' \<Longrightarrow> rel_option extendsReader (map_of (map (\<lambda>(n, rd). (f n, rd)) fds) k) (map_of (map (\<lambda>(n, rd). (f n, rd)) fds') k)"
  by (induction fds fds' rule: list_all2_induct) auto

lemma findField_extends: "extendsFields fds fds' \<Longrightarrow> rel_option extendsReader (findField fds n) (findField fds' n)"
  using map_of_extends [of fds fds' "\<lambda>n. n" n] map_of_extends [of fds fds' foldName "foldName n"]
  by (auto simp: findField_def option_rel_Some1 option_rel_Some2 split: option.splits)

lemma readMembers_extends:
  assumes "extendsFields fds fds'" and "readMembers fds ms x = Some y"
  shows "readMembers fds' ms x = Some y"
  using assms(2)
proof (induction ms arbitrary: x)
  case (Cons m ms)
  obtain n j where m: "m = (n, j)" by force
  from findField_extends [OF assms(1), of n] Cons show ?case
    by (auto simp: m extendsReader_def split: option.splits elim!: option.rel_cases)
qed simp

lemma extendsReader_readStruct: "extendsFields fds fds' \<Longrightarrow> extendsReader (readStruct fds) (readStruct fds')"
  by (auto simp: extendsReader_def [of "readStruct fds"] readStruct_def intro: readMembers_extends split: json.splits)

lemma readCheckpoint_extends: "extendsReader (readCheckpoint fits) (readCheckpoint (\<lambda>_. True))"
proof -
  have "extendsReader (readStep fits) (readStep (\<lambda>_. True))"
    unfolding readStep_def by (rule extendsReader_readStruct) (simp add: extendsReader_jsonField)
  then have "extendsReader (readResult fits) (readResult (\<lambda>_. True))"
    unfolding readResult_def by (intro extendsReader_readStruct) (simp add: extendsReader_jsonField extendsReader_readSlice)
  then show ?thesis
    unfolding readCheckpoint_def by (intro extendsReader_readStruct) (simp add: extendsReader_jsonField)
qed

lemma unmarshal_own:
  assumes "unmarshalCheckpoint fits (encodeCheckpoint cp) = Some cp'" and "validateCheckpoint cp = None"
  shows "cp' = cp"
proof -
  from assms(1) readCheckpoint_extends [of fits] have "unmarshalCheckpoint (\<lambda>_. True) (encodeCheckpoint cp) = Some cp'"
    by (simp add: unmarshalCheckpoint_def parse_encode extendsReader_def)
  with unmarshal_marshal [OF valid_encodable_any [OF assms(2)]] show ?thesis by simp
qed

section \<open>What readers preserve\<close>

definition preserves :: "('a \<Rightarrow> bool) \<Rightarrow> 'a reader \<Rightarrow> bool" where
  "preserves P rd \<longleftrightarrow> (\<forall>j x y. P x \<longrightarrow> rd j x = Some y \<longrightarrow> P y)"

lemma preserves_readString: "preserves validString readString"
  by (auto simp: preserves_def readString_def coerceUTF8_is_valid split: json.splits)

lemma preserves_jsonField:
  assumes "preserves Q rd" and "\<And>x. P x \<Longrightarrow> Q (get x)" and "\<And>x v. P x \<Longrightarrow> Q v \<Longrightarrow> P (put v x)"
  shows "preserves P (jsonField get put rd)"
  using assms by (fastforce simp: preserves_def jsonField_def)

lemma readElements_preserves:
  "preserves Q rd \<Longrightarrow> Q zero \<Longrightarrow> list_all Q old \<Longrightarrow> readElements rd zero old js = Some xs \<Longrightarrow> list_all Q xs"
proof (induction rd zero old js arbitrary: xs rule: readElements.induct)
  case (2 rd zero old j js)
  have q: "Q (case old of [] \<Rightarrow> zero | x # _ \<Rightarrow> x)" using "2.prems"(2,3) by (cases old) auto
  have t: "list_all Q (tl old)" using "2.prems"(3) by (cases old) auto
  from "2.prems"(4) obtain x xs' where x: "rd j (case old of [] \<Rightarrow> zero | x # _ \<Rightarrow> x) = Some x"
      "readElements rd zero (tl old) js = Some xs'" "xs = x # xs'"
    by (auto split: option.splits)
  have "Q x" using "2.prems"(1) q x(1) by (auto simp: preserves_def)
  with "2.IH" [OF x(1) "2.prems"(1,2) t x(2)] x(3) show ?case by simp
qed simp

lemma preserves_readSlice: "preserves Q rd \<Longrightarrow> Q zero \<Longrightarrow> preserves (list_all Q) (readSlice rd zero)"
  unfolding preserves_def [of "list_all Q"] readSlice_def
  by (auto split: json.splits dest: readElements_preserves)

lemma preserves_readPointer: "preserves Q rd \<Longrightarrow> Q zero \<Longrightarrow> preserves (pred_option Q) (readPointer rd zero)"
  by (fastforce simp: preserves_def readPointer_def split: option.splits if_splits)

lemma map_of_preserves:
  "list_all (\<lambda>(n, rd). preserves P rd) fds \<Longrightarrow> map_of (map (\<lambda>(n, rd). (f n, rd)) fds) k = Some rd \<Longrightarrow> preserves P rd"
  by (induction fds) (auto split: if_splits)

lemma findField_preserves:
  "list_all (\<lambda>(n, rd). preserves P rd) fds \<Longrightarrow> findField fds n = Some rd \<Longrightarrow> preserves P rd"
  using map_of_preserves [of P fds "\<lambda>n. n" n rd] map_of_preserves [of P fds foldName "foldName n" rd]
  by (auto simp: findField_def split: option.splits)

lemma readMembers_preserves:
  "list_all (\<lambda>(n, rd). preserves P rd) fds \<Longrightarrow> P x \<Longrightarrow> readMembers fds ms x = Some y \<Longrightarrow> P y"
proof (induction ms arbitrary: x)
  case (Cons m ms)
  obtain n j where m: "m = (n, j)" by force
  show ?case
  proof (cases "findField fds n")
    case None
    with Cons m show ?thesis by simp
  next
    case (Some rd)
    then have "preserves P rd" using findField_preserves [OF Cons.prems(1)] by blast
    with Cons m Some show ?thesis by (auto simp: preserves_def split: option.splits)
  qed
qed simp

lemma preserves_readStruct: "list_all (\<lambda>(n, rd). preserves P rd) fds \<Longrightarrow> preserves P (readStruct fds)"
  unfolding preserves_def [of P "readStruct fds"] readStruct_def
  by (auto split: json.splits dest: readMembers_preserves)

text \<open>Invalid strings leave a trace above ASCII, so that an ASCII name is only written for itself.\<close>

lemma coerceUTF8_invalid: "\<not> validString s \<Longrightarrow> \<exists>c \<in> set (coerceUTF8 s). 0x80 \<le> byte c"
proof (induction s rule: coerceUTF8.induct)
  case (1 s)
  then obtain c t where s: "s = c # t" by (cases s) auto
  show ?case
  proof (cases "decodeRune s")
    case None
    with s show ?thesis by (subst coerceUTF8.simps) (simp add: replacementRune_def)
  next
    case (Some rw)
    obtain r w where rw: "rw = (r, w)" by force
    then have "\<not> validString (drop w s)" using "1.prems" Some by (subst (asm) validString.simps) simp
    from "1.IH"(2) [OF s Some rw [symmetric] this] Some rw s show ?thesis by (subst coerceUTF8.simps) auto
  qed
qed

lemma coerceUTF8_ascii: "coerceUTF8 s = a \<Longrightarrow> list_all (\<lambda>c. byte c < 0x80) a \<Longrightarrow> s = a"
  using coerceUTF8_invalid [of s] coerceUTF8_valid [of s]
  by (cases "validString s") (force simp: list_all_iff not_le [symmetric])+

section \<open>Loading\<close>

text \<open>What \<^verbatim>\<open>Load\<close> does with the text it has read, in the file store and in the SQLite store.\<close>

definition decodeCheckpoint :: "store_call \<Rightarrow> string \<Rightarrow> string \<Rightarrow> goerr + Checkpoint" where
  "decodeCheckpoint c executionID data =
     (case unmarshalCheckpoint fitsInt64 data of
        None \<Rightarrow> Inl (Errorf [W (Sentinel ErrInvalidCheckpoint), Lit '': '', W (sc_json c)])
      | Some checkpoint \<Rightarrow>
          (case validateCheckpoint checkpoint of
             Some err \<Rightarrow> Inl err
           | None \<Rightarrow>
               if cp_ExecutionID checkpoint \<noteq> executionID
               then Inl (errMsg ErrInvalidCheckpoint ''execution ID mismatch'')
               else Inr checkpoint))"

lemma decodeCheckpoint_marshal:
  assumes "validateCheckpoint cp = None" and "goInts cp"
  shows "decodeCheckpoint c (cp_ExecutionID cp) (encodeCheckpoint cp) = Inr cp"
  using unmarshal_marshal [OF valid_encodable [OF assms]] assms(1) by (simp add: decodeCheckpoint_def)

lemma decodeCheckpoint_sound:
  "decodeCheckpoint c i d = Inr cp \<Longrightarrow> validateCheckpoint cp = None \<and> cp_ExecutionID cp = i \<and>
     unmarshalCheckpoint fitsInt64 d = Some cp"
  by (auto simp: decodeCheckpoint_def split: option.splits if_splits)

end
