(* ===== verification/Store_Contract.thy ===== *)
theory Store_Contract
  imports Json_Codec
begin

text \<open>
  The contract of \<^verbatim>\<open>CheckpointStore\<close> (\<^verbatim>\<open>checkpoint.go\<close>) as a locale: \<^verbatim>\<open>Create\<close> rejects an existing execution,
  \<^verbatim>\<open>Save\<close> replaces an existing record by a newer revision, other executions are untouched, a failed write
  may or may not have taken effect, and \<^verbatim>\<open>Load\<close> returns the stored checkpoint. What follows for any
  sequence of writes is proved here once for all stores.
\<close>

text \<open>A write that takes effect.\<close>

definition replaces :: "(string \<Rightarrow> 's \<Rightarrow> Checkpoint option) \<Rightarrow> bool \<Rightarrow> Checkpoint \<Rightarrow> 's \<Rightarrow> 's \<Rightarrow> bool" where
  "replaces stored create cp s s' \<longleftrightarrow>
     validateCheckpoint cp = None \<and>
     (if create then stored (cp_ExecutionID cp) s = None
      else \<exists>cur. stored (cp_ExecutionID cp) s = Some cur \<and> (cp_Revision cur = 0 \<or> cp_Revision cur < cp_Revision cp)) \<and>
     stored (cp_ExecutionID cp) s' = Some cp \<and> (\<forall>j. j \<noteq> cp_ExecutionID cp \<longrightarrow> stored j s' = stored j s)"

text \<open>A call with a live context whose system calls and queries succeed.\<close>

definition undisturbed :: "store_call \<Rightarrow> bool" where
  "undisturbed c \<longleftrightarrow> \<not> sc_nil c \<and> (\<forall>n. sc_err c n = None) \<and> (\<forall>op. sc_io c op = None)"

text \<open>A sequence of writes and the checkpoints the store has acknowledged.\<close>

type_synonym 's writer = "bool \<Rightarrow> store_call \<Rightarrow> Checkpoint \<Rightarrow> 's \<Rightarrow> 's \<times> goerr option"

fun writeAll :: "'s writer \<Rightarrow> (bool \<times> store_call \<times> Checkpoint) list \<Rightarrow> 's \<Rightarrow> 's \<times> Checkpoint list" where
  "writeAll publish [] s = (s, [])"
| "writeAll publish ((create, c, cp) # ws) s =
     (case publish create c cp s of (s', res) \<Rightarrow>
        (case writeAll publish ws s' of (s'', acks) \<Rightarrow> (s'', if res = None then cp # acks else acks)))"

definition atLeast :: "Checkpoint \<Rightarrow> Checkpoint \<Rightarrow> bool" where
  "atLeast cp cur \<longleftrightarrow> cp_Revision cp = 0 \<or> cp_Revision cp \<le> cp_Revision cur"

lemma atLeast_trans: "atLeast a b \<Longrightarrow> cp_Revision b = 0 \<or> cp_Revision b < cp_Revision c \<Longrightarrow> atLeast a c"
  by (auto simp: atLeast_def)

locale checkpoint_store =
  fixes publish :: "'s writer"
    and load :: "store_call \<Rightarrow> string \<Rightarrow> 's \<Rightarrow> goerr + Checkpoint"
    and good :: "'s \<Rightarrow> bool"
    and stored :: "string \<Rightarrow> 's \<Rightarrow> Checkpoint option"
  assumes write_ok: "good s \<Longrightarrow> publish create c cp s = (s', None) \<Longrightarrow> good s' \<and> replaces stored create cp s s'"
    and write_error: "good s \<Longrightarrow> publish create c cp s = (s', Some e) \<Longrightarrow>
      good s' \<and> (replaces stored create cp s s' \<or> (\<forall>j. stored j s' = stored j s))"
    and load_sound: "good s \<Longrightarrow> load c i s = Inr cp \<Longrightarrow> stored i s = Some cp"
    and load_ready: "good s \<Longrightarrow> stored i s = Some cp \<Longrightarrow> goInts cp \<Longrightarrow> i \<noteq> [] \<Longrightarrow> undisturbed c \<Longrightarrow> load c i s = Inr cp"
begin

lemma write_good: "good s \<Longrightarrow> publish create c cp s = (s', res) \<Longrightarrow> good s'"
  by (cases res) (blast dest: write_ok write_error)+

lemma write_keeps:
  assumes "good s" and "publish create c cp s = (s', res)" and "stored i s = Some cur" and "atLeast a cur"
  shows "\<exists>cur'. stored i s' = Some cur' \<and> atLeast a cur'"
proof -
  from assms(1,2) write_ok write_error have "replaces stored create cp s s' \<or> stored i s' = stored i s"
    by (cases res) blast+
  then show ?thesis
  proof
    assume r: "replaces stored create cp s s'"
    show ?thesis
    proof (cases "cp_ExecutionID cp = i")
      case True
      with r assms(3) have "stored i s' = Some cp" "cp_Revision cur = 0 \<or> cp_Revision cur < cp_Revision cp"
        by (auto simp: replaces_def split: if_splits)
      with assms(4) atLeast_trans show ?thesis by blast
    next
      case False
      with r assms(3,4) show ?thesis by (auto simp: replaces_def)
    qed
  qed (use assms(3,4) in simp)
qed

lemma writeAll_good: "good s \<Longrightarrow> writeAll publish ws s = (s', acks) \<Longrightarrow> good s'"
proof (induction ws arbitrary: s acks)
  case (Cons w ws)
  obtain create c cp where w: "w = (create, c, cp)" by (metis surj_pair)
  obtain s1 res where p: "publish create c cp s = (s1, res)" by force
  obtain acks' where "writeAll publish ws s1 = (s', acks')" using Cons.prems(2) w p by (auto split: prod.splits)
  with Cons.IH write_good [OF Cons.prems(1) p] show ?case by blast
qed simp

lemma writeAll_keeps:
  "good s \<Longrightarrow> writeAll publish ws s = (s', acks) \<Longrightarrow> stored i s = Some cur \<Longrightarrow> atLeast a cur \<Longrightarrow>
   \<exists>cur'. stored i s' = Some cur' \<and> atLeast a cur'"
proof (induction ws arbitrary: s acks cur)
  case (Cons w ws)
  obtain create c cp where w: "w = (create, c, cp)" by (metis surj_pair)
  obtain s1 res where p: "publish create c cp s = (s1, res)" by force
  obtain acks' where q: "writeAll publish ws s1 = (s', acks')" using Cons.prems(2) w p by (auto split: prod.splits)
  obtain cur' where "stored i s1 = Some cur'" "atLeast a cur'"
    using write_keeps [OF Cons.prems(1) p Cons.prems(3,4)] by blast
  with Cons.IH [OF write_good [OF Cons.prems(1) p] q] show ?case by blast
qed auto

text \<open>No acknowledged checkpoint is lost, whatever happened to other writes.\<close>

lemma acknowledged_stored:
  "good s \<Longrightarrow> writeAll publish ws s = (s', acks) \<Longrightarrow> a \<in> set acks \<Longrightarrow>
   \<exists>cur. stored (cp_ExecutionID a) s' = Some cur \<and> atLeast a cur"
proof (induction ws arbitrary: s acks)
  case (Cons w ws)
  obtain create c cp where w: "w = (create, c, cp)" by (metis surj_pair)
  obtain s1 res where p: "publish create c cp s = (s1, res)" by force
  obtain acks' where q: "writeAll publish ws s1 = (s', acks')" "acks = (if res = None then cp # acks' else acks')"
    using Cons.prems(2) w p by (auto split: prod.splits)
  have g: "good s1" by (rule write_good [OF Cons.prems(1) p])
  show ?case
  proof (cases "a \<in> set acks'")
    case True
    with Cons.IH [OF g q(1)] show ?thesis by blast
  next
    case False
    with q(2) Cons.prems(3) have "res = None" "a = cp" by (auto split: if_splits)
    with write_ok [OF Cons.prems(1)] p have "stored (cp_ExecutionID a) s1 = Some a" by (auto simp: replaces_def)
    from writeAll_keeps [OF g q(1) this] show ?thesis by (simp add: atLeast_def)
  qed
qed simp

lemma load_after_writes:
  assumes "good s" and "writeAll publish ws s = (s', acks)" and "a \<in> set acks" and "load c (cp_ExecutionID a) s' = Inr cp"
  shows "atLeast a cp"
  using acknowledged_stored [OF assms(1-3)] load_sound [OF writeAll_good [OF assms(1,2)] assms(4)] by auto

text \<open>A write that is acknowledged is read back unchanged.\<close>

lemma load_after_write:
  assumes "good s" and "publish create c cp s = (s', None)" and "goInts cp" and "undisturbed d"
  shows "load d (cp_ExecutionID cp) s' = Inr cp"
proof -
  have w: "good s'" "replaces stored create cp s s'" using write_ok [OF assms(1,2)] by auto
  then have "stored (cp_ExecutionID cp) s' = Some cp" "validateCheckpoint cp = None" by (auto simp: replaces_def)
  then show ?thesis
    by (intro load_ready [OF w(1) _ assms(3) _ assms(4)]) (auto simp: validateCheckpoint_iff wfCheckpoint_def)
qed

lemma write_elsewhere:
  assumes "good s" and "publish create c cp s = (s', res)" and "j \<noteq> cp_ExecutionID cp"
  shows "stored j s' = stored j s"
  using assms(3) write_ok [OF assms(1)] write_error [OF assms(1)] assms(2)
  by (cases res) (fastforce simp: replaces_def)+

end

end
