(* ===== verification/Leases.thy ===== *)
theory Leases
  imports Store_Contract
begin

text \<open>
  The contract of leases and fencing (\<^verbatim>\<open>ExecutionLeaser\<close>, \<^verbatim>\<open>FencedCheckpointStore\<close> and
  \<^verbatim>\<open>ExecutionLeaseRenewer\<close>, \<^verbatim>\<open>execution_lease.go\<close>) as a locale, and what follows from it for any number
  of workers that use one store in any order.

  \<open>leaseStep\<close> is one atomic store operation of some worker: stores serialise their operations (a
  mutex, a database transaction). A release function may be called at any time after its acquisition
  and more than once; clocks differ from call to call. \<open>leaseRun\<close> is a sequence of such steps with the
  history of what they did.
\<close>

section \<open>Workers sharing a store\<close>

datatype lease_event =
    Acquired string uint64
  | Denied string
  | Released string uint64
  | RenewedLease string uint64
  | NotRenewed string uint64
  | Published bool Checkpoint uint64
  | Refused bool Checkpoint uint64

text \<open>The store state with the release functions handed out so far.\<close>

type_synonym 's lease_system = "'s \<times> (string \<times> uint64 \<times> 's release) list"

inductive leaseStep :: "'s CheckpointStore \<Rightarrow> 's lease_system \<Rightarrow> lease_event \<Rightarrow> 's lease_system \<Rightarrow> bool"
  for st :: "'s CheckpointStore" where
  acquired:
    "st_AcquireExecutionLease st = Some acquire \<Longrightarrow> acquire c i s = (s', Inr (tok, Some rel)) \<Longrightarrow>
     leaseStep st (s, rels) (Acquired i tok) (s', (i, tok, rel) # rels)"
| denied:
    "st_AcquireExecutionLease st = Some acquire \<Longrightarrow> acquire c i s = (s', Inl e) \<Longrightarrow>
     leaseStep st (s, rels) (Denied i) (s', rels)"
| released:
    "(i, tok, rel) \<in> set rels \<Longrightarrow> leaseStep st (s, rels) (Released i tok) (rel c s, rels)"
| renewed:
    "st_Renewer st = Some (renew, interval) \<Longrightarrow> renew c i tok s = (s', None) \<Longrightarrow>
     leaseStep st (s, rels) (RenewedLease i tok) (s', rels)"
| notRenewed:
    "st_Renewer st = Some (renew, interval) \<Longrightarrow> renew c i tok s = (s', Some e) \<Longrightarrow>
     leaseStep st (s, rels) (NotRenewed i tok) (s', rels)"
| published:
    "st_Fenced st = Some (createFenced, saveFenced) \<Longrightarrow>
     (if create then createFenced else saveFenced) c cp tok s = (s', None) \<Longrightarrow>
     leaseStep st (s, rels) (Published create cp tok) (s', rels)"
| refused:
    "st_Fenced st = Some (createFenced, saveFenced) \<Longrightarrow>
     (if create then createFenced else saveFenced) c cp tok s = (s', Some e) \<Longrightarrow>
     leaseStep st (s, rels) (Refused create cp tok) (s', rels)"

inductive_cases leaseStepE: "leaseStep st sys ev sys'"

inductive leaseRun :: "'s CheckpointStore \<Rightarrow> 's lease_system \<Rightarrow> lease_event list \<Rightarrow> 's lease_system \<Rightarrow> bool"
  for st :: "'s CheckpointStore" and sys0 :: "'s lease_system" where
  start: "leaseRun st sys0 [] sys0"
| step: "leaseRun st sys0 evs sys \<Longrightarrow> leaseStep st sys ev sys' \<Longrightarrow> leaseRun st sys0 (evs @ [ev]) sys'"

fun acquiredToken :: "string \<Rightarrow> lease_event \<Rightarrow> uint64 list" where
  "acquiredToken i (Acquired j tok) = (if i = j then [tok] else [])"
| "acquiredToken i _ = []"

fun publishedCheckpoint :: "string \<Rightarrow> lease_event \<Rightarrow> (bool \<times> Checkpoint \<times> uint64) list" where
  "publishedCheckpoint i (Published create cp tok) = (if cp_ExecutionID cp = i then [(create, cp, tok)] else [])"
| "publishedCheckpoint i _ = []"

definition acquiredTokens :: "string \<Rightarrow> lease_event list \<Rightarrow> uint64 list" where
  "acquiredTokens i evs = concat (map (acquiredToken i) evs)"

definition publications :: "string \<Rightarrow> lease_event list \<Rightarrow> (bool \<times> Checkpoint \<times> uint64) list" where
  "publications i evs = concat (map (publishedCheckpoint i) evs)"

lemma acquiredTokens_simps [simp]:
  "acquiredTokens i [] = []" "acquiredTokens i (evs @ [ev]) = acquiredTokens i evs @ acquiredToken i ev"
  by (simp_all add: acquiredTokens_def)

lemma publications_simps [simp]:
  "publications i [] = []" "publications i (evs @ [ev]) = publications i evs @ publishedCheckpoint i ev"
  by (simp_all add: publications_def)

text \<open>A later publication never creates, and supersedes every numbered revision before it.\<close>

definition supersedes :: "bool \<times> Checkpoint \<times> uint64 \<Rightarrow> bool \<times> Checkpoint \<times> uint64 \<Rightarrow> bool" where
  "supersedes a b \<longleftrightarrow>
     \<not> fst b \<and> (cp_Revision (fst (snd a)) \<noteq> 0 \<longrightarrow> cp_Revision (fst (snd a)) < cp_Revision (fst (snd b)))"

lemma supersedes_trans: "supersedes a b \<Longrightarrow> supersedes b c \<Longrightarrow> supersedes a c"
  by (auto simp: supersedes_def word_less_nat_alt)

section \<open>The contract\<close>

text \<open>
  \<open>issued i s\<close> is the greatest token issued so far, \<open>owner t i s\<close> the token of the lease that is active
  at time \<open>t\<close>, \<open>stored i s\<close> the current checkpoint. Other executions are never touched.
\<close>

text \<open>
  What a fenced write does when it takes effect. A failed write may have taken effect as well: the
  interface leaves the outcome of a failure open (\<^verbatim>\<open>CheckpointStore\<close>, \<^verbatim>\<open>checkpoint.go\<close>).
\<close>

definition takesEffect ::
  "(int \<Rightarrow> string \<Rightarrow> 's \<Rightarrow> uint64 option) \<Rightarrow> (string \<Rightarrow> 's \<Rightarrow> nat) \<Rightarrow> (string \<Rightarrow> 's \<Rightarrow> Checkpoint option) \<Rightarrow>
     bool \<Rightarrow> store_call \<Rightarrow> Checkpoint \<Rightarrow> uint64 \<Rightarrow> 's \<Rightarrow> 's \<Rightarrow> bool" where
  "takesEffect owner issued stored create c cp tok s s' \<longleftrightarrow>
     owner (sc_now c) (cp_ExecutionID cp) s = Some tok \<and> (\<forall>j. issued j s' = issued j s) \<and>
     replaces stored create cp s s'"

locale lease_store =
  fixes st :: "'s CheckpointStore"
    and acquire :: "store_call \<Rightarrow> string \<Rightarrow> 's \<Rightarrow> 's \<times> (goerr + uint64 \<times> 's release option)"
    and renew :: "store_call \<Rightarrow> string \<Rightarrow> uint64 \<Rightarrow> 's \<Rightarrow> 's \<times> goerr option"
    and publish :: "bool \<Rightarrow> store_call \<Rightarrow> Checkpoint \<Rightarrow> uint64 \<Rightarrow> 's \<Rightarrow> 's \<times> goerr option"
    and interval :: "'s \<Rightarrow> int"
    and release :: "string \<Rightarrow> uint64 \<Rightarrow> 's release"
    and good :: "'s \<Rightarrow> bool"
    and issued :: "string \<Rightarrow> 's \<Rightarrow> nat"
    and owner :: "int \<Rightarrow> string \<Rightarrow> 's \<Rightarrow> uint64 option"
    and stored :: "string \<Rightarrow> 's \<Rightarrow> Checkpoint option"
  assumes ops: "st_AcquireExecutionLease st = Some acquire"
      "st_Fenced st = Some (publish True, publish False)" "st_Renewer st = Some (renew, interval)"
    and owner_issued: "good s \<Longrightarrow> owner t i s = Some tok \<Longrightarrow> unat tok = issued i s"
    and acquire_ok: "good s \<Longrightarrow> acquire c i s = (s', Inr (tok, r)) \<Longrightarrow>
      good s' \<and> r = Some (release i tok) \<and> owner (sc_now c) i s = None \<and> owner (sc_now c) i s' = Some tok \<and>
      issued i s < unat tok \<and> issued i s' = unat tok \<and> (\<forall>j. j \<noteq> i \<longrightarrow> issued j s' = issued j s) \<and>
      (\<forall>j. stored j s' = stored j s)"
    and acquire_error: "good s \<Longrightarrow> acquire c i s = (s', Inl e) \<Longrightarrow>
      good s' \<and> (\<forall>j. issued j s \<le> issued j s') \<and> (\<forall>j. stored j s' = stored j s)"
    and release_ok: "good s \<Longrightarrow> good (release i tok c s) \<and> (\<forall>j. issued j (release i tok c s) = issued j s) \<and>
      (\<forall>j. stored j (release i tok c s) = stored j s)"
    and release_stale: "good s \<Longrightarrow> unat tok < issued i s \<Longrightarrow> owner t j (release i tok c s) = owner t j s"
    and renew_ok: "good s \<Longrightarrow> renew c i tok s = (s', None) \<Longrightarrow>
      good s' \<and> owner (sc_now c) i s = Some tok \<and> (\<forall>j. issued j s' = issued j s) \<and> (\<forall>j. stored j s' = stored j s)"
    and renew_error: "good s \<Longrightarrow> renew c i tok s = (s', Some e) \<Longrightarrow>
      good s' \<and> (\<forall>j. issued j s' = issued j s) \<and> (\<forall>j. stored j s' = stored j s)"
    and write_ok: "good s \<Longrightarrow> publish create c cp tok s = (s', None) \<Longrightarrow> good s' \<and> takesEffect owner issued stored create c cp tok s s'"
    and write_error: "good s \<Longrightarrow> publish create c cp tok s = (s', Some e) \<Longrightarrow>
      good s' \<and> (takesEffect owner issued stored create c cp tok s s' \<or>
        (\<forall>j. issued j s' = issued j s) \<and> (\<forall>j. stored j s' = stored j s))"
begin

text \<open>What the history of the events says about one execution.\<close>

definition accountOf :: "string \<Rightarrow> 's \<Rightarrow> lease_event list \<Rightarrow> 's \<Rightarrow> bool" where
  "accountOf i s0 evs s \<longleftrightarrow>
     last (issued i s0 # map unat (acquiredTokens i evs)) \<le> issued i s \<and>
     sorted_wrt (<) (issued i s0 # map unat (acquiredTokens i evs)) \<and>
     (\<forall>p \<in> set (publications i evs). \<exists>cur. stored i s = Some cur \<and>
        (cp_Revision (fst (snd p)) \<noteq> 0 \<longrightarrow> cp_Revision (fst (snd p)) \<le> cp_Revision cur))"

definition owned :: "'s lease_system \<Rightarrow> bool" where
  "owned sys \<longleftrightarrow> good (fst sys) \<and> (\<forall>(i, tok, rel) \<in> set (snd sys). rel = release i tok)"

lemma owned_start: "good s \<Longrightarrow> owned (s, [])"
  by (simp add: owned_def)

lemma leaseStep_cases [consumes 2, case_names acquired wrote still]:
  assumes "leaseStep st (s, rels) ev (s', rels')" and "owned (s, rels)"
  obtains c i tok where "ev = Acquired i tok" "acquire c i s = (s', Inr (tok, Some (release i tok)))"
      "rels' = (i, tok, release i tok) # rels" "good s'"
  | create c cp tok where "ev = Published create cp tok \<or> ev = Refused create cp tok"
      "takesEffect owner issued stored create c cp tok s s'" "rels' = rels" "good s'"
  | "\<And>i. acquiredToken i ev = [] \<and> publishedCheckpoint i ev = []" "rels' = rels" "good s'"
      "\<And>i. issued i s \<le> issued i s' \<and> stored i s' = stored i s"
proof -
  have g: "good s" using assms(2) by (simp add: owned_def)
  from assms(1) show ?thesis
  proof (cases rule: leaseStep.cases)
    case (acquired acq c i tok rel)
    with ops(1) g acquire_ok [of s c i s' tok "Some rel"] show ?thesis by (intro that(1) [of i tok c]) auto
  next
    case (published cf sf create c cp tok)
    with ops(2) write_ok [OF g, of create c cp tok s'] show ?thesis
      by (intro that(2) [of create cp tok c]) (auto split: if_splits)
  next
    case (refused cf sf create c cp tok e)
    with ops(2) have "publish create c cp tok s = (s', Some e)" by (auto split: if_splits)
    with write_error [OF g this] refused show ?thesis using that(2) [of create cp tok c] that(3) by auto
  next
    case (released i tok rel c)
    with assms(2) have "rel = release i tok" by (auto simp: owned_def)
    with released release_ok [OF g] show ?thesis by (intro that(3)) auto
  next
    case (renewed rn iv c i tok)
    with ops(3) renew_ok [OF g, of c i tok s'] show ?thesis by (intro that(3)) auto
  next
    case (denied acq c i e)
    with ops(1) acquire_error [OF g, of c i s' e] show ?thesis by (intro that(3)) auto
  next
    case (notRenewed rn iv c i tok e)
    with ops(3) renew_error [OF g, of c i tok s' e] show ?thesis by (intro that(3)) auto
  qed
qed

lemma step_owned: "leaseStep st sys ev sys' \<Longrightarrow> owned sys \<Longrightarrow> owned sys'"
proof (cases sys; cases sys'; hypsubst)
  fix s rels s' rels'
  assume a: "leaseStep st (s, rels) ev (s', rels')" "owned (s, rels)"
  then show "owned (s', rels')" by (cases rule: leaseStep_cases) (use a(2) in \<open>auto simp: owned_def\<close>)
qed

lemma run_owned: "leaseRun st sys0 evs sys \<Longrightarrow> owned sys0 \<Longrightarrow> owned sys"
  by (induction rule: leaseRun.induct) (auto intro: step_owned)

lemma account_supersedes:
  assumes "accountOf i s0 evs s" and "takesEffect owner issued stored create c cp tok s s'"
    and "cp_ExecutionID cp = i" and "p \<in> set (publications i evs)"
  shows "supersedes p (create, cp, tok)"
proof -
  from assms(1,4) obtain cur where cur: "stored i s = Some cur"
      "cp_Revision (fst (snd p)) \<noteq> 0 \<longrightarrow> cp_Revision (fst (snd p)) \<le> cp_Revision cur"
    by (auto simp: accountOf_def)
  with assms(2,3) have "\<not> create" "cp_Revision cur = 0 \<or> cp_Revision cur < cp_Revision cp"
    by (auto simp: takesEffect_def replaces_def split: if_splits)
  with cur(2) show ?thesis by (auto simp: supersedes_def)
qed

lemma account_wrote:
  assumes "accountOf i s0 evs s" and "takesEffect owner issued stored create c cp tok s s'"
    and "ev = Published create cp tok \<or> ev = Refused create cp tok"
  shows "accountOf i s0 (evs @ [ev]) s'"
proof (cases "cp_ExecutionID cp = i")
  case True
  have st: "stored i s' = Some cp" "issued i s' = issued i s" using assms(2) True by (auto simp: takesEffect_def replaces_def)
  have "cp_Revision (fst (snd p)) \<noteq> 0 \<longrightarrow> cp_Revision (fst (snd p)) \<le> cp_Revision cp"
    if "p \<in> set (publications i evs)" for p
    using account_supersedes [OF assms(1,2) True that] by (auto simp: supersedes_def)
  with assms(1,3) st True show ?thesis by (auto simp: accountOf_def)
next
  case False
  then have "stored i s' = stored i s" "issued i s' = issued i s" using assms(2) by (auto simp: takesEffect_def replaces_def)
  with assms(1,3) False show ?thesis by (auto simp: accountOf_def)
qed

lemma step_account:
  assumes "leaseStep st (s, rels) ev (s', rels')" and "owned (s, rels)" and "accountOf i s0 evs s"
  shows "accountOf i s0 (evs @ [ev]) s'"
  using assms(1,2)
proof (cases rule: leaseStep_cases)
  case (acquired c j tok)
  with assms(2) acquire_ok have *: "issued j s < unat tok" "issued j s' = unat tok"
      "k \<noteq> j \<Longrightarrow> issued k s' = issued k s" "stored k s' = stored k s" for k
    by (auto simp: owned_def)
  have "sorted_wrt (<) (xs @ [y])" if "sorted_wrt (<) xs" "xs \<noteq> []" "last xs < y" for xs and y :: nat
    using that by (induction xs rule: rev_induct) (auto simp: sorted_wrt_append)
  from this [of "issued j s0 # map unat (acquiredTokens j evs)" "unat tok"] * assms(3) acquired(1) show ?thesis
    by (cases "i = j") (auto simp: accountOf_def)
next
  case (wrote create c cp tok)
  from account_wrote [OF assms(3) wrote(2,1)] show ?thesis .
next
  case still
  from still(4) [of i] assms(3) have "last (issued i s0 # map unat (acquiredTokens i evs)) \<le> issued i s'"
    by (simp add: accountOf_def)
  with still assms(3) show ?thesis by (simp add: accountOf_def)
qed

lemma run_account:
  "leaseRun st (s0, rels0) evs sys \<Longrightarrow> owned (s0, rels0) \<Longrightarrow> accountOf i s0 evs (fst sys)"
proof (induction rule: leaseRun.induct)
  case start
  then show ?case by (simp add: accountOf_def)
next
  case (step evs sys ev sys')
  from step.hyps(1) step.prems have "owned sys" by (rule run_owned)
  with step step_account [of "fst sys" "snd sys" ev "fst sys'" "snd sys'"] show ?case by simp
qed

lemma run_split:
  assumes "leaseRun st sys0 (xs @ ev # ys) sys"
  obtains mid sys' where "leaseRun st sys0 xs mid" "leaseStep st mid ev sys'"
  using assms
proof (induction "xs @ ev # ys" sys arbitrary: ys thesis rule: leaseRun.induct)
  case (step evs sys e sys')
  show ?case
  proof (cases ys rule: rev_cases)
    case Nil
    with step show ?thesis by auto
  next
    case (snoc zs z)
    with step show ?thesis by auto
  qed
qed simp

text \<open>Tokens grow with every acquisition.\<close>

lemma tokens_increase:
  assumes "leaseRun st (s0, rels0) evs sys" and "owned (s0, rels0)"
  shows "sorted_wrt (<) (acquiredTokens i evs)"
proof -
  from run_account [OF assms, of i] have "sorted_wrt (<) (map unat (acquiredTokens i evs))"
    by (simp add: accountOf_def)
  then show ?thesis by (simp add: sorted_wrt_map word_less_nat_alt [symmetric])
qed

lemma tokens_last: "sorted_wrt (<) ts \<Longrightarrow> tok \<in> set ts \<Longrightarrow> tok \<le> last ts" for ts :: "uint64 list"
  by (cases ts rule: rev_cases) (auto simp: sorted_wrt_append intro: less_imp_le)

text \<open>Fencing: no token acquired before a publication is newer than the token it carries.\<close>

lemma stale_never_publishes:
  assumes "leaseRun st (s0, rels0) (xs @ Published create cp tok # ys) sys" and "owned (s0, rels0)"
    and "tok' \<in> set (acquiredTokens (cp_ExecutionID cp) xs)"
  shows "tok' \<le> tok"
proof -
  let ?i = "cp_ExecutionID cp" and ?ts = "acquiredTokens (cp_ExecutionID cp) xs"
  obtain s rels s' rels' where r: "leaseRun st (s0, rels0) xs (s, rels)"
    and st: "leaseStep st (s, rels) (Published create cp tok) (s', rels')"
    using run_split [OF assms(1)] by (metis surj_pair)
  have ow: "owned (s, rels)" using run_owned [OF r assms(2)] .
  from st ow have "\<exists>t. owner t ?i s = Some tok"
  proof (cases rule: leaseStep_cases)
    case still
    from still(1) [of ?i] show ?thesis by simp
  qed (auto simp: takesEffect_def replaces_def)
  then obtain t where "owner t ?i s = Some tok" ..
  with ow owner_issued have "unat tok = issued ?i s" by (simp add: owned_def)
  with run_account [OF r assms(2), of ?i] have "last ?ts \<le> tok" if "?ts \<noteq> []"
    using that by (simp add: accountOf_def last_map word_le_nat_alt)
  moreover have "tok' \<le> last ?ts" by (rule tokens_last [OF tokens_increase [OF r assms(2)] assms(3)])
  ultimately show ?thesis using assms(3) by fastforce
qed

lemma publication_latest:
  assumes "leaseRun st (s0, rels0) (xs @ Published create cp tok # ys) sys" and "owned (s0, rels0)"
    and "tok \<in> set (acquiredTokens (cp_ExecutionID cp) xs)"
  shows "tok = last (acquiredTokens (cp_ExecutionID cp) xs)"
proof (rule antisym)
  obtain mid where r: "leaseRun st (s0, rels0) xs mid" using run_split [OF assms(1)] by blast
  show "tok \<le> last (acquiredTokens (cp_ExecutionID cp) xs)"
    by (rule tokens_last [OF tokens_increase [OF r assms(2)] assms(3)])
  show "last (acquiredTokens (cp_ExecutionID cp) xs) \<le> tok"
    by (rule stale_never_publishes [OF assms(1,2)]) (use assms(3) in \<open>auto intro: last_in_set\<close>)
qed

text \<open>One history per execution: created once, then ever newer revisions.\<close>

lemma publications_progress:
  assumes "leaseRun st (s0, rels0) evs sys" and "owned (s0, rels0)"
  shows "sorted_wrt supersedes (publications i evs)"
  using assms
proof (induction rule: leaseRun.induct)
  case (step evs sys ev sys')
  obtain s rels s' rels' where sys: "sys = (s, rels)" "sys' = (s', rels')" by (metis surj_pair)
  have ow: "owned (s, rels)" using run_owned [OF step.hyps(1) step.prems] sys by simp
  have acc: "accountOf i s0 evs s" using run_account [OF step.hyps(1) step.prems] sys by simp
  from step.hyps(2) [unfolded sys] ow show ?case
  proof (cases rule: leaseStep_cases)
    case (wrote create c cp tok)
    with step.IH [OF step.prems] account_supersedes [OF acc wrote(2)] show ?thesis
      by (cases "cp_ExecutionID cp = i") (auto simp: sorted_wrt_append)
  qed (use step.IH [OF step.prems] in simp_all)
qed simp

text \<open>A stale release leaves the current owner alone.\<close>

lemma stale_release_harmless:
  assumes "leaseRun st (s0, rels0) (xs @ [Acquired i tok]) (s, rels)" and "owned (s0, rels0)"
    and "tok' \<in> set (acquiredTokens i xs)"
  shows "owner t j (release i tok' c s) = owner t j s"
proof -
  have o: "owned (s, rels)" by (rule run_owned [OF assms(1,2)])
  have "tok' < tok" using tokens_increase [OF assms(1,2), of i] assms(3) by (simp add: sorted_wrt_append)
  moreover have "unat tok \<le> issued i s" using run_account [OF assms(1,2), of i] by (simp add: accountOf_def)
  ultimately have "unat tok' < issued i s" by (simp add: word_less_nat_alt)
  with release_stale o show ?thesis by (auto simp: owned_def)
qed

end

section \<open>Leased stores as checkpoint stores\<close>

text \<open>With a load, the writes under any one token satisfy the contract of \<^verbatim>\<open>CheckpointStore\<close>.\<close>

locale leased_checkpoint_store = lease_store +
  fixes load :: "store_call \<Rightarrow> string \<Rightarrow> 'a \<Rightarrow> goerr + Checkpoint"
  assumes load_sound: "good s \<Longrightarrow> load c i s = Inr cp \<Longrightarrow> stored i s = Some cp"
    and load_ready: "good s \<Longrightarrow> stored i s = Some cp \<Longrightarrow> goInts cp \<Longrightarrow> i \<noteq> [] \<Longrightarrow> undisturbed c \<Longrightarrow> load c i s = Inr cp"

sublocale leased_checkpoint_store \<subseteq> writes: checkpoint_store "\<lambda>create c cp. publish create c cp tok" load good stored for tok
proof (unfold_locales, goal_cases)
  case (1 s create c cp s')
  from write_ok [OF 1] show ?case unfolding takesEffect_def by blast
next
  case (2 s create c cp s' e)
  from write_error [OF 2] show ?case unfolding takesEffect_def by blast
next
  case (3 s c i cp)
  then show ?case by (rule load_sound)
next
  case (4 s i cp c)
  then show ?case by (rule load_ready)
qed

context leased_checkpoint_store
begin

text \<open>A load after any interleaving is at least as new as every publication of the execution before it.\<close>

lemma load_after_run:
  assumes "leaseRun st (s0, rels0) evs (s, rels)" and "owned (s0, rels0)" and "load c i s = Inr cp"
    and "p \<in> set (publications i evs)"
  shows "atLeast (fst (snd p)) cp"
proof -
  have "good s" using run_owned [OF assms(1,2)] by (simp add: owned_def)
  with load_sound assms(3) have "stored i s = Some cp" by blast
  with run_account [OF assms(1,2), of i] assms(4) show ?thesis by (auto simp: accountOf_def atLeast_def)
qed

end

end
