(* ===== verification/Memory_Lease_Store.thy ===== *)
theory Memory_Lease_Store
  imports Leases
begin

text \<open>
  \<^verbatim>\<open>MemoryLeaseStore\<close> (\<^verbatim>\<open>memory_lease_store.go\<close>), the in-memory reference implementation of lease
  fencing. Its mutex makes every operation one step on the state record; \<^verbatim>\<open>s.now()\<close> is the clock of
  the call. A missing key of \<^verbatim>\<open>lastToken\<close> reads as 0, as in Go.
\<close>

section \<open>State and operations\<close>

record memoryExecutionLease =
  ml_token :: uint64
  ml_expiresAt :: int

record MemoryLeaseStore =
  ms_leaseDuration :: int
  ms_records :: "string \<rightharpoonup> Checkpoint"
  ms_leases :: "string \<rightharpoonup> memoryExecutionLease"
  ms_lastToken :: "string \<rightharpoonup> uint64"

definition NewMemoryLeaseStore :: "int \<Rightarrow> goerr + MemoryLeaseStore" where
  "NewMemoryLeaseStore leaseDuration =
     (if leaseDuration \<le> 0 then Inl (errMsg ErrInvalidRequest ''lease duration must be positive'')
      else Inr \<lparr>ms_leaseDuration = leaseDuration, ms_records = Map.empty, ms_leases = Map.empty,
                ms_lastToken = Map.empty\<rparr>)"

definition checkMemoryLeaseContext :: "store_call \<Rightarrow> goerr option" where
  "checkMemoryLeaseContext c =
     (if sc_nil c then Some (errMsg ErrInvalidRequest ''context is required'') else sc_err c 0)"

definition tokenOf :: "(string \<rightharpoonup> uint64) \<Rightarrow> string \<Rightarrow> uint64" where
  "tokenOf m i = (case m i of None \<Rightarrow> 0 | Some tok \<Rightarrow> tok)"

definition memRelease :: "string \<Rightarrow> uint64 \<Rightarrow> MemoryLeaseStore release" where
  "memRelease executionID token c s =
     (case ms_leases s executionID of
        Some lease \<Rightarrow>
          if ml_token lease = token then s\<lparr>ms_leases := (ms_leases s)(executionID := None)\<rparr> else s
      | None \<Rightarrow> s)"

definition memAcquireExecutionLease ::
  "store_call \<Rightarrow> string \<Rightarrow> MemoryLeaseStore \<Rightarrow>
     MemoryLeaseStore \<times> (goerr + uint64 \<times> MemoryLeaseStore release option)" where
  "memAcquireExecutionLease c executionID s =
     (case checkMemoryLeaseContext c of Some err \<Rightarrow> (s, Inl err) | None \<Rightarrow>
      if executionID = [] then (s, Inl (errMsg ErrInvalidRequest ''execution ID is required''))
      else if (case ms_leases s executionID of Some lease \<Rightarrow> sc_now c < ml_expiresAt lease | None \<Rightarrow> False)
      then (s, Inl (Sentinel ErrExecutionBusy))
      else let token = tokenOf (ms_lastToken s) executionID + 1 in
        if token = 0 then (s, Inl (errMsg ErrExecutionFenced ''fencing token exhausted''))
        else (s\<lparr>ms_lastToken := (ms_lastToken s)(executionID \<mapsto> token),
                ms_leases := (ms_leases s)(executionID \<mapsto>
                  \<lparr>ml_token = token, ml_expiresAt = sc_now c + ms_leaseDuration s\<rparr>)\<rparr>,
              Inr (token, Some (memRelease executionID token))))"

definition memExecutionLeaseRenewalInterval :: "MemoryLeaseStore \<Rightarrow> int" where
  "memExecutionLeaseRenewalInterval s =
     (let interval = ms_leaseDuration s div 3 in if interval \<le> 0 then ms_leaseDuration s else interval)"

definition fencedError :: "string \<Rightarrow> uint64 \<Rightarrow> goerr" where
  "fencedError executionID token =
     Errorf [W (Sentinel ErrExecutionFenced), Lit '': execution '', Quoted executionID, Lit '' token '',
             Num (uint token)]"

text \<open>The test every fenced operation makes: the lease exists, has this token and has not expired.\<close>

definition memHolds :: "int \<Rightarrow> string \<Rightarrow> uint64 \<Rightarrow> MemoryLeaseStore \<Rightarrow> bool" where
  "memHolds t executionID token s =
     (case ms_leases s executionID of
        None \<Rightarrow> False
      | Some lease \<Rightarrow> ml_token lease = token \<and> t < ml_expiresAt lease)"

definition memRenewExecutionLease ::
  "store_call \<Rightarrow> string \<Rightarrow> uint64 \<Rightarrow> MemoryLeaseStore \<Rightarrow> MemoryLeaseStore \<times> goerr option" where
  "memRenewExecutionLease c executionID fencingToken s =
     (case checkMemoryLeaseContext c of Some err \<Rightarrow> (s, Some err) | None \<Rightarrow>
      if executionID = [] \<or> fencingToken = 0
      then (s, Some (errMsg ErrExecutionLeaseRequired ''execution ID and fencing token are required''))
      else if \<not> memHolds (sc_now c) executionID fencingToken s
      then (s, Some (fencedError executionID fencingToken))
      else (s\<lparr>ms_leases := (ms_leases s)(executionID \<mapsto>
               (the (ms_leases s executionID))\<lparr>ml_expiresAt := sc_now c + ms_leaseDuration s\<rparr>)\<rparr>, None))"

text \<open>Plain writes are rejected.\<close>

definition memPlainWrite ::
  "store_call \<Rightarrow> Checkpoint \<Rightarrow> MemoryLeaseStore \<Rightarrow> MemoryLeaseStore \<times> goerr option" where
  "memPlainWrite c cp s =
     (case checkMemoryLeaseContext c of
        Some err \<Rightarrow> (s, Some err)
      | None \<Rightarrow> (s, Some (Sentinel ErrExecutionLeaseRequired)))"

definition memLoad :: "store_call \<Rightarrow> string \<Rightarrow> MemoryLeaseStore \<Rightarrow> goerr + Checkpoint" where
  "memLoad c executionID s =
     (case checkMemoryLeaseContext c of Some err \<Rightarrow> Inl err | None \<Rightarrow>
      if executionID = [] then Inl (errMsg ErrInvalidCheckpoint ''execution ID is required'')
      else case ms_records s executionID of
        None \<Rightarrow> Inl (Errorf [W (Sentinel ErrExecutionNotFound), Lit '': '', Quoted executionID])
      | Some checkpoint \<Rightarrow> Inr (cloneCheckpoint checkpoint))"

definition conflictError :: "string \<Rightarrow> uint64 \<Rightarrow> uint64 \<Rightarrow> goerr" where
  "conflictError executionID current attempted =
     Errorf [W (Sentinel ErrCheckpointConflict), Lit '': execution '', Quoted executionID,
             Lit '' has revision '', Num (uint current), Lit '', attempted '', Num (uint attempted)]"

definition memWriteFenced ::
  "bool \<Rightarrow> store_call \<Rightarrow> Checkpoint \<Rightarrow> uint64 \<Rightarrow> MemoryLeaseStore \<Rightarrow> MemoryLeaseStore \<times> goerr option" where
  "memWriteFenced create c checkpoint fencingToken s =
     (case checkMemoryLeaseContext c of Some err \<Rightarrow> (s, Some err) | None \<Rightarrow>
      case validateCheckpoint checkpoint of Some err \<Rightarrow> (s, Some err) | None \<Rightarrow>
      if fencingToken = 0 then (s, Some (Sentinel ErrExecutionLeaseRequired))
      else if \<not> memHolds (sc_now c) (cp_ExecutionID checkpoint) fencingToken s
      then (s, Some (fencedError (cp_ExecutionID checkpoint) fencingToken))
      else let publish = s\<lparr>ms_records := (ms_records s)(cp_ExecutionID checkpoint \<mapsto> cloneCheckpoint checkpoint)\<rparr> in
      case ms_records s (cp_ExecutionID checkpoint) of
        None \<Rightarrow>
          if create then (publish, None)
          else (s, Some (Errorf [W (Sentinel ErrExecutionNotFound), Lit '': '', Quoted (cp_ExecutionID checkpoint)]))
      | Some current \<Rightarrow>
          if create
          then (s, Some (Errorf [W (Sentinel ErrExecutionExists), Lit '': '', Quoted (cp_ExecutionID checkpoint)]))
          else if cp_Revision current > 0 \<and>
                  (cp_Revision checkpoint = 0 \<or> cp_Revision checkpoint \<le> cp_Revision current)
          then (s, Some (conflictError (cp_ExecutionID checkpoint) (cp_Revision current) (cp_Revision checkpoint)))
          else (publish, None))"

definition memoryStore :: "MemoryLeaseStore CheckpointStore" where
  "memoryStore =
     \<lparr>st_Create = memPlainWrite, st_Save = memPlainWrite, st_Load = memLoad,
      st_AcquireExecutionLease = Some memAcquireExecutionLease,
      st_Fenced = Some (memWriteFenced True, memWriteFenced False),
      st_LockExecution = None,
      st_Renewer = Some (memRenewExecutionLease, memExecutionLeaseRenewalInterval)\<rparr>"

section \<open>The contract of leases holds\<close>

text \<open>A lease always carries the last token issued for its execution.\<close>

definition memGood :: "MemoryLeaseStore \<Rightarrow> bool" where
  "memGood s \<longleftrightarrow>
     0 < ms_leaseDuration s \<and>
     (\<forall>i lease. ms_leases s i = Some lease \<longrightarrow> ms_lastToken s i = Some (ml_token lease))"

definition memIssued :: "string \<Rightarrow> MemoryLeaseStore \<Rightarrow> nat" where
  "memIssued i s = unat (tokenOf (ms_lastToken s) i)"

definition memOwner :: "int \<Rightarrow> string \<Rightarrow> MemoryLeaseStore \<Rightarrow> uint64 option" where
  "memOwner t i s =
     (case ms_leases s i of
        None \<Rightarrow> None
      | Some lease \<Rightarrow> if t < ml_expiresAt lease then Some (ml_token lease) else None)"

abbreviation memStored :: "string \<Rightarrow> MemoryLeaseStore \<Rightarrow> Checkpoint option" where
  "memStored i s \<equiv> ms_records s i"

lemma memHolds_owner: "memHolds t i tok s \<longleftrightarrow> memOwner t i s = Some tok"
  by (auto simp: memHolds_def memOwner_def split: option.splits)

lemma NewMemoryLeaseStore_good: "NewMemoryLeaseStore d = Inr s \<Longrightarrow> memGood s"
  by (auto simp: NewMemoryLeaseStore_def memGood_def split: if_splits)

lemma memAcquire_ok:
  assumes "memGood s" and "memAcquireExecutionLease c i s = (s', Inr (tok, r))"
  shows "memGood s'" "r = Some (memRelease i tok)" "memOwner (sc_now c) i s = None" "memOwner (sc_now c) i s' = Some tok"
    "memIssued i s < unat tok" "memIssued i s' = unat tok" "j \<noteq> i \<Longrightarrow> memIssued j s' = memIssued j s"
    "memStored j s' = memStored j s"
  using assms
  by (auto simp: memAcquireExecutionLease_def Let_def memGood_def memOwner_def memIssued_def tokenOf_def unat_next
      split: option.splits if_splits)

lemma memRelease_ok:
  assumes "memGood s"
  shows "memGood (memRelease i tok c s)" "memIssued j (memRelease i tok c s) = memIssued j s"
    "memStored j (memRelease i tok c s) = memStored j s"
  using assms by (auto simp: memRelease_def memGood_def memIssued_def split: option.splits)

lemma memRelease_stale:
  assumes "memGood s" and "unat tok < memIssued i s"
  shows "memOwner t j (memRelease i tok c s) = memOwner t j s"
  using assms by (auto simp: memRelease_def memGood_def memIssued_def memOwner_def tokenOf_def split: option.splits)

lemma memRenew_ok:
  assumes "memGood s" and "memRenewExecutionLease c i tok s = (s', None)"
  shows "memGood s'" "memOwner (sc_now c) i s = Some tok" "memIssued j s' = memIssued j s" "memStored j s' = memStored j s"
  using assms
  by (auto simp: memRenewExecutionLease_def memHolds_owner memGood_def memIssued_def memOwner_def
      split: option.splits if_splits)

lemma memWrite_ok:
  assumes "memGood s" and "memWriteFenced create c cp tok s = (s', None)"
  shows "memGood s'" "validateCheckpoint cp = None" "memOwner (sc_now c) (cp_ExecutionID cp) s = Some tok"
    "memIssued j s' = memIssued j s"
    "if create then memStored (cp_ExecutionID cp) s = None
     else \<exists>cur. memStored (cp_ExecutionID cp) s = Some cur \<and> (cp_Revision cur = 0 \<or> cp_Revision cur < cp_Revision cp)"
    "memStored (cp_ExecutionID cp) s' = Some cp" "j \<noteq> cp_ExecutionID cp \<Longrightarrow> memStored j s' = memStored j s"
  using assms
  by (auto simp: memWriteFenced_def memHolds_owner memGood_def memIssued_def Let_def word_gt_0 not_le
      split: option.splits if_splits)

lemma mem_error_keeps:
  "memAcquireExecutionLease c i s = (s', Inl e) \<Longrightarrow> s' = s"
  "memRenewExecutionLease c i tok s = (s', Some e) \<Longrightarrow> s' = s"
  "memWriteFenced create c cp tok s = (s', Some e) \<Longrightarrow> s' = s"
  by (auto simp: memAcquireExecutionLease_def memRenewExecutionLease_def memWriteFenced_def Let_def
      split: option.splits if_splits)

lemma memLoad_facts:
  "memLoad c i s = Inr cp \<Longrightarrow> memStored i s = Some cp"
  "memStored i s = Some cp \<Longrightarrow> i \<noteq> [] \<Longrightarrow> undisturbed c \<Longrightarrow> memLoad c i s = Inr cp"
  by (auto simp: memLoad_def checkMemoryLeaseContext_def undisturbed_def split: option.splits if_splits)

interpretation mem: leased_checkpoint_store memoryStore memAcquireExecutionLease memRenewExecutionLease memWriteFenced
  memExecutionLeaseRenewalInterval memRelease memGood memIssued memOwner "\<lambda>i s. ms_records s i" memLoad
proof (unfold_locales, goal_cases)
  case (4 s t i tok)
  then show ?case by (auto simp: memGood_def memOwner_def memIssued_def tokenOf_def split: option.splits if_splits)
next
  case (5 s c i s' tok r)
  show ?case using memAcquire_ok [OF 5] by auto
next
  case (11 s create c cp tok s')
  show ?case using memWrite_ok [OF 11] by (auto simp: takesEffect_def replaces_def)
next
  case (13 s c i cp)
  then show ?case by (auto dest: memLoad_facts)
next
  case (14 s i cp c)
  then show ?case by (blast intro: memLoad_facts)
qed (auto simp: memoryStore_def memRelease_ok memRelease_stale memRenew_ok dest: mem_error_keeps)

end
