(* ===== verification/Scenario.thy ===== *)
theory Scenario
  imports Recovery Memory_Lease_Store
begin

text \<open>
  A concrete execution for the witnesses: a model that asks for one calculator call and then answers,
  on the in-memory lease store with a lease of token 1 already acquired. The definitions are inputs
  of the model, not models of code.
\<close>

definition demoCallEnv :: "nat \<Rightarrow> store_call" where
  "demoCallEnv t = \<lparr>sc_nil = False, sc_err = (\<lambda>_. None), sc_now = int t, sc_io = (\<lambda>_. None),
     sc_late = (\<lambda>_. False), sc_json = Opaque []\<rparr>"

definition demoEnv :: env where
  "demoEnv = \<lparr>en_clock = int, en_ctx = (\<lambda>_. None), en_call = demoCallEnv, en_renewTick = (\<lambda>t. t = 3),
     en_timerFirst = (\<lambda>_. False), en_isPrint = (\<lambda>_. False)\<rparr>"

definition demoCall :: ToolCall where
  "demoCall = \<lparr>tc_ID = ''call-1'', tc_Name = ''add'', tc_Arguments = ''2+2''\<rparr>"

definition demoModel :: "nat \<Rightarrow> ModelInput \<Rightarrow> (Decision \<times> goerr option) option" where
  "demoModel t input =
     Some (if mi_Steps input = []
           then (\<lparr>d_Kind = DecisionToolCall, d_Output = [], d_ToolCall = demoCall\<rparr>, None)
           else (\<lparr>d_Kind = DecisionFinal, d_Output = ''4'', d_ToolCall = zeroToolCall\<rparr>, None))"

definition demoTools :: tool_ops where
  "demoTools = \<lparr>to_Execute = (\<lambda>t call. Some (''4'', None)), to_ReconcileToolOutcome = None, to_Replay = None\<rparr>"

definition demoRuntime :: "(MemoryLeaseStore, unit) Runtime" where
  "demoRuntime =
     \<lparr>rt_store = Some memoryStore, rt_model = BaseModel demoModel, rt_tools = Some (BaseTools demoTools),
      rt_observer = None, rt_maxSteps = 3, rt_modelRetry = \<lparr>mr_MaxRetries = 0, mr_Delay = 0\<rparr>\<rparr>"

definition demoSession :: "(MemoryLeaseStore, unit) session" where
  "demoSession = \<lparr>ss_env = demoEnv, ss_rt = demoRuntime, ss_id = ''job'', ss_token = 1, ss_renewing = True\<rparr>"

definition demoInitial :: Checkpoint where
  "demoInitial = zeroCheckpoint\<lparr>cp_SchemaVersion := 3, cp_ExecutionID := ''job'',
     cp_Request := \<lparr>rq_ExecutionID = ''job'', rq_Prompt = ''2+2?''\<rparr>, cp_MaxSteps := 3,
     cp_Result := zeroResult\<lparr>rs_ExecutionID := ''job'', rs_Status := StatusCreated\<rparr>\<rparr>"

definition demoLeased :: MemoryLeaseStore where
  "demoLeased =
     \<lparr>ms_leaseDuration = 6, ms_records = Map.empty,
      ms_leases = [''job'' \<mapsto> \<lparr>ml_token = 1, ml_expiresAt = 6\<rparr>], ms_lastToken = [''job'' \<mapsto> 1]\<rparr>"

definition demoWorld :: "(MemoryLeaseStore, unit) world" where
  "demoWorld = \<lparr>w_tick = 0, w_store = demoLeased, w_obs = (), w_done = None, w_log = []\<rparr>"

abbreviation demoHistory :: "effect list" where
  "demoHistory \<equiv> history demoSession demoInitial True demoWorld"

fun effectKind :: "effect \<Rightarrow> string" where
  "effectKind (Observed ev) = ''observed''"
| "effectKind (ModelCalled inp) = ''model''"
| "effectKind (ToolExecuted call) = ''tool''"
| "effectKind (ToolReconciled call) = ''reconciled''"
| "effectKind (ToolReplayed call) = ''replayed''"
| "effectKind (Wrote create cp tok r) = (if r = None then ''wrote'' else ''refused'')"
| "effectKind (Loaded i r) = ''loaded''"
| "effectKind (Renewed tok r) = (if r = None then ''renewed'' else ''lost'')"

lemma demo_history:
  "map effectKind demoHistory =
     [''wrote'', ''wrote'', ''model'', ''renewed'', ''wrote'', ''tool'', ''wrote'', ''wrote'', ''model'', ''wrote'']"
  by code_simp

lemma demo_tool: "demoHistory ! 5 = ToolExecuted demoCall"
  by code_simp

lemma demo_admissible: "admissible demoInitial True"
  by (simp add: admissible_def runnable_def wfStructure_def demoInitial_def zeroCheckpoint_def zeroResult_def
      CheckpointSchemaVersion_def wfRecovery_def wfSteps_def wfPending_def wfStatus_def)

lemma demo_store: "rt_store (ss_rt demoSession) \<noteq> None"
  by (simp add: demoSession_def demoRuntime_def)

lemma demo_spoken: "spokenCauses demoSession demoWorld"
  by (simp add: spokenCauses_def texts_def doneText_def demoSession_def demoEnv_def demoWorld_def)

lemma split_at: "n < length xs \<Longrightarrow> xs ! n = x \<Longrightarrow> xs = take n xs @ x # drop (Suc n) xs"
  using id_take_nth_drop by blast

lemma demo_length: "length demoHistory = 10"
proof -
  have "length (map effectKind demoHistory) = 10" unfolding demo_history by simp
  then show ?thesis by (simp only: length_map)
qed

lemma demo_tool_split: "demoHistory = take 5 demoHistory @ ToolExecuted demoCall # drop 6 demoHistory"
  using split_at [OF _ demo_tool] demo_length by simp

lemma demo_model_split:
  "demoHistory = take 8 demoHistory @
     ModelCalled \<lparr>mi_Prompt = ''2+2?'', mi_Steps = [completedStep [] demoCall ''4'']\<rparr> # drop 9 demoHistory"
proof -
  have "demoHistory ! 8 = ModelCalled \<lparr>mi_Prompt = ''2+2?'', mi_Steps = [completedStep [] demoCall ''4'']\<rparr>"
    by code_simp
  from split_at [OF _ this] demo_length show ?thesis by simp
qed

definition demoFirst :: Checkpoint where
  "demoFirst = demoInitial\<lparr>cp_Revision := 1\<rparr>"

lemma demo_first: "Wrote True demoFirst 1 None \<in> set demoHistory"
proof -
  have "demoHistory ! 0 = Wrote True demoFirst 1 None" by code_simp
  with demo_length show ?thesis by (metis nth_mem zero_less_numeral)
qed

definition demoResult :: Result where
  "demoResult = cp_Result (last (acked demoHistory))"

lemma demo_outcome: "outcomeOf demoSession demoInitial True demoWorld = Returned demoResult None"
  by code_simp

text \<open>The same with a write context that has already timed out: the store refuses the first write.\<close>

definition demoSlow :: "(MemoryLeaseStore, unit) session" where
  "demoSlow = demoSession\<lparr>ss_env := demoEnv\<lparr>en_call :=
     (\<lambda>t. (demoCallEnv t)\<lparr>sc_err := (\<lambda>_. Some (Sentinel ContextDeadlineExceeded))\<rparr>)\<rparr>\<rparr>"

abbreviation demoRefusedHistory :: "effect list" where
  "demoRefusedHistory \<equiv> history demoSlow demoInitial True demoWorld"

lemma demo_slow_store: "rt_store (ss_rt demoSlow) \<noteq> None"
  by (simp add: demoSlow_def demoSession_def demoRuntime_def)

lemma demo_refused:
  "demoRefusedHistory = [] @ Wrote True demoFirst 1 (Some (Sentinel ContextDeadlineExceeded)) # []"
proof -
  let ?r = "persist demoSlow demoInitial (cp_Result demoInitial) None True (startState demoInitial demoWorld)"
  have "snd ?r \<noteq> None" by code_simp
  then obtain err where "snd ?r = Some err" by blast
  then have "fst (run demoSlow demoInitial True demoWorld) = fst ?r"
    by (cases ?r) (simp add: run_def startState_def)
  moreover have "w_log (fst ?r) = [Wrote True demoFirst 1 (Some (Sentinel ContextDeadlineExceeded))]" by code_simp
  moreover have "w_log demoWorld = []" by (simp add: demoWorld_def)
  ultimately show ?thesis by (simp add: history_def)
qed

text \<open>The same with a tool that panics.\<close>

definition demoPanicking :: "(MemoryLeaseStore, unit) session" where
  "demoPanicking = demoSession\<lparr>ss_rt := demoRuntime\<lparr>rt_tools := Some (BaseTools (demoTools\<lparr>to_Execute := (\<lambda>t call. None)\<rparr>))\<rparr>\<rparr>"

lemma demo_panicking_store: "rt_store (ss_rt demoPanicking) \<noteq> None"
  by (simp add: demoPanicking_def demoRuntime_def)

lemma demo_panic: "outcomeOf demoPanicking demoInitial True demoWorld = Panicked"
  by code_simp

text \<open>The same with a clock that jumps past the expiry before the renewal: the lease is lost.\<close>

definition demoLost :: "(MemoryLeaseStore, unit) session" where
  "demoLost = demoSession\<lparr>ss_env := demoEnv\<lparr>en_renewTick := (\<lambda>t. t = 3 \<or> t = 8),
     en_call := (\<lambda>t. (demoCallEnv t)\<lparr>sc_now := (if t = 8 then 100 else int t)\<rparr>)\<rparr>\<rparr>"

section \<open>A crash while the tool was running\<close>

text \<open>The checkpoint of the scenario after its third write, left behind by a process that died.\<close>

definition demoPendingCp :: Checkpoint where
  "demoPendingCp = demoInitial\<lparr>cp_Revision := 3, cp_ModelIterations := 1,
     cp_Result := (cp_Result demoInitial)\<lparr>rs_Status := StatusRunningTool,
        rs_Transitions := [\<lparr>tn_From = StatusCreated, tn_To = StatusRunningModel\<rparr>,
                           \<lparr>tn_From = StatusRunningModel, tn_To = StatusRunningTool\<rparr>]\<rparr>,
     cp_PendingTool := Some demoCall\<rparr>"

definition demoCrashed :: "(MemoryLeaseStore, unit) world" where
  "demoCrashed = demoWorld\<lparr>w_store := demoLeased\<lparr>ms_records := [''job'' \<mapsto> demoPendingCp], ms_leases := Map.empty\<rparr>\<rparr>"

text \<open>A runtime whose tools can be replayed.\<close>

definition demoReplayRuntime :: "(MemoryLeaseStore, unit) Runtime" where
  "demoReplayRuntime = demoRuntime\<lparr>rt_tools := Some (BaseTools (demoTools\<lparr>to_Replay := Some (\<lambda>t call. Some (''4'', None))\<rparr>))\<rparr>"

abbreviation demoResume :: "(MemoryLeaseStore, unit) world \<times> outcome" where
  "demoResume \<equiv> Resume demoEnv demoReplayRuntime False ''job'' demoCrashed"

lemma demo_pending_resumable: "resumable demoPendingCp"
proof -
  have "wfStructure demoPendingCp"
    by (simp add: wfStructure_def demoPendingCp_def demoInitial_def zeroCheckpoint_def zeroResult_def
        CheckpointSchemaVersion_def wfRecovery_def wfSteps_def wfPending_def wfStatus_def validCall_def
        demoCall_def startsTool_def finishesTool_def)
  moreover have "checkpointRevision demoPendingCp = 3" by code_simp
  moreover have "list_all validString (checkpointStrings demoPendingCp)" by code_simp
  moreover have "cp_SchemaVersion demoPendingCp = 3" "cp_ExecutionID demoPendingCp = ''job''"
      "cp_Revision demoPendingCp = 3" "cp_Status demoPendingCp = StatusRunningTool"
    by (simp_all add: demoPendingCp_def demoInitial_def zeroCheckpoint_def)
  ultimately show ?thesis
    by (simp add: resumable_def wfCheckpoint_wfStructure list_all_iff terminal_def)
qed

lemma demo_resume_kinds:
  "map effectKind (w_log (fst demoResume)) =
     [''loaded'', ''replayed'', ''renewed'', ''wrote'', ''wrote'', ''model'', ''wrote'']"
  by code_simp

lemma demo_resume_loads: "Loaded ''job'' (Inr demoPendingCp) \<in> set (w_log (fst demoResume))"
  by code_simp

lemma demo_resume_model:
  "\<exists>e. w_log (fst demoResume) = take 5 (w_log (fst demoResume)) @ e # drop 6 (w_log (fst demoResume)) \<and> isCallback e"
proof -
  let ?l = "w_log (fst demoResume)"
  have "length (map effectKind ?l) = 7" unfolding demo_resume_kinds by simp
  then have len: "length ?l = 7" by (simp only: length_map)
  have "map effectKind ?l ! 5 = ''model''" unfolding demo_resume_kinds by simp
  with len have "effectKind (?l ! 5) = ''model''" by simp
  then have "isCallback (?l ! 5)" by (cases "?l ! 5") (auto split: if_splits)
  with split_at [of 5 ?l "?l ! 5"] len show ?thesis by auto
qed

definition demoResumed :: Result where
  "demoResumed = cp_Result (last (acked (w_log (fst demoResume))))"

lemma demo_resume_outcome: "snd demoResume = Returned demoResumed None"
  by code_simp

lemma demo_loads:
  "loadExecution demoSession memoryStore ''job'' demoCrashed =
     (fst (loadExecution demoSession memoryStore ''job'' demoCrashed), Inr demoPendingCp)"
proof -
  have "snd (loadExecution demoSession memoryStore ''job'' demoCrashed) = Inr demoPendingCp" by code_simp
  then show ?thesis by (metis prod.collapse)
qed

text \<open>A store in which the execution has completed.\<close>

definition demoFinishedCp :: Checkpoint where
  "demoFinishedCp = demoInitial\<lparr>cp_Revision := 3, cp_ModelIterations := 1,
     cp_Result := (cp_Result demoInitial)\<lparr>rs_Status := StatusCompleted, rs_Output := ''4'',
        rs_Transitions := [\<lparr>tn_From = StatusCreated, tn_To = StatusRunningModel\<rparr>,
                           \<lparr>tn_From = StatusRunningModel, tn_To = StatusCompleted\<rparr>]\<rparr>\<rparr>"

definition demoFinished :: "(MemoryLeaseStore, unit) world" where
  "demoFinished = demoWorld\<lparr>w_store := demoLeased\<lparr>ms_records := [''job'' \<mapsto> demoFinishedCp], ms_leases := Map.empty\<rparr>\<rparr>"

abbreviation demoFinishedResume :: "(MemoryLeaseStore, unit) world \<times> outcome" where
  "demoFinishedResume \<equiv> Resume demoEnv demoRuntime False ''job'' demoFinished"

lemma demo_finished_loads: "Loaded ''job'' (Inr demoFinishedCp) \<in> set (w_log (fst demoFinishedResume))"
  by code_simp

lemma demo_finished_valid: "wfCheckpoint demoFinishedCp"
proof -
  have "validateCheckpoint demoFinishedCp = None" by code_simp
  then show ?thesis by (simp add: validateCheckpoint_iff)
qed

text \<open>A fresh store and a request.\<close>

definition demoRequest :: Request where
  "demoRequest = \<lparr>rq_ExecutionID = ''job'', rq_Prompt = ''2+2?''\<rparr>"

definition demoFresh :: "(MemoryLeaseStore, unit) world" where
  "demoFresh = demoWorld\<lparr>w_store := demoLeased\<lparr>ms_leases := Map.empty\<rparr>\<rparr>"

abbreviation demoRun :: "(MemoryLeaseStore, unit) world \<times> outcome" where
  "demoRun \<equiv> Run demoEnv demoRuntime False demoRequest demoFresh"

end
