(* ===== verification/Genuine_Steps.thy ===== *)
theory Genuine_Steps
  imports World_Invariants
begin

text \<open>
  What \<^verbatim>\<open>run\<close> reports and what it stores was really produced by the tools: every step of a result and of a
  checkpoint handed to the store is one of the steps it started from, or its call was executed in this
  run and its output is what the executor returned for it without an error.
\<close>

section \<open>Where a step comes from\<close>

text \<open>\<open>toolProduces tools call out\<close>: the executor may answer \<open>call\<close> with \<open>out\<close>.\<close>

fun toolProduces :: "ToolExecutor \<Rightarrow> ToolCall \<Rightarrow> string \<Rightarrow> bool" where
  "toolProduces (BaseTools ops) call out = (\<exists>t. to_Execute ops t call = Some (out, None))"
| "toolProduces (timeoutToolExecutor inner timeout) call out = toolProduces inner call out"

definition genuine :: "('s, 'o) session \<Rightarrow> Step list \<Rightarrow> effect list \<Rightarrow> Step \<Rightarrow> bool" where
  "genuine X base es st \<longleftrightarrow>
     st \<in> set base \<or>
     (ToolExecuted (sp_Call st) \<in> set es \<and>
      (\<exists>tools. rt_tools (ss_rt X) = Some tools \<and> toolProduces tools (sp_Call st) (tr_Output (sp_Result st))))"

fun writtenSteps :: "effect \<Rightarrow> Step list" where
  "writtenSteps (Wrote create cp tok r) = cp_Steps cp"
| "writtenSteps _ = []"

text \<open>The steps that the state and the effects since \<open>l\<close> mention.\<close>

definition mentioned :: "nat \<Rightarrow> ('s, 'o) rstate \<Rightarrow> Step set" where
  "mentioned l s = set (r_steps s) \<union> set (rs_Steps (r_lastSaved s)) \<union> (\<Union>e \<in> set (drop l (w_log s)). set (writtenSteps e))"

definition honest :: "('s, 'o) session \<Rightarrow> Step list \<Rightarrow> nat \<Rightarrow> ('s, 'o) rstate \<Rightarrow> bool" where
  "honest X base l s \<longleftrightarrow> l \<le> length (w_log s) \<and> (\<forall>st \<in> mentioned l s. genuine X base (drop l (w_log s)) st)"

definition honestResult :: "('s, 'o) session \<Rightarrow> Step list \<Rightarrow> nat \<Rightarrow> Result \<times> goerr option \<Rightarrow> ('s, 'o) rstate \<Rightarrow> bool" where
  "honestResult X base l r s \<longleftrightarrow> honest X base l s \<and> (\<forall>st \<in> set (rs_Steps (fst r)). genuine X base (drop l (w_log s)) st)"

lemma genuine_mono: "genuine X base es st \<Longrightarrow> genuine X base (es @ fs) st"
  by (auto simp: genuine_def)

lemma genuine_all_mono: "\<forall>st \<in> A. genuine X base es st \<Longrightarrow> \<forall>st \<in> A. genuine X base (es @ fs) st"
  by (blast intro: genuine_mono)

lemma Execute_produces:
  "Execute X tools call s = (s', Some (out, None)) \<Longrightarrow> toolProduces tools call out"
  by (induction X tools call s arbitrary: s' out rule: Execute.induct)
     (auto simp: executeWithTimeout_def split: prod.splits option.splits)

section \<open>Pieces of the loop\<close>

text \<open>The state may change in what no step is read from, and effects that write nothing may follow.\<close>

lemma honest_extend:
  assumes "honest X base l s" and "w_log t = w_log s @ es" and "\<forall>e \<in> set es. \<forall>st \<in> set (writtenSteps e). genuine X base (drop l (w_log s)) st"
    and "\<forall>st \<in> set (r_steps t) \<union> set (rs_Steps (r_lastSaved t)). genuine X base (drop l (w_log t)) st"
  shows "honest X base l t"
  using assms by (auto simp: honest_def mentioned_def intro: genuine_mono)

lemma honest_quiet:
  assumes "honest X base l s" and "w_log t = w_log s @ es" and "list_all (\<lambda>e. writtenSteps e = []) es"
    and "r_steps t = r_steps s" "r_lastSaved t = r_lastSaved s"
  shows "honest X base l t"
  using assms(1) by (rule honest_extend [OF _ assms(2)])
     (use assms in \<open>auto simp: honest_def mentioned_def list_all_iff intro: genuine_mono\<close>)

lemma renewals_unwritten: "list_all isRenewal es \<Longrightarrow> list_all (\<lambda>e. writtenSteps e = []) es"
  by (auto simp: list_all_iff elim!: isRenewal.elims)

lemma honest_passTime: "honest X base l s \<Longrightarrow> honest X base l (passTime Y s)"
  using passTime_log [of Y s] renewals_unwritten by (metis honest_quiet passTime_locals(4,6))

lemma honest_observe: "honest X base l s \<Longrightarrow> honest X base l (observe Y ev s)"
proof -
  assume h: "honest X base l s"
  obtain es where es: "w_log (observe Y ev s) = w_log s @ es" "es = [] \<or> (\<exists>rs. es = Observed ev # rs \<and> list_all isRenewal rs)"
    using observe_log [of Y ev s] by blast
  have "list_all (\<lambda>e. writtenSteps e = []) es" using es(2) renewals_unwritten by auto
  moreover have "r_steps (observe Y ev s) = r_steps s" "r_lastSaved (observe Y ev s) = r_lastSaved s"
    using sameLocals_observe [of s Y ev] by (simp_all add: sameLocals_def)
  ultimately show ?thesis using honest_quiet [OF h es(1)] by blast
qed

lemma honest_locals [simp]:
  "honest X base l (s\<lparr>r_exec := e\<rparr>) = honest X base l s"
  "honest X base l (s\<lparr>r_iterations := n\<rparr>) = honest X base l s"
  "honest X base l (s\<lparr>r_modelRetries := n\<rparr>) = honest X base l s"
  "honest X base l (s\<lparr>r_pendingTool := c\<rparr>) = honest X base l s"
  "honest X base l (s\<lparr>r_storeFailed := b\<rparr>) = honest X base l s"
  by (simp_all add: honest_def mentioned_def)

lemma persist_honest:
  assumes "honest X base l s" and "\<forall>st \<in> set (rs_Steps current). genuine X base (drop l (w_log s)) st"
    and "persist X initial current cause create s = (s', r)"
  shows "honest X base l s'"
proof (cases "rt_store (ss_rt X)")
  case None
  with assms show ?thesis by (simp add: persist_def)
next
  case (Some st)
  let ?cp = "assembleCheckpoint X initial current cause s"
  obtain s1 r1 where w: "writeCheckpoint X st ?cp create s = (s1, r1)" by force
  have steps: "cp_Steps ?cp = rs_Steps current" by (simp add: assembleCheckpoint_def)
  have same: "r_steps s1 = r_steps s" "r_lastSaved s1 = r_lastSaved s"
    using sameLocals_writeCheckpoint [OF w] by (simp_all add: sameLocals_def)
  obtain es where es: "w_log s1 = w_log s @ es"
      "\<forall>e \<in> set es. \<forall>st \<in> set (writtenSteps e). genuine X base (drop l (w_log s)) st"
  proof (cases "s1 = s")
    case False
    then obtain r0 rs where "w_log s1 = w_log s @ Wrote create (withRevision ?cp) (ss_token X) r0 # rs" "list_all isRenewal rs"
      using writeCheckpoint_log [OF w] by blast
    then show thesis
      by (intro that [of "Wrote create (withRevision ?cp) (ss_token X) r0 # rs"])
         (use assms(2) steps renewals_unwritten [of rs] in \<open>auto simp: list_all_iff\<close>)
  qed (use that [of "[]"] in simp)
  have "honest X base l (s1\<lparr>r_storeFailed := True\<rparr>)"
    by (rule honest_extend [OF assms(1) _ es(2)])
       (use es(1) same assms(1) in \<open>auto simp: honest_def mentioned_def intro: genuine_mono\<close>)
  moreover have "honest X base l (s1\<lparr>r_lastSaved := cloneResult (current\<lparr>rs_ExecutionID := i\<rparr>)\<rparr>)" for i
    by (rule honest_extend [OF assms(1) _ es(2)])
       (use es(1) same assms(1,2) in \<open>auto simp: honest_def mentioned_def intro: genuine_mono\<close>)
  ultimately show ?thesis using assms(3) w Some by (auto simp: persist_def split: option.splits)
qed

text \<open>Bodies whose every way out is honest.\<close>

abbreviation honestly :: "('s, 'o) session \<Rightarrow> Step list \<Rightarrow> nat \<Rightarrow> ('s, 'o, 'a) body \<Rightarrow> bool" where
  "honestly X base l m \<equiv> triple (honest X base l) m (\<lambda>_. honest X base l) (honestResult X base l) (honest X base l)"

lemma honest_snapshot:
  "honest X base l s \<Longrightarrow> rs_Steps (fst r) = r_steps s \<Longrightarrow> honestResult X base l r s"
  by (auto simp: honestResult_def honest_def mentioned_def)

lemma honest_saved:
  "honest X base l s \<Longrightarrow> rs_Steps (fst r) = rs_Steps (r_lastSaved s) \<Longrightarrow> honestResult X base l r s"
  by (auto simp: honestResult_def honest_def mentioned_def)

lemma honestly_reads: "(\<And>s. honestly X base l (k s)) \<Longrightarrow> honestly X base l (reads k)"
  by (simp add: triple_def reads_def)

lemma honestly_andThen: "honestly X base l m \<Longrightarrow> (\<And>x. honestly X base l (k x)) \<Longrightarrow> honestly X base l (andThen m k)"
  by (rule triple_andThen)

lemma honestly_option: "honestly X base l m \<Longrightarrow> (\<And>y. honestly X base l (n y)) \<Longrightarrow> honestly X base l (case x of None \<Rightarrow> m | Some y \<Rightarrow> n y)"
  by (cases x) auto

lemma honestly_if: "honestly X base l m \<Longrightarrow> honestly X base l n \<Longrightarrow> honestly X base l (if b then m else n)"
  by simp

lemma honestly_change: "(\<And>s. honest X base l (f s) = honest X base l s) \<Longrightarrow> honestly X base l (modify f)"
  by (intro triple_modify) auto

lemma honestly_abort: "honestly X base l (abort st err)"
  unfolding triple_def abort_def
  by (auto simp: andThen_def modify_def reads_def returns_def snapshot_def cloneSteps_def intro!: honest_snapshot)

lemma honestly_checkContext: "honestly X base l checkContext"
  unfolding checkContext_def by (intro honestly_reads honestly_option honestly_abort triple_pass)

lemma honestly_save: "honestly X base l (save X initial)"
  unfolding triple_def save_def
proof (intro allI impI)
  fix s
  assume h: "honest X base l s"
  obtain s' r where p: "persist X initial (snapshot (r_exec s) (r_steps s) []) None False s = (s', r)" by force
  have "honest X base l s'"
    by (rule persist_honest [OF h _ p]) (use h in \<open>auto simp: snapshot_def cloneSteps_def honest_def mentioned_def\<close>)
  with p show "case case persist X initial (snapshot (r_exec s) (r_steps s) []) None False s of
        (s', None) \<Rightarrow> (s', Go ()) | (s', Some err) \<Rightarrow> (s', Ret (r_lastSaved s', Some err)) of
      (s', Go x) \<Rightarrow> honest X base l s' | (s', Ret r) \<Rightarrow> honestResult X base l r s' | (s', Panic) \<Rightarrow> honest X base l s'"
    by (auto simp: honest_saved split: option.splits)
qed

lemma honestly_advance: "honestly X base l (advance st)"
  unfolding triple_def advance_def
  by (auto simp: snapshot_def cloneSteps_def intro!: honest_snapshot split: prod.splits option.splits)

lemma honestly_wait: "honestly X base l (waitModelRetry X)"
  by (simp add: triple_def waitModelRetry_def Let_def honest_passTime)

lemma honestly_callModel: "honestly X base l (callModel X initial)"
  unfolding triple_def
proof (intro allI impI)
  fix s
  assume h: "honest X base l s"
  let ?s1 = "observe X (plainEvent EventModelStarted (rq_ExecutionID (cp_Request initial)) StatusRunningModel (r_iterations s)) s"
  let ?inp = "\<lparr>mi_Prompt = rq_Prompt (cp_Request initial), mi_Steps = cloneSteps (r_steps ?s1)\<rparr>"
  obtain s2 r where n: "Next X (rt_model (ss_rt X)) ?inp ?s1 = (s2, r)" by force
  obtain rs where rs: "w_log s2 = w_log ?s1 @ ModelCalled ?inp # rs" "list_all isRenewal rs" using Next_log [OF n] by blast
  have "honest X base l s2"
    by (rule honest_quiet [OF honest_observe [OF h] rs(1)])
       (use renewals_unwritten [OF rs(2)] sameLocals_Next [OF n] in \<open>simp_all add: sameLocals_def\<close>)
  with n show "case callModel X initial s of (s', Go x) \<Rightarrow> honest X base l s'
      | (s', Ret r) \<Rightarrow> honestResult X base l r s' | (s', Panic) \<Rightarrow> honest X base l s'"
    by (cases r) (auto simp: callModel_def Let_def intro: honest_observe)
qed

text \<open>The tool's answer is genuine from the moment it is there.\<close>

lemma honest_callTool:
  assumes "rt_tools (ss_rt X) = Some tools"
  shows "triple (honest X base l) (callTool X initial tools call)
    (\<lambda>(out, err) s. honest X base l s \<and>
       (err = None \<longrightarrow> ToolExecuted call \<in> set (drop l (w_log s)) \<and> toolProduces tools call out))
    (honestResult X base l) (honest X base l)"
  unfolding triple_def
proof (intro allI impI)
  fix s
  assume h: "honest X base l s"
  let ?s1 = "observe X (toolEvent EventToolStarted (rq_ExecutionID (cp_Request initial)) (r_iterations s) call) s"
  obtain s2 r where n: "Execute X tools call ?s1 = (s2, r)" by force
  obtain rs where rs: "w_log s2 = w_log ?s1 @ ToolExecuted call # rs" "list_all isRenewal rs" using Execute_log [OF n] by blast
  have h2: "honest X base l s2"
    by (rule honest_quiet [OF honest_observe [OF h] rs(1)])
       (use renewals_unwritten [OF rs(2)] sameLocals_Execute [OF n] in \<open>simp_all add: sameLocals_def\<close>)
  have l: "l \<le> length (w_log ?s1)" using honest_observe [OF h] unfolding honest_def by blast
  have "ToolExecuted call \<in> set (drop l (w_log (observe X ev s2)))" for ev
    using observe_log [of X ev s2] rs(1) l by auto
  with n h2 Execute_produces [of X tools call ?s1 s2] show "case callTool X initial tools call s of
      (s', Go x) \<Rightarrow> (case x of (out, err) \<Rightarrow> \<lambda>s. honest X base l s \<and>
         (err = None \<longrightarrow> ToolExecuted call \<in> set (drop l (w_log s)) \<and> toolProduces tools call out)) s'
    | (s', Ret r) \<Rightarrow> honestResult X base l r s' | (s', Panic) \<Rightarrow> honest X base l s'"
    by (cases r) (auto simp: callTool_def Let_def intro: honest_observe)
qed

lemma honestly_commit:
  assumes "rt_tools (ss_rt X) = Some tools"
  shows "triple (\<lambda>s. honest X base l s \<and> ToolExecuted call \<in> set (drop l (w_log s)) \<and> toolProduces tools call out)
    (modify (\<lambda>s. s\<lparr>r_steps := r_steps s @ [completedStep (r_steps s) call out]\<rparr>)) (\<lambda>_. honest X base l)
    (honestResult X base l) (honest X base l)"
  using assms by (intro triple_modify) (auto simp: honest_def mentioned_def genuine_def completedStep_def)

lemma checkContext_keeps:
  "triple (\<lambda>s. honest X base l s \<and> K s) checkContext (\<lambda>_ s. honest X base l s \<and> K s) (honestResult X base l) (honest X base l)"
  by (auto simp: triple_def checkContext_def abort_def reads_def pass_def andThen_def modify_def returns_def snapshot_def
      cloneSteps_def intro!: honest_snapshot split: option.splits)

lemmas honestly_rules = honestly_andThen honestly_reads honestly_option honestly_if honestly_abort honestly_checkContext
  honestly_save honestly_advance honestly_wait honestly_callModel honestly_change

lemma honestly_runTool:
  assumes "rt_tools (ss_rt X) = Some tools"
  shows "honestly X base l (runTool X initial tools call)"
  unfolding runTool_def
proof (rule triple_andThen [OF honest_callTool [OF assms]], goal_cases)
  case (1 r)
  obtain out err where r: "r = (out, err)" by force
  show ?case
  proof (cases err)
    case None
    have "honestly X base l (andThen (advance StatusRunningModel) (\<lambda>_. andThen (modify (\<lambda>s. s\<lparr>r_pendingTool := None\<rparr>)) (\<lambda>_. save X initial)))"
      by (intro honestly_rules) simp
    from triple_andThen [OF checkContext_keeps triple_andThen [OF honestly_commit [OF assms] this]] None r show ?thesis by simp
  next
    case (Some e)
    have "honestly X base l (andThen checkContext (\<lambda>_. abort StatusFailed (Errorf [Lit ''execute tool '', Quoted (tc_Name call), Lit '': '', W e])))"
      by (intro honestly_rules)
    with Some r show ?thesis by simp
  qed
qed

lemma honestly_dispatchTool: "honestly X base l (dispatchTool X initial call)"
  unfolding dispatchTool_def
  by (intro honestly_reads honestly_if honestly_abort triple_option honestly_andThen honestly_advance honestly_save
      honestly_checkContext honestly_runTool honestly_change) simp_all

lemma honestly_handleModelError: "honestly X base l (handleModelError X initial err)"
  unfolding handleModelError_def by (intro honestly_rules triple_pass) simp_all

lemma honestly_handleDecision: "honestly X base l (handleDecision X initial d)"
proof -
  have "honestly X base l (reads (\<lambda>s. returns (snapshot (r_exec s) (r_steps s) out, None)))" for out
    by (auto simp: triple_def reads_def returns_def snapshot_def cloneSteps_def intro!: honest_snapshot)
  note final = honestly_andThen [OF honestly_advance this]
  show ?thesis
    unfolding handleDecision_def
    by (cases "Validate d"; cases "d_Kind d") (simp_all add: honestly_abort honestly_dispatchTool triple_pass final)
qed

lemma honestly_iteration: "honestly X base l (iteration X initial)"
proof -
  have "honestly X base l (case err of Some e \<Rightarrow> handleModelError X initial e
      | None \<Rightarrow> andThen checkContext (\<lambda>_. handleDecision X initial d))" for d err
    by (intro honestly_rules honestly_handleModelError honestly_handleDecision)
  then show ?thesis unfolding iteration_def by (intro honestly_rules) (simp_all split: prod.split)
qed

lemma honestly_runBody: "triple (honest X base l) (runBody X initial) (\<lambda>_ _. False) (honestResult X base l) (honest X base l)"
proof -
  have "honestly X base l startRunning"
    by (auto simp: triple_def startRunning_def intro!: honest_saved split: prod.splits option.splits)
  moreover have "triple (honest X base l) (runLoop X initial) (\<lambda>_ _. False) (honestResult X base l) (honest X base l)"
  proof (rule runLoop_triple)
    show "triple (\<lambda>s. honest X base l s \<and> r_iterations s < cp_MaxSteps initial) (iteration X initial)
        (\<lambda>_. honest X base l) (honestResult X base l) (honest X base l)"
      by (rule triple_pre [OF honestly_iteration]) simp
    have "honestly X base l exhausted" unfolding exhausted_def by (intro honestly_rules)
    then show "triple (\<lambda>s. honest X base l s \<and> \<not> r_iterations s < cp_MaxSteps initial) exhausted
        (\<lambda>_ _. False) (honestResult X base l) (honest X base l)"
      by (intro triple_exhausted_leaves) (erule triple_pre, simp)
  qed
  ultimately show ?thesis unfolding runBody_def by (rule triple_andThen)
qed

section \<open>The whole call\<close>

lemma persistTerminal_honest:
  assumes "honestResult X base l (res, err) s" and "persistTerminal X initial res err s = (s', res', err')"
  shows "honestResult X base l (res', err') s'"
proof (cases "s' = s \<and> res' = res")
  case True
  with assms(1) show ?thesis by (simp add: honestResult_def)
next
  case False
  obtain s1 r where p: "persist X initial res err False s = (s1, r)" by force
  have h: "honest X base l s1" by (rule persist_honest [OF _ _ p]) (use assms(1) in \<open>auto simp: honestResult_def\<close>)
  obtain es where "w_log s1 = w_log s @ es"
    using p by (auto simp: persist_def dest!: writeCheckpoint_log split: option.splits prod.splits)
  moreover have "l \<le> length (w_log s)" using assms(1) by (simp add: honestResult_def honest_def)
  ultimately have g: "\<forall>st \<in> set (rs_Steps res). genuine X base (drop l (w_log s1)) st"
    using assms(1) genuine_all_mono [of "set (rs_Steps res)" X base "drop l (w_log s)" es] by (simp add: honestResult_def)
  from assms(2) p False have "s' = s1 \<and> (res' = res \<or> res' = r_lastSaved s1)"
    by (auto simp: persistTerminal_def split: if_splits option.splits)
  with h g honest_saved [OF h, of "(res', err')"] show ?thesis by (auto simp: honestResult_def)
qed

lemma finishRun_honest:
  assumes "triple (honest X base l) m (\<lambda>_ _. False) (honestResult X base l) (honest X base l)" and "honest X base l s"
    and "finishRun X initial t0 (m s) = (s', out)"
  shows "honest X base l s' \<and> (\<forall>res err. out = Returned res err \<longrightarrow> honestResult X base l (res, err) s')"
proof -
  obtain s1 f where m: "m s = (s1, f)" by force
  show ?thesis
  proof (cases f)
    case (Ret re)
    obtain res err where re: "re = (res, err)" by force
    let ?res = "res\<lparr>rs_ExecutionID := rq_ExecutionID (cp_Request initial)\<rparr>"
    obtain s2 res' err' where p: "persistTerminal X initial ?res err s1 = (s2, res', err')" by (metis surj_pair)
    have "honestResult X base l (?res, err) s1"
      using assms(1,2) m Ret re by (auto simp: triple_def honestResult_def)
    from persistTerminal_honest [OF this p] have h: "honestResult X base l (res', err') s2" .
    have "honestResult X base l (res', err') (observe X ev s2)" for ev
    proof -
      obtain es where "w_log (observe X ev s2) = w_log s2 @ es" using observe_log [of X ev s2] by blast
      moreover have "l \<le> length (w_log s2)" using h by (simp add: honestResult_def honest_def)
      ultimately show ?thesis
        using h honest_observe [of X base l s2 X ev] genuine_all_mono [of "set (rs_Steps res')" X base "drop l (w_log s2)" es]
        by (simp add: honestResult_def)
    qed
    with h have "honestResult X base l (res', err') (observeTerminal X initial t0 res' err' s2)"
      by (simp add: observeTerminal_def Let_def)
    with assms(3) m Ret re p show ?thesis by (auto simp: finishRun_def honestResult_def)
  qed (use assms m in \<open>auto simp: triple_def finishRun_def\<close>)
qed

lemma run_honest:
  assumes "run X initial create w = (s', out)"
  shows "honest X (cp_Steps initial) (length (w_log w)) s' \<and>
    (\<forall>res err. out = Returned res err \<longrightarrow> honestResult X (cp_Steps initial) (length (w_log w)) (res, err) s')"
proof -
  let ?h = "honest X (cp_Steps initial) (length (w_log w))" and ?s0 = "startState initial w"
  have h0: "?h ?s0" by (auto simp: honest_def mentioned_def startState_def cloneSteps_def genuine_def)
  show ?thesis
  proof (cases create)
    case True
    obtain s1 r where p: "persist X initial (r_lastSaved ?s0) None True ?s0 = (s1, r)" by force
    have h1: "?h s1" by (rule persist_honest [OF h0 _ p]) (use h0 in \<open>auto simp: honest_def mentioned_def\<close>)
    show ?thesis
    proof (cases r)
      case None
      from finishRun_honest [OF honestly_runBody honest_observe [OF h1]] assms p True None show ?thesis
        by (auto simp: run_def Let_def)
    next
      case (Some err)
      with assms p True h1 show ?thesis by (auto simp: run_def Let_def intro: honest_saved)
    qed
  next
    case False
    from finishRun_honest [OF honestly_runBody h0] assms False show ?thesis by (auto simp: run_def Let_def)
  qed
qed

text \<open>In terms of the history of a call and its outcome.\<close>

lemma history_genuine:
  "list_all (\<lambda>e. list_all (genuine X (cp_Steps initial) (history X initial create w)) (writtenSteps e)) (history X initial create w)"
  "outcomeOf X initial create w = Returned res err \<Longrightarrow>
     list_all (genuine X (cp_Steps initial) (history X initial create w)) (rs_Steps res)"
proof -
  obtain s' out where r: "run X initial create w = (s', out)" by force
  from run_honest [OF r] r show
    "list_all (\<lambda>e. list_all (genuine X (cp_Steps initial) (history X initial create w)) (writtenSteps e)) (history X initial create w)"
    "outcomeOf X initial create w = Returned res err \<Longrightarrow>
       list_all (genuine X (cp_Steps initial) (history X initial create w)) (rs_Steps res)"
    by (auto simp: honestResult_def honest_def mentioned_def history_def outcomeOf_def list_all_iff)
qed

end
