(* ===== verification/Run_Guarantees.thy ===== *)
theory Run_Guarantees
  imports Scenario Genuine_Steps
begin

text \<open>
  What a call of \<^verbatim>\<open>run\<close> guarantees about its history of effects and about its outcome.
\<close>

text \<open>
  C1. With a store, every call of \<^verbatim>\<open>run\<close> on a valid checkpoint refines the abstract harness protocol: its
  whole history of effects (store writes with their answers, callbacks, events, lease renewals) is a
  run of the protocol machine, and the outcome is the one the machine's final state allows. A
  returned result is the last acknowledged snapshot, terminal unless the error is
  \<^verbatim>\<open>ErrCheckpointStore\<close>, and the error is nil exactly for a completed execution.
\<close>

theorem run_follows_protocol:
  assumes "admissible initial create" and "rt_store (ss_rt X) \<noteq> None"
  shows "\<exists>p saved. follow (startPhase create, initial) (history X initial create w) = Some (p, saved) \<and>
    settled p saved (outcomeOf X initial create w)"
  by (rule run_reaches_durably [OF assms]) blast

theorem run_follows_protocol_witness:
  "\<exists>p saved. follow (startPhase True, demoInitial) demoHistory = Some (p, saved) \<and>
    settled p saved (outcomeOf demoSession demoInitial True demoWorld)"
  by (rule run_follows_protocol [OF demo_admissible demo_store])

text \<open>
  C2. Before every tool callback the store has acknowledged a \<^verbatim>\<open>running_tool\<close> checkpoint that records
  exactly this call as pending and whose completed steps do not contain its identifier; nothing but
  events and lease renewals lies between that write and the callback.
\<close>

theorem tool_call_has_durable_intent:
  assumes "admissible initial create" and "rt_store (ss_rt X) \<noteq> None"
    and "history X initial create w = es @ ToolExecuted call # fs"
  shows "\<exists>cp. coveredBy es cp \<and> cp_Status cp = StatusRunningTool \<and> cp_PendingTool cp = Some call \<and>
    tc_ID call \<notin> stepID ` set (cp_Steps cp)"
proof (rule run_reaches_durably [OF assms(1,2)])
  fix p saved
  assume "follow (startPhase create, initial) (history X initial create w) = Some (p, saved)"
  from follow_tool_covered [OF this [unfolded assms(3)] startPhase_cases admissible_phaseShows [OF assms(1)]]
  show ?thesis .
qed

theorem tool_call_has_durable_intent_witness:
  "\<exists>cp. coveredBy (take 5 demoHistory) cp \<and> cp_Status cp = StatusRunningTool \<and> cp_PendingTool cp = Some demoCall \<and>
    tc_ID demoCall \<notin> stepID ` set (cp_Steps cp)"
  by (rule tool_call_has_durable_intent [OF demo_admissible demo_store demo_tool_split])

text \<open>
  C3. Before every model callback the store has acknowledged a \<^verbatim>\<open>running_model\<close> checkpoint that counts
  this very attempt (the attempts at the start, plus the model callbacks so far, plus one), and the
  model sees exactly the prompt and the steps of that checkpoint.
\<close>

theorem model_call_has_durable_reservation:
  assumes "admissible initial create" and "rt_store (ss_rt X) \<noteq> None"
    and "history X initial create w = es @ ModelCalled inp # fs"
  shows "\<exists>cp. coveredBy es cp \<and> cp_Status cp = StatusRunningModel \<and>
    cp_ModelIterations cp = cp_ModelIterations initial + int (modelCalls es) + 1 \<and>
    inp = \<lparr>mi_Prompt = rq_Prompt (cp_Request cp), mi_Steps = cp_Steps cp\<rparr>"
proof (rule run_reaches_durably [OF assms(1,2)])
  fix p saved
  assume f: "follow (startPhase create, initial) (history X initial create w) = Some (p, saved)"
  have "cp_ModelIterations initial \<le> cp_MaxSteps initial"
    using admissible_wf [OF assms(1)] by (simp add: wfStructure_def)
  from follow_model_covered [OF f [unfolded assms(3)] startPhase_cases admissible_phaseShows [OF assms(1)] this]
  show ?thesis .
qed

theorem model_call_has_durable_reservation_witness:
  "\<exists>cp. coveredBy (take 8 demoHistory) cp \<and> cp_Status cp = StatusRunningModel \<and>
    cp_ModelIterations cp = cp_ModelIterations demoInitial + int (modelCalls (take 8 demoHistory)) + 1 \<and>
    \<lparr>mi_Prompt = ''2+2?'', mi_Steps = [completedStep [] demoCall ''4'']\<rparr> =
      \<lparr>mi_Prompt = rq_Prompt (cp_Request cp), mi_Steps = cp_Steps cp\<rparr>"
  by (rule model_call_has_durable_reservation [OF demo_admissible demo_store demo_model_split])

text \<open>
  C4. Within one call of \<^verbatim>\<open>run\<close> no tool-call identifier is executed twice, and none that is already
  completed in the initial checkpoint is executed again, with or without a store and whatever the
  model, the tools, the store and the environment do.
\<close>

theorem tools_execute_at_most_once:
  assumes "admissible initial create"
  shows "distinct (executedIDs (history X initial create w)) \<and>
    stepID ` set (cp_Steps initial) \<inter> set (executedIDs (history X initial create w)) = {}"
  using run_executes_new [OF assms, of X w] by (rule conjI)

theorem tools_execute_at_most_once_witness:
  "distinct (executedIDs demoHistory) \<and> stepID ` set (cp_Steps demoInitial) \<inter> set (executedIDs demoHistory) = {}"
  by (rule tools_execute_at_most_once [OF demo_admissible])

text \<open>
  C5. The model is called at most \<^verbatim>\<open>MaxSteps - ModelIterations\<close> times, retries included, with or without a store.
\<close>

theorem model_calls_within_budget:
  assumes "admissible initial create"
  shows "int (modelCalls (history X initial create w)) \<le> cp_MaxSteps initial - cp_ModelIterations initial"
proof (rule run_reaches [OF assms])
  fix es p saved
  assume f: "follow (startPhase create, initial) es = Some (p, saved)"
    and c: "filter isCallback es = filter isCallback (history X initial create w)"
  have e: "modelCalls (history X initial create w) = modelCalls es"
    using modelCalls_callbacks c by metis
  have "cp_ModelIterations initial \<le> cp_MaxSteps initial"
    using admissible_wf [OF assms] by (simp add: wfStructure_def)
  from follow_modelAccount [OF f startPhase_cases this] show ?thesis
    unfolding modelAccount_def e by linarith
qed

theorem model_calls_within_budget_witness:
  "int (modelCalls demoHistory) \<le> cp_MaxSteps demoInitial - cp_ModelIterations demoInitial"
  by (rule model_calls_within_budget [OF demo_admissible])

text \<open>
  C6. After a write the store refuses there is no further write and no callback, only events and lease
  renewals; the call returns the last acknowledged snapshot and an error that is \<^verbatim>\<open>ErrCheckpointStore\<close>.
\<close>

theorem nothing_after_refused_write:
  assumes "admissible initial create" and "rt_store (ss_rt X) \<noteq> None"
    and "history X initial create w = es @ Wrote b cp tok (Some e) # fs"
  shows "list_all inert fs \<and>
    (\<exists>err. outcomeOf X initial create w = Returned (cp_Result (last (initial # acked es))) (Some err) \<and>
       errorsIs err ErrCheckpointStore)"
proof (rule run_reaches_durably [OF assms(1,2)])
  fix p saved
  assume f: "follow (startPhase create, initial) (history X initial create w) = Some (p, saved)"
    and o: "settled p saved (outcomeOf X initial create w)"
  from f [unfolded assms(3)] obtain st1 st2 where s: "follow (startPhase create, initial) es = Some st1"
      "protocolStep st1 (Wrote b cp tok (Some e)) = Some st2" "follow st2 fs = Some (p, saved)"
    by (rule follow_split)
  obtain q sv where q: "st1 = (q, sv)" by (cases st1)
  with s(2) have st2: "st2 = (Stopped, sv)" "q \<noteq> Stopped" by (auto split: if_splits)
  from stopped_follow [OF s(3) [unfolded st2(1)]] have fs: "list_all inert fs" "p = Stopped" "saved = sv" by auto
  have "sv = last (initial # acked es)" by (rule follow_saved [OF s(1) [unfolded q]])
  moreover have "\<not> terminal (cp_Status sv)"
    using phaseShows_follow [OF s(1) [unfolded q] admissible_phaseShows [OF assms(1)]] st2(2)
      follow_fresh [of "startPhase create" initial es sv] s(1) q assms(1)
    by (cases q) (auto simp: terminal_def admissible_def runnable_def)
  ultimately show ?thesis using o fs by (auto simp: settled_def split: outcome.splits)
qed

theorem nothing_after_refused_write_witness:
  "list_all inert [] \<and>
    (\<exists>err. outcomeOf demoSlow demoInitial True demoWorld = Returned (cp_Result (last (demoInitial # acked []))) (Some err) \<and>
       errorsIs err ErrCheckpointStore)"
  by (rule nothing_after_refused_write [OF demo_admissible demo_slow_store demo_refused])

text \<open>
  C7. The revisions of the acknowledged writes of one call are consecutive: they start at 1 for a new
  execution and one above the durable progress of the checkpoint for a resumed one (no 64-bit
  wrap-around up to a budget of \<open>2 ^ 61\<close> steps).
\<close>

theorem revisions_are_consecutive:
  assumes "admissible initial create" and "rt_store (ss_rt X) \<noteq> None" and "spokenCauses X w"
    and "cp_MaxSteps initial \<le> 2 ^ 61"
  shows "map (\<lambda>cp. unat (cp_Revision cp)) (acked (history X initial create w)) =
    (let base = if create then 0 else progress initial
     in [base + 1 ..< base + 1 + length (acked (history X initial create w))])"
proof (rule run_reaches_durably [OF assms(1,2)])
  fix p saved
  assume f: "follow (startPhase create, initial) (history X initial create w) = Some (p, saved)"
    and s: "spokenCauses X w \<Longrightarrow> list_all soundEffect (history X initial create w)"
  from follow_revisions [OF f startPhase_cases admissible_phaseShows [OF assms(1)] admissible_wf [OF assms(1)]
      assms(4) s [OF assms(3)]]
  show ?thesis by (simp add: baseRevision_def Let_def del: upt_Suc)
qed

theorem revisions_are_consecutive_witness:
  "map (\<lambda>cp. unat (cp_Revision cp)) (acked demoHistory) =
    (let base = if True then 0 else progress demoInitial in [base + 1 ..< base + 1 + length (acked demoHistory)])"
  by (rule revisions_are_consecutive [OF demo_admissible demo_store demo_spoken])
     (simp add: demoInitial_def zeroCheckpoint_def)



text \<open>
  C9. When a call returns without an error, the result is completed and it is the result of the last
  checkpoint the store acknowledged in this call.
\<close>

theorem completed_result_is_durable:
  assumes "admissible initial create" and "rt_store (ss_rt X) \<noteq> None"
    and "outcomeOf X initial create w = Returned res None"
  shows "rs_Status res = StatusCompleted \<and> acked (history X initial create w) \<noteq> [] \<and>
    cp_Result (last (acked (history X initial create w))) = res"
  by (rule run_completed [OF assms])

theorem completed_result_is_durable_witness:
  "rs_Status demoResult = StatusCompleted \<and> acked demoHistory \<noteq> [] \<and> cp_Result (last (acked demoHistory)) = demoResult"
  by (rule completed_result_is_durable [OF demo_admissible demo_store demo_outcome])

text \<open>
  C10. When a callback panics, the last acknowledged checkpoint is either a \<^verbatim>\<open>running_model\<close> one whose
  attempt counter includes the failed attempt, or a \<^verbatim>\<open>running_tool\<close> one that names the executed call as
  pending: a later \<^verbatim>\<open>Resume\<close> sees what was going on.
\<close>

theorem panic_leaves_running_checkpoint:
  assumes "admissible initial create" and "rt_store (ss_rt X) \<noteq> None"
    and "outcomeOf X initial create w = Panicked"
    and "cp = last (initial # acked (history X initial create w))"
  shows "cp_Status cp = StatusRunningModel \<and>
      cp_ModelIterations cp = cp_ModelIterations initial + int (modelCalls (history X initial create w)) \<or>
    (\<exists>call. cp_Status cp = StatusRunningTool \<and> cp_PendingTool cp = Some call \<and>
       ToolExecuted call \<in> set (history X initial create w))"
proof (rule run_reaches_durably [OF assms(1,2)])
  fix p saved
  assume f: "follow (startPhase create, initial) (history X initial create w) = Some (p, saved)"
    and o: "settled p saved (outcomeOf X initial create w)"
  have cp: "cp = saved" using follow_saved [OF f] assms(4) by simp
  have "cp_ModelIterations initial \<le> cp_MaxSteps initial"
    using admissible_wf [OF assms(1)] by (simp add: wfStructure_def)
  note acc = follow_modelAccount [OF f startPhase_cases this]
    and ph = phaseShows_follow [OF f admissible_phaseShows [OF assms(1)]]
  from o assms(3) consider "p = Answered" | call where "p = Dispatched call" by (auto simp: settled_def)
  then show ?thesis
  proof cases
    case 1
    with acc ph show ?thesis by (simp add: cp modelAccount_def)
  next
    case (2 call)
    with f have "ToolExecuted call \<in> set (history X initial create w)"
      by (intro follow_dispatched) (auto split: if_splits)
    with 2 ph show ?thesis by (simp add: cp)
  qed
qed

theorem panic_leaves_running_checkpoint_witness:
  "\<exists>cp. (cp_Status cp = StatusRunningModel \<and>
      cp_ModelIterations cp = cp_ModelIterations demoInitial +
        int (modelCalls (history demoPanicking demoInitial True demoWorld))) \<or>
    (\<exists>call. cp_Status cp = StatusRunningTool \<and> cp_PendingTool cp = Some call \<and>
       ToolExecuted call \<in> set (history demoPanicking demoInitial True demoWorld))"
  by (rule exI, rule panic_leaves_running_checkpoint [OF demo_admissible demo_panicking_store demo_panic refl])




end
