(* ===== verification/Recovery_Guarantees.thy ===== *)
theory Recovery_Guarantees
  imports Scenario
begin

text \<open>
  What the entry points \<^verbatim>\<open>Run\<close> and \<^verbatim>\<open>Resume\<close> guarantee.
\<close>

text \<open>
  C12. \<^verbatim>\<open>Run\<close> on a runtime built from the library's options, with a store, either is rejected before anything
  happens (empty history, zero result and an error), or its whole history follows the protocol from
  the created checkpoint of the request and its outcome is the one the protocol allows.
\<close>

theorem Run_follows_protocol:
  assumes "wfRuntime rt" and "rt_store rt \<noteq> None" and "Run E rt nilCtx req w = (w', out)"
  shows "(\<exists>err. out = Returned zeroResult (Some err) \<and> w_log w' = w_log w) \<or>
    (\<exists>es p saved. w_log w' = w_log w @ es \<and>
       follow (Fresh, initialCheckpoint rt req) es = Some (p, saved) \<and> settled p saved out)"
proof (cases "nilCtx \<or> rq_Prompt req = [] \<or> rq_ExecutionID req = []")
  case True
  with assms show ?thesis by (auto simp: Run_def split: if_splits)
next
  case False
  let ?X0 = "ownSession E rt (rq_ExecutionID req)"
  have adm: "admissible (initialCheckpoint rt req) True" using assms(1) False by (intro initial_admissible) auto
  from assms(3) False have u: "underOwnership ?X0 (rq_ExecutionID req) False
      (\<lambda>X. runWorld X (initialCheckpoint rt req) True) w = (w', out)"
    by (auto simp: Run_def split: if_splits)
  have nr: "\<not> ss_renewing ?X0" by simp
  from nr u show ?thesis
  proof (cases rule: underOwnership_cases)
    case (1 err)
    then show ?thesis by blast
  next
    case (2 X w1 w2)
    have st: "rt_store (ss_rt X) \<noteq> None" using 2(1) assms(2) by simp
    have "w_log w' = w_log w @ history X (initialCheckpoint rt req) True w1"
      using 2 runWorld_log [of X "initialCheckpoint rt req" True w1] by simp
    moreover have "out = outcomeOf X (initialCheckpoint rt req) True w1"
      using 2(5) runWorld_outcome [of X "initialCheckpoint rt req" True w1] by simp
    ultimately show ?thesis
      using run_reaches_durably [OF adm st, of w1] by auto
  qed
qed

theorem Run_follows_protocol_witness:
  "(\<exists>err. snd demoRun = Returned zeroResult (Some err) \<and> w_log (fst demoRun) = w_log demoFresh) \<or>
    (\<exists>es p saved. w_log (fst demoRun) = w_log demoFresh @ es \<and>
       follow (Fresh, initialCheckpoint demoRuntime demoRequest) es = Some (p, saved) \<and> settled p saved (snd demoRun))"
  by (rule Run_follows_protocol [where nilCtx = False and E = demoEnv])
     (simp_all add: wfRuntime_def demoRuntime_def)

text \<open>
  C13. \<^verbatim>\<open>Resume\<close> never repeats a tool: relative to the checkpoint it loaded, no identifier is executed twice,
  none of a completed step and not the one of the pending call is executed, and at most one replay
  happens, of exactly the pending call.
\<close>

theorem Resume_repeats_no_tool:
  assumes "Resume E rt nilCtx i w = (w', out)"
  shows "\<exists>es. w_log w' = w_log w @ es \<and> (\<forall>cp. Loaded i (Inr cp) \<in> set es \<longrightarrow> repeatsNoTool cp es)"
  using assms
proof (cases rule: Resume_cases)
  case (1 err)
  then show ?thesis by (intro exI [of _ "[]"]) simp
next
  case (2 st X w1 w2)
  have store: "rt_store (ss_rt X) \<noteq> None" using 2(1,2) by simp
  from 2(6) show ?thesis
  proof (cases rule: resumeBody_cases)
    case (stops r rs)
    with 2 show ?thesis
      by (intro exI [of _ "Loaded i r # rs"]) (auto simp: repeatsNoTool_def renewals_facts)
  next
    case (pendingStops cp call rs es)
    with 2 pendingLog_facts [OF pendingStops(6)] renewals_facts [OF pendingStops(2)] show ?thesis
      by (intro exI [of _ "Loaded i (Inr cp) # rs @ es"]) (auto simp: repeatsNoTool_def)
  next
    case (runs cp rs w0)
    have adm: "admissible cp False" by (rule resumable_admissible [OF runs(3,5)])
    note h = plain_facts [OF history_plain [OF adm store, of w0]] run_executes_new [OF adm, of X w0]
    with 2 runs renewals_facts [OF runs(2)] show ?thesis
      by (intro exI [of _ "Loaded i (Inr cp) # rs @ history X cp False w0"])
         (auto simp: repeatsNoTool_def pendingIDs_def)
  next
    case (completesRuns cp call rs es cp' w0)
    then obtain outp where cp': "cp' = completedCheckpoint cp call outp" by (auto simp: resumesTo_def)
    have adm: "admissible cp' False" unfolding cp' by (rule completed_admissible [OF completesRuns(3,5)])
    have s: "stepID ` set (cp_Steps cp') = insert (tc_ID call) (stepID ` set (cp_Steps cp))"
      by (simp add: cp' completedCheckpoint_def)
    note h = plain_facts [OF history_plain [OF adm store, of w0]] run_executes_new [OF adm, of X w0]
    with s 2 completesRuns renewals_facts [OF completesRuns(2)] pendingLog_facts [OF completesRuns(6)] show ?thesis
      by (intro exI [of _ "Loaded i (Inr cp) # rs @ es @ history X cp' False w0"])
         (auto simp: repeatsNoTool_def pendingIDs_def)
  qed
qed

theorem Resume_repeats_no_tool_witness: "repeatsNoTool demoPendingCp (w_log (fst demoResume))"
proof -
  have r: "demoResume = (fst demoResume, snd demoResume)" by simp
  have l: "w_log demoCrashed = []" by (simp add: demoCrashed_def demoWorld_def)
  from Resume_repeats_no_tool [OF r] demo_resume_loads show ?thesis by (simp add: l)
qed





text \<open>
  When \<^verbatim>\<open>Resume\<close> returns without an error, the result is completed and is the one of the last write the
  store acknowledged, or, when nothing was written, of the loaded checkpoint.
\<close>

lemma Resume_completed_is_durable:
  assumes "Resume E rt nilCtx i w = (w', Returned res None)"
  shows "\<exists>es. w_log w' = w_log w @ es \<and> rs_Status res = StatusCompleted \<and>
    (if acked es = [] then \<exists>cp. Loaded i (Inr cp) \<in> set es \<and> cp_Result cp = res else cp_Result (last (acked es)) = res)"
  using assms
proof (cases rule: Resume_cases)
  case (2 st X w1 w2)
  have store: "rt_store (ss_rt X) \<noteq> None" using 2(1,2) by simp
  from 2(6) show ?thesis
  proof (cases rule: resumeBody_cases)
    case (stops r rs)
    with 2 renewals_facts [OF stops(2)] show ?thesis
      by (intro exI [of _ "Loaded i r # rs"]) auto
  next
    case (runs cp rs w0)
    from run_completed [OF resumable_admissible [OF runs(3,5)] store runs(6) [symmetric]]
    show ?thesis using 2 runs by (intro exI [of _ "Loaded i (Inr cp) # rs @ history X cp False w0"]) auto
  next
    case (completesRuns cp call rs ps cp' w0)
    then obtain outp where cp': "cp' = completedCheckpoint cp call outp" by (auto simp: resumesTo_def)
    have adm: "admissible cp' False" unfolding cp' by (rule completed_admissible [OF completesRuns(3,5)])
    from run_completed [OF adm store completesRuns(8) [symmetric]]
    show ?thesis using 2 completesRuns
      by (intro exI [of _ "Loaded i (Inr cp) # rs @ ps @ history X cp' False w0"]) auto
  qed simp
qed simp



end
