(* ===== verification/Lease_Guarantees.thy ===== *)
theory Lease_Guarantees
  imports Scenario
begin

text \<open>
  Fencing for any number of workers that share a store, for the in-memory store.
\<close>

section \<open>A handover between two workers\<close>

definition demoEmpty :: MemoryLeaseStore where
  "demoEmpty = \<lparr>ms_leaseDuration = 6, ms_records = Map.empty, ms_leases = Map.empty, ms_lastToken = Map.empty\<rparr>"

abbreviation demoTake :: "nat \<Rightarrow> MemoryLeaseStore \<Rightarrow> MemoryLeaseStore" where
  "demoTake t s \<equiv> fst (memAcquireExecutionLease (demoCallEnv t) ''job'' s)"

definition demoHandover :: "lease_event list" where
  "demoHandover = [Acquired ''job'' 1, Acquired ''job'' 2, Published True demoFirst 2]"

lemma demoEmpty_good: "memGood demoEmpty"
  by (simp add: memGood_def demoEmpty_def)

lemma demoTake_eq:
  "memAcquireExecutionLease (demoCallEnv 0) ''job'' demoEmpty =
     (demoTake 0 demoEmpty, Inr (1, Some (memRelease ''job'' 1)))"
  "memAcquireExecutionLease (demoCallEnv 7) ''job'' (demoTake 0 demoEmpty) =
     (demoTake 7 (demoTake 0 demoEmpty), Inr (2, Some (memRelease ''job'' 2)))"
  by (simp_all add: memAcquireExecutionLease_def checkMemoryLeaseContext_def demoCallEnv_def demoEmpty_def
      tokenOf_def)

lemma demo_publishes:
  "memWriteFenced True (demoCallEnv 8) demoFirst 2 (demoTake 7 (demoTake 0 demoEmpty)) =
     (fst (memWriteFenced True (demoCallEnv 8) demoFirst 2 (demoTake 7 (demoTake 0 demoEmpty))), None)"
proof -
  have "snd (memWriteFenced True (demoCallEnv 8) demoFirst 2 (demoTake 7 (demoTake 0 demoEmpty))) = None"
    by code_simp
  then show ?thesis by (metis prod.collapse)
qed

lemma demo_handover: "\<exists>sys. leaseRun memoryStore (demoEmpty, []) demoHandover sys"
proof -
  have a: "st_AcquireExecutionLease memoryStore = Some memAcquireExecutionLease"
    and f: "st_Fenced memoryStore = Some (memWriteFenced True, memWriteFenced False)"
    by (simp_all add: memoryStore_def)
  note s1 = leaseRun.step [OF leaseRun.start leaseStep.acquired [OF a demoTake_eq(1)]]
  note s2 = leaseRun.step [OF s1 leaseStep.acquired [OF a demoTake_eq(2)]]
  have "(if True then memWriteFenced True else memWriteFenced False) (demoCallEnv 8) demoFirst 2
      (demoTake 7 (demoTake 0 demoEmpty)) =
     (fst (memWriteFenced True (demoCallEnv 8) demoFirst 2 (demoTake 7 (demoTake 0 demoEmpty))), None)"
    using demo_publishes by simp
  from leaseRun.step [OF s2 leaseStep.published [OF f this]]
  show ?thesis unfolding demoHandover_def by auto
qed

section \<open>Properties\<close>

text \<open>
  C18. Fencing on the in-memory store: however many workers acquire, renew, release and write in whatever
  order and with whatever clocks, a publication under an acquired token carries the token of the latest
  acquisition of its execution; a worker whose lease was taken over never publishes again.
\<close>

theorem memory_publication_is_latest:
  assumes "leaseRun memoryStore (s0, []) (xs @ Published create cp tok # ys) sys" and "memGood s0"
    and "tok \<in> set (acquiredTokens (cp_ExecutionID cp) xs)"
  shows "tok = last (acquiredTokens (cp_ExecutionID cp) xs)"
  by (rule mem.publication_latest [OF assms(1) mem.owned_start [OF assms(2)] assms(3)])

theorem memory_publication_is_latest_witness:
  "2 = last (acquiredTokens (cp_ExecutionID demoFirst) [Acquired ''job'' 1, Acquired ''job'' 2])"
proof -
  obtain sys where r: "leaseRun memoryStore (demoEmpty, [])
      ([Acquired ''job'' 1, Acquired ''job'' 2] @ Published True demoFirst 2 # []) sys"
    using demo_handover by (auto simp: demoHandover_def)
  show ?thesis
    by (rule memory_publication_is_latest [OF r demoEmpty_good])
       (simp add: acquiredTokens_def demoFirst_def demoInitial_def zeroCheckpoint_def)
qed

text \<open>
  One history per execution on the in-memory store: tokens grow strictly with every acquisition, at
  most one publication creates the record and it is the first, and every publication supersedes the
  numbered revisions before it.
\<close>

lemma memory_history_is_linear:
  assumes "leaseRun memoryStore (s0, []) evs sys" and "memGood s0"
  shows "sorted_wrt (<) (acquiredTokens i evs) \<and> sorted_wrt supersedes (publications i evs)"
  using mem.tokens_increase [OF assms(1) mem.owned_start [OF assms(2)]]
    mem.publications_progress [OF assms(1) mem.owned_start [OF assms(2)]] by simp

text \<open>
  A release that comes after another worker has acquired the execution changes nobody's ownership.
\<close>

lemma memory_stale_release_is_harmless:
  assumes "leaseRun memoryStore (s0, []) (xs @ [Acquired i tok]) (s, rels)" and "memGood s0"
    and "tok' \<in> set (acquiredTokens i xs)"
  shows "memOwner t j (memRelease i tok' c s) = memOwner t j s"
  by (rule mem.stale_release_harmless [OF assms(1) mem.owned_start [OF assms(2)] assms(3)])

end
