(* ===== verification/Checkpoint_Guarantees.thy ===== *)
theory Checkpoint_Guarantees
  imports Recovery Model_Retry Observers
begin

text \<open>
  Properties of the state machine, of checkpoint validation and of the small policies.
\<close>

text \<open>A runtime and a request for the witnesses.\<close>

definition demoPlan :: "(unit, unit) Runtime" where
  "demoPlan = \<lparr>rt_store = None, rt_model = BaseModel (\<lambda>t inp. None), rt_tools = None, rt_observer = None,
     rt_maxSteps = 4, rt_modelRetry = \<lparr>mr_MaxRetries = 0, mr_Delay = 0\<rparr>\<rparr>"

definition demoTask :: Request where
  "demoTask = \<lparr>rq_ExecutionID = ''job'', rq_Prompt = ''hello''\<rparr>"

text \<open>
  C21. Checkpoint validation decides exactly the declarative condition \<open>wfCheckpoint\<close>, never panics on the
  index expression it contains, and reports every rejection as \<^verbatim>\<open>ErrInvalidCheckpoint\<close>.
\<close>

theorem validation_is_exact:
  "(validateCheckpoint cp = None \<longleftrightarrow> wfCheckpoint cp) \<and> validateCheckpoint cp \<noteq> Some (GoPanic m) \<and>
   (case validateCheckpoint cp of None \<Rightarrow> True | Some e \<Rightarrow> errorsIs e ErrInvalidCheckpoint)"
  by (simp add: validateCheckpoint_iff validateCheckpoint_no_panic split: option.splits)
     (auto dest: validateCheckpoint_error)

text \<open>
  Every history of transitions of an execution starts at \<^verbatim>\<open>created\<close>, follows the state machine and ends in
  the current status; a rejected transition changes nothing, and no transition leaves a terminal status.
\<close>

lemma transition_keeps_history:
  assumes "wfExecution e"
  shows "wfExecution (fst (transition e next)) \<and>
    (snd (transition e next) = None \<longleftrightarrow> validTransition (ex_status e) next) \<and>
    (if validTransition (ex_status e) next then ex_status (fst (transition e next)) = next \<and> \<not> terminal (ex_status e)
     else fst (transition e next) = e)"
  using wf_transition [OF assms, of "next"] validTransition_terminal [of "ex_status e" "next"]
  by (auto simp: transition_def)

text \<open>
  The revision of a valid checkpoint is the exact count of its durable progress: one for its creation
  and one for every model attempt, every retry, every started and every finished tool and the end of
  the execution, without wrap-around up to a budget of \<open>2 ^ 61\<close> steps.
\<close>

lemma revision_counts_progress:
  assumes "wfStructure cp" and "cp_MaxSteps cp \<le> 2 ^ 61"
  shows "unat (checkpointRevision cp) =
    1 + nat (cp_ModelIterations cp) + nat (cp_ModelRetries cp) + 2 * length (cp_Steps cp) +
    (if cp_PendingTool cp = None then 0 else 1) + (if terminal (cp_Status cp) then 1 else 0)"
  using wfStructure_revision [OF assms] wfStructure_progress [OF assms(1)] by simp

text \<open>
  A runtime built by \<^verbatim>\<open>New\<close> from options of the library has a positive step budget and a nonnegative retry
  budget and delay, whatever the options and their order.
\<close>

lemma New_is_wellformed:
  assumes "New model tools options = Inr rt" and "\<And>opt. Some opt \<in> set options \<Longrightarrow> libraryOption opt"
  shows "wfRuntime rt"
proof -
  obtain m where "applyOptions options \<lparr>rt_store = None, rt_model = m, rt_tools = tools, rt_observer = None,
      rt_maxSteps = defaultMaxSteps, rt_modelRetry = \<lparr>mr_MaxRetries = 0, mr_Delay = 0\<rparr>\<rparr> = Inr rt"
    using assms(1) by (auto simp: New_def split: option.splits)
  then show ?thesis
    by (rule applyOptions_wf [rotated 2])
       (auto intro: libraryOption_proper assms(2) simp: wfRuntime_def defaultMaxSteps_def)
qed

text \<open>
  An error is retried only when it is transient, and the retry stays within both budgets; a cancelled
  context is never retried.
\<close>

lemma retry_is_bounded:
  assumes "canRetryModel (Some e) cp iterations retries"
  shows "retries + 1 \<le> cp_MaxModelRetries cp \<and> iterations + 1 \<le> cp_MaxSteps cp \<and>
    \<not> errorsIs e ContextCanceled \<and> (errorsIs e ErrModelTimeout \<or> errorsAsHTTP e \<noteq> None \<or> errorsIs e ErrModelProvider)"
  using assms by (auto simp: canRetryModel_def IsTransientModelError_def split: if_splits option.splits)

text \<open>
  A group of observers delivers every event to every member in order, whether or not members panic, and
  itself never panics.
\<close>

lemma observer_group_delivers:
  "observerGroupOnEvent members event st = (foldl (\<lambda>st obs. deliverObserver obs event st) st members, False)"
  by (simp add: prod_eq_iff observerGroup_never_panics observerGroup_delivers_in_order)

end
