(* ===== verification/Sqlite_Store.thy ===== *)
theory Sqlite_Store
  imports Memory_Lease_Store
begin

text \<open>
  \<^verbatim>\<open>SQLiteCheckpointStore\<close> (\<^verbatim>\<open>sqlite_store.go\<close>): the rows of the table \<^verbatim>\<open>harness_executions\<close>, and each SQL
  statement as the atomic step it is. A statement may report an error, before or after it has taken
  effect; the code's later queries (\<^verbatim>\<open>classify\<dots>\<close>) are separate statements. INTEGER columns and Go's
  \<^verbatim>\<open>int64\<close> are integers kept in range by the checks of the code.

  The DSN options and the schema text are not modelled. The \<^verbatim>\<open>sync.Once\<close> around the release statement is
  not modelled either: a repeated release is allowed here and changes nothing that matters.
\<close>

section \<open>State\<close>

record sqliteRow =
  sq_checkpoint_json :: "string option"
  sq_revision :: int
  sq_fencing_token :: int
  sq_lease_expires :: int

record SQLiteCheckpointStore =
  sq_leaseDuration :: int
  sq_rows :: "string \<rightharpoonup> sqliteRow"

definition maxInt64 :: int where
  "maxInt64 = 2 ^ 63 - 1"

definition checkSQLiteStoreContext :: "store_call \<Rightarrow> goerr option" where
  "checkSQLiteStoreContext c =
     (if sc_nil c then Some (errMsg ErrInvalidRequest ''context is required'') else sc_err c 0)"

definition sqliteInt64 :: "uint64 \<Rightarrow> string \<Rightarrow> goerr + int" where
  "sqliteInt64 val name =
     (if uint val > maxInt64
      then Inl (Errorf [W (Sentinel ErrInvalidCheckpoint), Lit '': '', Str name, Lit '' exceeds sqlite integer range''])
      else Inr (uint val))"

definition sqliteLeaseExpiry :: "int \<Rightarrow> int \<Rightarrow> goerr + int" where
  "sqliteLeaseExpiry t duration =
     (if duration \<le> 0 \<or> t > maxInt64 - duration then Inl (errMsg ErrInvalidRequest ''invalid lease deadline'')
      else Inr (t + duration))"

text \<open>Opening a database: \<open>rows\<close> are those the file holds, none for a new file.\<close>

definition sqliteInitialize :: "store_call \<Rightarrow> goerr option" where
  "sqliteInitialize c = (case sc_io c DbPing of Some err \<Rightarrow> Some err | None \<Rightarrow> sc_io c DbExec)"

definition NewSQLiteCheckpointStore ::
  "store_call \<Rightarrow> string \<Rightarrow> int \<Rightarrow> (string \<rightharpoonup> sqliteRow) \<Rightarrow> goerr + SQLiteCheckpointStore" where
  "NewSQLiteCheckpointStore c path leaseDuration rows =
     (if path = [] then Inl (errMsg ErrInvalidRequest ''sqlite path is required'')
      else if leaseDuration \<le> 0 then Inl (errMsg ErrInvalidRequest ''lease duration must be positive'')
      else case sc_io c FileAbs of Some err \<Rightarrow> Inl err | None \<Rightarrow>
      (case sc_io c DbOpen of Some err \<Rightarrow> Inl err | None \<Rightarrow>
      (case sqliteInitialize c of Some err \<Rightarrow> Inl err | None \<Rightarrow>
        Inr \<lparr>sq_leaseDuration = leaseDuration, sq_rows = rows\<rparr>)))"

text \<open>\<^verbatim>\<open>Close\<close> on a store or on nil: the rows, and the leases in them, stay in the file.\<close>

definition sqliteClose :: "store_call \<Rightarrow> SQLiteCheckpointStore option \<Rightarrow> SQLiteCheckpointStore option \<times> goerr option" where
  "sqliteClose c store = (store, if store = None then None else sc_io c DbClose)"

section \<open>Leases\<close>

text \<open>The upsert of \<^verbatim>\<open>AcquireExecutionLease\<close>: the new rows and the returned token, if a row is returned.\<close>

definition upsertLease ::
  "string \<Rightarrow> int \<Rightarrow> int \<Rightarrow> (string \<rightharpoonup> sqliteRow) \<Rightarrow> ((string \<rightharpoonup> sqliteRow) \<times> int) option" where
  "upsertLease executionID expiresAt t rows =
     (case rows executionID of
        None \<Rightarrow>
          Some (rows(executionID \<mapsto> \<lparr>sq_checkpoint_json = None, sq_revision = 0, sq_fencing_token = 1,
                                      sq_lease_expires = expiresAt\<rparr>), 1)
      | Some row \<Rightarrow>
          if sq_lease_expires row \<le> t \<and> sq_fencing_token row < maxInt64
          then Some (rows(executionID \<mapsto> row\<lparr>sq_fencing_token := sq_fencing_token row + 1,
                                              sq_lease_expires := expiresAt\<rparr>), sq_fencing_token row + 1)
          else None)"

definition sqliteRelease :: "string \<Rightarrow> uint64 \<Rightarrow> SQLiteCheckpointStore release" where
  "sqliteRelease executionID token c s =
     (if sc_io c DbExec \<noteq> None \<and> \<not> sc_late c DbExec then s
      else case sq_rows s executionID of
        None \<Rightarrow> s
      | Some row \<Rightarrow>
          if sq_fencing_token row = uint token
          then s\<lparr>sq_rows := (sq_rows s)(executionID \<mapsto> row\<lparr>sq_lease_expires := 0\<rparr>)\<rparr> else s)"

definition classifyLeaseAcquisition :: "store_call \<Rightarrow> string \<Rightarrow> int \<Rightarrow> SQLiteCheckpointStore \<Rightarrow> goerr" where
  "classifyLeaseAcquisition c executionID t s =
     (case sc_io c DbClassify of Some err \<Rightarrow> err | None \<Rightarrow>
      (case sq_rows s executionID of
         None \<Rightarrow> Sentinel SqlErrNoRows
       | Some row \<Rightarrow>
           if sq_lease_expires row > t then Sentinel ErrExecutionBusy
           else if sq_fencing_token row = maxInt64
           then Errorf [W (Sentinel ErrExecutionFenced), Lit '': execution '', Quoted executionID,
                        Lit '' fencing token exhausted'']
           else Sentinel ErrExecutionBusy))"

text \<open>The row a query scans, or its error; a failed query has possibly taken effect.\<close>

definition queryAcquire ::
  "store_call \<Rightarrow> string \<Rightarrow> int \<Rightarrow> int \<Rightarrow> SQLiteCheckpointStore \<Rightarrow> SQLiteCheckpointStore \<times> (goerr + int)" where
  "queryAcquire c executionID expiresAt t s =
     (case upsertLease executionID expiresAt t (sq_rows s) of
        None \<Rightarrow> (s, Inl (case sc_io c DbQuery of Some err \<Rightarrow> err | None \<Rightarrow> Sentinel SqlErrNoRows))
      | Some (rows, token) \<Rightarrow>
          (case sc_io c DbQuery of
             None \<Rightarrow> (s\<lparr>sq_rows := rows\<rparr>, Inr token)
           | Some err \<Rightarrow> (if sc_late c DbQuery then s\<lparr>sq_rows := rows\<rparr> else s, Inl err)))"

definition sqliteAcquireExecutionLease ::
  "store_call \<Rightarrow> string \<Rightarrow> SQLiteCheckpointStore \<Rightarrow>
     SQLiteCheckpointStore \<times> (goerr + uint64 \<times> SQLiteCheckpointStore release option)" where
  "sqliteAcquireExecutionLease c executionID s =
     (case checkSQLiteStoreContext c of Some err \<Rightarrow> (s, Inl err) | None \<Rightarrow>
      if executionID = [] then (s, Inl (errMsg ErrInvalidRequest ''execution ID is required''))
      else case sqliteLeaseExpiry (sc_now c) (sq_leaseDuration s) of Inl err \<Rightarrow> (s, Inl err) | Inr expiresAt \<Rightarrow>
      (case queryAcquire c executionID expiresAt (sc_now c) s of
         (s', Inr token) \<Rightarrow>
           (s', Inr (word_of_int token, Some (sqliteRelease executionID (word_of_int token))))
       | (s', Inl err) \<Rightarrow>
           (s', Inl (if errorsIs err SqlErrNoRows then classifyLeaseAcquisition c executionID (sc_now c) s' else err))))"

definition sqliteExecutionLeaseRenewalInterval :: "SQLiteCheckpointStore \<Rightarrow> int" where
  "sqliteExecutionLeaseRenewalInterval s =
     (let interval = sq_leaseDuration s div 3 in if interval \<le> 0 then sq_leaseDuration s else interval)"

text \<open>
  An \<^verbatim>\<open>UPDATE\<close> of at most one row: \<open>change\<close> is the row's new value where the \<^verbatim>\<open>WHERE\<close> clause holds. The result is
  the error of \<^verbatim>\<open>ExecContext\<close> or \<^verbatim>\<open>RowsAffected\<close>, or the number of rows changed.
\<close>

definition execUpdate ::
  "store_call \<Rightarrow> string \<Rightarrow> (sqliteRow \<Rightarrow> sqliteRow option) \<Rightarrow> SQLiteCheckpointStore \<Rightarrow>
     SQLiteCheckpointStore \<times> (goerr + int)" where
  "execUpdate c executionID change s =
     (let change = Option.bind (sq_rows s executionID) change;
          s' = (case change of None \<Rightarrow> s | Some row \<Rightarrow> s\<lparr>sq_rows := (sq_rows s)(executionID \<mapsto> row)\<rparr>)
      in case sc_io c DbExec of
           Some err \<Rightarrow> (if sc_late c DbExec then s' else s, Inl err)
         | None \<Rightarrow>
           (case sc_io c DbRowsAffected of
              Some err \<Rightarrow> (s', Inl err)
            | None \<Rightarrow> (s', Inr (if change = None then 0 else 1))))"

definition sqliteRenewExecutionLease ::
  "store_call \<Rightarrow> string \<Rightarrow> uint64 \<Rightarrow> SQLiteCheckpointStore \<Rightarrow> SQLiteCheckpointStore \<times> goerr option" where
  "sqliteRenewExecutionLease c executionID fencingToken s =
     (case checkSQLiteStoreContext c of Some err \<Rightarrow> (s, Some err) | None \<Rightarrow>
      if executionID = [] \<or> fencingToken = 0
      then (s, Some (errMsg ErrExecutionLeaseRequired ''execution ID and fencing token are required''))
      else case sqliteInt64 fencingToken ''fencing token'' of Inl err \<Rightarrow> (s, Some err) | Inr token \<Rightarrow>
      (case sqliteLeaseExpiry (sc_now c) (sq_leaseDuration s) of Inl err \<Rightarrow> (s, Some err) | Inr expiresAt \<Rightarrow>
      (case execUpdate c executionID
              (\<lambda>row. if sq_fencing_token row = token \<and> sq_lease_expires row > sc_now c
                     then Some (row\<lparr>sq_lease_expires := expiresAt\<rparr>) else None) s of
         (s', Inl err) \<Rightarrow> (s', Some err)
       | (s', Inr updated) \<Rightarrow>
           (s', if updated \<noteq> 1 then Some (fencedError executionID fencingToken) else None))))"

section \<open>Checkpoints\<close>

definition sqlitePlainWrite ::
  "store_call \<Rightarrow> Checkpoint \<Rightarrow> SQLiteCheckpointStore \<Rightarrow> SQLiteCheckpointStore \<times> goerr option" where
  "sqlitePlainWrite c cp s =
     (case checkSQLiteStoreContext c of
        Some err \<Rightarrow> (s, Some err)
      | None \<Rightarrow> (s, Some (Sentinel ErrExecutionLeaseRequired)))"

definition sqliteLoad :: "store_call \<Rightarrow> string \<Rightarrow> SQLiteCheckpointStore \<Rightarrow> goerr + Checkpoint" where
  "sqliteLoad c executionID s =
     (case checkSQLiteStoreContext c of Some err \<Rightarrow> Inl err | None \<Rightarrow>
      if executionID = [] then Inl (errMsg ErrInvalidCheckpoint ''execution ID is required'')
      else
        let row = Option.bind (sq_rows s executionID) sq_checkpoint_json;
            err = (case sc_io c DbQuery of
                     Some err \<Rightarrow> Some err
                   | None \<Rightarrow> if row = None then Some (Sentinel SqlErrNoRows) else None)
        in case err of
             Some err \<Rightarrow>
               if errorsIs err SqlErrNoRows
               then Inl (Errorf [W (Sentinel ErrExecutionNotFound), Lit '': '', Quoted executionID])
               else Inl err
           | None \<Rightarrow> decodeCheckpoint c executionID (the row))"

definition fencedWriteError :: "string \<Rightarrow> int \<Rightarrow> goerr" where
  "fencedWriteError executionID token =
     Errorf [W (Sentinel ErrExecutionFenced), Lit '': execution '', Quoted executionID, Lit '' token '', Num token]"

definition classifyFencedWrite ::
  "store_call \<Rightarrow> Checkpoint \<Rightarrow> int \<Rightarrow> int \<Rightarrow> bool \<Rightarrow> SQLiteCheckpointStore \<Rightarrow> goerr" where
  "classifyFencedWrite c checkpoint token t create s =
     (let executionID = cp_ExecutionID checkpoint;
          err = (case sc_io c DbClassify of
                   Some err \<Rightarrow> Some err
                 | None \<Rightarrow> if sq_rows s executionID = None then Some (Sentinel SqlErrNoRows) else None)
      in case err of
           Some err \<Rightarrow> if errorsIs err SqlErrNoRows then fencedWriteError executionID token else err
         | None \<Rightarrow>
           let row = the (sq_rows s executionID) in
           if sq_fencing_token row \<noteq> token \<or> sq_lease_expires row \<le> t then fencedWriteError executionID token
           else if create then
             if sq_checkpoint_json row \<noteq> None
             then Errorf [W (Sentinel ErrExecutionExists), Lit '': '', Quoted executionID]
             else Errorf [W (Sentinel ErrCheckpointConflict), Lit '': execution '', Quoted executionID,
                          Lit '' create was not applied'']
           else if sq_checkpoint_json row = None
           then Errorf [W (Sentinel ErrExecutionNotFound), Lit '': '', Quoted executionID]
           else Errorf [W (Sentinel ErrCheckpointConflict), Lit '': execution '', Quoted executionID,
                        Lit '' has revision '', Num (sq_revision row), Lit '', attempted '',
                        Num (uint (cp_Revision checkpoint))])"

text \<open>The two \<^verbatim>\<open>UPDATE\<close> statements of \<^verbatim>\<open>writeFenced\<close>.\<close>

definition publishRow :: "bool \<Rightarrow> string \<Rightarrow> int \<Rightarrow> int \<Rightarrow> int \<Rightarrow> sqliteRow \<Rightarrow> sqliteRow option" where
  "publishRow create data revision token t row =
     (if (if create then sq_checkpoint_json row = None
          else sq_checkpoint_json row \<noteq> None \<and> (sq_revision row = 0 \<or> revision > sq_revision row)) \<and>
         sq_fencing_token row = token \<and> sq_lease_expires row > t
      then Some (row\<lparr>sq_checkpoint_json := Some data, sq_revision := revision\<rparr>) else None)"

definition sqliteWriteFenced ::
  "bool \<Rightarrow> store_call \<Rightarrow> Checkpoint \<Rightarrow> uint64 \<Rightarrow> SQLiteCheckpointStore \<Rightarrow> SQLiteCheckpointStore \<times> goerr option" where
  "sqliteWriteFenced create c checkpoint fencingToken s =
     (case checkSQLiteStoreContext c of Some err \<Rightarrow> (s, Some err) | None \<Rightarrow>
      (case validateCheckpoint checkpoint of Some err \<Rightarrow> (s, Some err) | None \<Rightarrow>
      if fencingToken = 0 then (s, Some (Sentinel ErrExecutionLeaseRequired))
      else case sqliteInt64 fencingToken ''fencing token'' of Inl err \<Rightarrow> (s, Some err) | Inr token \<Rightarrow>
      (case sqliteInt64 (cp_Revision checkpoint) ''checkpoint revision'' of Inl err \<Rightarrow> (s, Some err) | Inr revision \<Rightarrow>
      (case execUpdate c (cp_ExecutionID checkpoint)
              (publishRow create (encodeCheckpoint checkpoint) revision token (sc_now c)) s of
         (s', Inl err) \<Rightarrow> (s', Some err)
       | (s', Inr updated) \<Rightarrow>
           (s', if updated = 1 then None
                else Some (classifyFencedWrite c checkpoint token (sc_now c) create s'))))))"

definition sqliteStore :: "SQLiteCheckpointStore CheckpointStore" where
  "sqliteStore =
     \<lparr>st_Create = sqlitePlainWrite, st_Save = sqlitePlainWrite, st_Load = sqliteLoad,
      st_AcquireExecutionLease = Some sqliteAcquireExecutionLease,
      st_Fenced = Some (sqliteWriteFenced True, sqliteWriteFenced False),
      st_LockExecution = None,
      st_Renewer = Some (sqliteRenewExecutionLease, sqliteExecutionLeaseRenewalInterval)\<rparr>"

section \<open>The contract of leases holds\<close>

text \<open>
  Rows the store itself has written: a positive token in range, and a document that encodes a valid
  checkpoint of this execution with this revision.
\<close>

definition sqliteRowGood :: "string \<Rightarrow> sqliteRow \<Rightarrow> bool" where
  "sqliteRowGood i row \<longleftrightarrow>
     1 \<le> sq_fencing_token row \<and> sq_fencing_token row \<le> maxInt64 \<and>
     (\<forall>d. sq_checkpoint_json row = Some d \<longrightarrow>
        (\<exists>cp. d = encodeCheckpoint cp \<and> validateCheckpoint cp = None \<and> cp_ExecutionID cp = i \<and>
              sq_revision row = uint (cp_Revision cp)))"

definition sqliteGood :: "SQLiteCheckpointStore \<Rightarrow> bool" where
  "sqliteGood s \<longleftrightarrow> (\<forall>i row. sq_rows s i = Some row \<longrightarrow> sqliteRowGood i row)"

definition sqliteIssued :: "string \<Rightarrow> SQLiteCheckpointStore \<Rightarrow> nat" where
  "sqliteIssued i s = (case sq_rows s i of None \<Rightarrow> 0 | Some row \<Rightarrow> nat (sq_fencing_token row))"

definition sqliteOwner :: "int \<Rightarrow> string \<Rightarrow> SQLiteCheckpointStore \<Rightarrow> uint64 option" where
  "sqliteOwner t i s =
     (case sq_rows s i of
        None \<Rightarrow> None
      | Some row \<Rightarrow> if sq_lease_expires row > t then Some (word_of_int (sq_fencing_token row)) else None)"

definition sqliteStored :: "string \<Rightarrow> SQLiteCheckpointStore \<Rightarrow> Checkpoint option" where
  "sqliteStored i s =
     Option.bind (Option.bind (sq_rows s i) sq_checkpoint_json) (unmarshalCheckpoint (\<lambda>_. True))"

text \<open>All observations depend on the rows only, one row per execution.\<close>

lemmas sqlite_views = sqliteIssued_def sqliteOwner_def sqliteStored_def

lemma sqlite_other_row [simp]:
  "j \<noteq> i \<Longrightarrow> sqliteIssued j (s\<lparr>sq_rows := (sq_rows s)(i \<mapsto> row)\<rparr>) = sqliteIssued j s"
  "j \<noteq> i \<Longrightarrow> sqliteOwner t j (s\<lparr>sq_rows := (sq_rows s)(i \<mapsto> row)\<rparr>) = sqliteOwner t j s"
  "j \<noteq> i \<Longrightarrow> sqliteStored j (s\<lparr>sq_rows := (sq_rows s)(i \<mapsto> row)\<rparr>) = sqliteStored j s"
  by (simp_all add: sqlite_views)

lemma sqliteGood_row: "sqliteGood s \<Longrightarrow> sq_rows s i = Some row \<Longrightarrow> sqliteRowGood i row"
  by (auto simp: sqliteGood_def)

lemma sqliteGood_update:
  "sqliteGood s \<Longrightarrow> sqliteRowGood i row \<Longrightarrow> sqliteGood (s\<lparr>sq_rows := (sq_rows s)(i \<mapsto> row)\<rparr>)"
  by (auto simp: sqliteGood_def)

lemma token_word:
  assumes "1 \<le> n" and "n \<le> maxInt64"
  shows "uint (word_of_int n :: uint64) = n" "unat (word_of_int n :: uint64) = nat n"
  using assms by (simp_all add: maxInt64_def unat_eq_nat_uint uint_word_of_int)

lemma sqliteInt64_Inr: "sqliteInt64 w name = Inr n \<longleftrightarrow> n = uint w \<and> uint w \<le> maxInt64"
  by (auto simp: sqliteInt64_def)

lemma sqliteLeaseExpiry_Inr: "sqliteLeaseExpiry t d = Inr n \<Longrightarrow> t < n"
  by (auto simp: sqliteLeaseExpiry_def split: if_splits)

lemma sqlite_owner_issued: "sqliteGood s \<Longrightarrow> sqliteOwner t i s = Some tok \<Longrightarrow> unat tok = sqliteIssued i s"
  by (auto simp: sqlite_views token_word sqliteRowGood_def dest!: sqliteGood_row split: option.splits if_splits)

lemma upsertLease_ok:
  assumes "sqliteGood s" and "upsertLease i expiresAt t (sq_rows s) = Some (rows, token)" and "t < expiresAt"
  shows "sqliteGood (s\<lparr>sq_rows := rows\<rparr>)" "1 \<le> token" "token \<le> maxInt64" "sqliteOwner t i s = None"
    "sqliteOwner t i (s\<lparr>sq_rows := rows\<rparr>) = Some (word_of_int token)"
    "sqliteIssued i s < nat token" "sqliteIssued i (s\<lparr>sq_rows := rows\<rparr>) = nat token"
    "j \<noteq> i \<Longrightarrow> sqliteIssued j (s\<lparr>sq_rows := rows\<rparr>) = sqliteIssued j s"
    "sqliteStored j (s\<lparr>sq_rows := rows\<rparr>) = sqliteStored j s"
proof -
  consider (new) "sq_rows s i = None" "token = 1"
      "rows = (sq_rows s)(i \<mapsto> \<lparr>sq_checkpoint_json = None, sq_revision = 0, sq_fencing_token = 1, sq_lease_expires = expiresAt\<rparr>)"
    | (old) row where "sq_rows s i = Some row" "sq_lease_expires row \<le> t" "sq_fencing_token row < maxInt64"
      "token = sq_fencing_token row + 1"
      "rows = (sq_rows s)(i \<mapsto> row\<lparr>sq_fencing_token := sq_fencing_token row + 1, sq_lease_expires := expiresAt\<rparr>)"
    using assms(2) by (auto simp: upsertLease_def split: option.splits if_splits)
  then show "sqliteGood (s\<lparr>sq_rows := rows\<rparr>)" "1 \<le> token" "token \<le> maxInt64" "sqliteOwner t i s = None"
    "sqliteOwner t i (s\<lparr>sq_rows := rows\<rparr>) = Some (word_of_int token)"
    "sqliteIssued i s < nat token" "sqliteIssued i (s\<lparr>sq_rows := rows\<rparr>) = nat token"
    "j \<noteq> i \<Longrightarrow> sqliteIssued j (s\<lparr>sq_rows := rows\<rparr>) = sqliteIssued j s"
    "sqliteStored j (s\<lparr>sq_rows := rows\<rparr>) = sqliteStored j s"
    using assms(1,3)
    by (cases; force simp: sqliteGood_def sqliteRowGood_def sqlite_views maxInt64_def)+
qed

lemma queryAcquire_cases:
  "queryAcquire c i e t s = (s', res) \<Longrightarrow>
     s' = s \<and> isl res \<or>
     (\<exists>rows token. upsertLease i e t (sq_rows s) = Some (rows, token) \<and> s' = s\<lparr>sq_rows := rows\<rparr> \<and>
        (isl res \<or> res = Inr token))"
  by (auto simp: queryAcquire_def split: option.splits if_splits)

lemma sqliteAcquire_cases:
  assumes "sqliteAcquireExecutionLease c i s = (s', res)"
  shows "s' = s \<and> isl res \<or>
    (\<exists>expiresAt rows token. sqliteLeaseExpiry (sc_now c) (sq_leaseDuration s) = Inr expiresAt \<and>
      upsertLease i expiresAt (sc_now c) (sq_rows s) = Some (rows, token) \<and> s' = s\<lparr>sq_rows := rows\<rparr> \<and>
      (isl res \<or> res = Inr (word_of_int token, Some (sqliteRelease i (word_of_int token)))))"
proof (cases "sqliteLeaseExpiry (sc_now c) (sq_leaseDuration s)")
  case (Inl e)
  with assms show ?thesis by (auto simp: sqliteAcquireExecutionLease_def split: option.splits if_splits)
next
  case (Inr expiresAt)
  obtain s1 r1 where q: "queryAcquire c i expiresAt (sc_now c) s = (s1, r1)" by force
  with Inr assms have "s' = s \<and> isl res \<or> s' = s1 \<and> (isl r1 \<longrightarrow> isl res) \<and>
      (\<forall>token. r1 = Inr token \<longrightarrow> res = Inr (word_of_int token, Some (sqliteRelease i (word_of_int token))))"
    by (auto simp: sqliteAcquireExecutionLease_def split: option.splits if_splits sum.splits)
  with queryAcquire_cases [OF q] Inr show ?thesis by auto
qed

lemma sqliteAcquire_ok:
  assumes "sqliteGood s" and "sqliteAcquireExecutionLease c i s = (s', Inr (tok, r))"
  shows "sqliteGood s' \<and> r = Some (sqliteRelease i tok) \<and> sqliteOwner (sc_now c) i s = None \<and>
    sqliteOwner (sc_now c) i s' = Some tok \<and> sqliteIssued i s < unat tok \<and> sqliteIssued i s' = unat tok \<and>
    (\<forall>j. j \<noteq> i \<longrightarrow> sqliteIssued j s' = sqliteIssued j s) \<and> (\<forall>j. sqliteStored j s' = sqliteStored j s)"
proof -
  from sqliteAcquire_cases [OF assms(2)] obtain expiresAt rows token where
    e: "sqliteLeaseExpiry (sc_now c) (sq_leaseDuration s) = Inr expiresAt"
    and u: "upsertLease i expiresAt (sc_now c) (sq_rows s) = Some (rows, token)"
    and r: "s' = s\<lparr>sq_rows := rows\<rparr>" "tok = word_of_int token" "r = Some (sqliteRelease i tok)"
    by auto
  note u = upsertLease_ok [OF assms(1) u sqliteLeaseExpiry_Inr [OF e]]
  with r token_word [OF u(2,3)] show ?thesis by simp
qed

lemma sqliteAcquire_error:
  assumes "sqliteGood s" and "sqliteAcquireExecutionLease c i s = (s', Inl e)"
  shows "sqliteGood s' \<and> (\<forall>j. sqliteIssued j s \<le> sqliteIssued j s') \<and> (\<forall>j. sqliteStored j s' = sqliteStored j s)"
proof (cases "s' = s")
  case False
  with sqliteAcquire_cases [OF assms(2)] obtain expiresAt rows token where
    e: "sqliteLeaseExpiry (sc_now c) (sq_leaseDuration s) = Inr expiresAt"
    and u: "upsertLease i expiresAt (sc_now c) (sq_rows s) = Some (rows, token)" and r: "s' = s\<lparr>sq_rows := rows\<rparr>"
    by auto
  note u = upsertLease_ok [OF assms(1) u sqliteLeaseExpiry_Inr [OF e]]
  have "sqliteIssued j s \<le> sqliteIssued j s'" for j using u(6,7,8) r by (cases "j = i") auto
  with u(1,9) r show ?thesis by auto
qed (use assms(1) in simp)

text \<open>The statements that change one existing row.\<close>

lemma sqliteRelease_cases:
  "sqliteRelease i tok c s = s \<or>
   (\<exists>row. sq_rows s i = Some row \<and> sq_fencing_token row = uint tok \<and>
      sqliteRelease i tok c s = s\<lparr>sq_rows := (sq_rows s)(i \<mapsto> row\<lparr>sq_lease_expires := 0\<rparr>)\<rparr>)"
  by (auto simp: sqliteRelease_def split: option.splits)

lemma sqlite_expires_facts:
  assumes "sqliteGood s" and "sq_rows s i = Some row"
  shows "sqliteGood (s\<lparr>sq_rows := (sq_rows s)(i \<mapsto> row\<lparr>sq_lease_expires := t\<rparr>)\<rparr>)"
    "sqliteIssued j (s\<lparr>sq_rows := (sq_rows s)(i \<mapsto> row\<lparr>sq_lease_expires := t\<rparr>)\<rparr>) = sqliteIssued j s"
    "sqliteStored j (s\<lparr>sq_rows := (sq_rows s)(i \<mapsto> row\<lparr>sq_lease_expires := t\<rparr>)\<rparr>) = sqliteStored j s"
  using assms sqliteGood_row [OF assms] by (simp_all add: sqlite_views sqliteGood_update sqliteRowGood_def)

lemma sqliteRelease_ok:
  assumes "sqliteGood s"
  shows "sqliteGood (sqliteRelease i tok c s) \<and> (\<forall>j. sqliteIssued j (sqliteRelease i tok c s) = sqliteIssued j s) \<and>
    (\<forall>j. sqliteStored j (sqliteRelease i tok c s) = sqliteStored j s)"
  using sqliteRelease_cases [of i tok c s]
proof (elim disjE exE conjE)
  fix row
  assume "sq_rows s i = Some row"
    "sqliteRelease i tok c s = s\<lparr>sq_rows := (sq_rows s)(i \<mapsto> row\<lparr>sq_lease_expires := 0\<rparr>)\<rparr>"
  with sqlite_expires_facts [OF assms, where i = i and row = row and t = 0] show ?thesis by simp
qed (use assms in simp)

lemma sqliteRelease_stale:
  assumes "sqliteGood s" and "unat tok < sqliteIssued i s"
  shows "sqliteOwner t j (sqliteRelease i tok c s) = sqliteOwner t j s"
  using sqliteRelease_cases [of i tok c s]
proof (elim disjE exE conjE)
  fix row
  assume "sq_rows s i = Some row" "sq_fencing_token row = uint tok"
  with assms(2) show ?thesis by (simp add: sqliteIssued_def)
qed simp

lemma execUpdate_cases:
  "execUpdate c i change s = (s', res) \<Longrightarrow>
     s' = s \<and> res \<noteq> Inr 1 \<or>
     (\<exists>row row'. sq_rows s i = Some row \<and> change row = Some row' \<and>
        s' = s\<lparr>sq_rows := (sq_rows s)(i \<mapsto> row')\<rparr> \<and> (isl res \<or> res = Inr 1))"
  by (cases "sq_rows s i"; cases "change (the (sq_rows s i))")
     (auto simp: execUpdate_def Let_def split: option.splits if_splits)

lemma sqliteRenew_cases:
  assumes "sqliteRenewExecutionLease c i tok s = (s', res)"
  shows "s' = s \<and> res \<noteq> None \<or>
    (\<exists>row expiresAt. sq_rows s i = Some row \<and> sq_fencing_token row = uint tok \<and> sq_lease_expires row > sc_now c \<and>
      s' = s\<lparr>sq_rows := (sq_rows s)(i \<mapsto> row\<lparr>sq_lease_expires := expiresAt\<rparr>)\<rparr>)"
proof (cases "s' = s \<and> res \<noteq> None")
  case False
  with assms obtain token expiresAt r1 where ok: "sqliteInt64 tok ''fencing token'' = Inr token"
    and e: "execUpdate c i
              (\<lambda>row. if sq_fencing_token row = token \<and> sq_lease_expires row > sc_now c
                     then Some (row\<lparr>sq_lease_expires := expiresAt\<rparr>) else None) s = (s', r1)"
    and r: "res = None \<longrightarrow> r1 = Inr 1"
    by (auto simp: sqliteRenewExecutionLease_def split: option.splits if_splits sum.splits prod.splits)
  from execUpdate_cases [OF e] False r ok show ?thesis by (auto simp: sqliteInt64_Inr split: if_splits)
qed blast

lemma sqliteRenew_keeps:
  assumes "sqliteGood s" and "sqliteRenewExecutionLease c i tok s = (s', res)"
  shows "sqliteGood s' \<and> (\<forall>j. sqliteIssued j s' = sqliteIssued j s) \<and> (\<forall>j. sqliteStored j s' = sqliteStored j s)"
  using sqliteRenew_cases [OF assms(2)]
proof (elim disjE exE conjE)
  fix row expiresAt
  assume "sq_rows s i = Some row" "s' = s\<lparr>sq_rows := (sq_rows s)(i \<mapsto> row\<lparr>sq_lease_expires := expiresAt\<rparr>)\<rparr>"
  with sqlite_expires_facts [OF assms(1), where i = i and row = row and t = expiresAt] show ?thesis by simp
qed (use assms(1) in simp)

lemma sqliteRenew_owner:
  assumes "sqliteRenewExecutionLease c i tok s = (s', None)"
  shows "sqliteOwner (sc_now c) i s = Some tok"
  using sqliteRenew_cases [OF assms] by (auto simp: sqliteOwner_def)

lemma sqliteWrite_cases:
  assumes "sqliteWriteFenced create c cp tok s = (s', res)"
  shows "s' = s \<and> res \<noteq> None \<or>
    (\<exists>row row'. validateCheckpoint cp = None \<and> uint tok \<le> maxInt64 \<and> sq_rows s (cp_ExecutionID cp) = Some row \<and>
      publishRow create (encodeCheckpoint cp) (uint (cp_Revision cp)) (uint tok) (sc_now c) row = Some row' \<and>
      s' = s\<lparr>sq_rows := (sq_rows s)(cp_ExecutionID cp \<mapsto> row')\<rparr>)"
proof (cases "s' = s \<and> res \<noteq> None")
  case False
  with assms obtain token revision r1 where ok: "validateCheckpoint cp = None"
      "sqliteInt64 tok ''fencing token'' = Inr token"
      "sqliteInt64 (cp_Revision cp) ''checkpoint revision'' = Inr revision"
    and e: "execUpdate c (cp_ExecutionID cp) (publishRow create (encodeCheckpoint cp) revision token (sc_now c)) s = (s', r1)"
    and r: "res = None \<longrightarrow> r1 = Inr 1"
    by (auto simp: sqliteWriteFenced_def split: option.splits if_splits sum.splits prod.splits)
  from execUpdate_cases [OF e] False r ok show ?thesis by (auto simp: sqliteInt64_Inr)
qed blast

lemma sqliteStored_row:
  assumes "sqliteGood s" and "sq_rows s i = Some row"
  shows "sqliteStored i s = None \<longleftrightarrow> sq_checkpoint_json row = None"
    "sqliteStored i s = Some cp \<Longrightarrow> sq_checkpoint_json row = Some (encodeCheckpoint cp) \<and>
       validateCheckpoint cp = None \<and> cp_ExecutionID cp = i \<and> sq_revision row = uint (cp_Revision cp)"
proof -
  have "\<exists>cp'. d = encodeCheckpoint cp' \<and> validateCheckpoint cp' = None \<and> cp_ExecutionID cp' = i \<and>
      sq_revision row = uint (cp_Revision cp') \<and> unmarshalCheckpoint (\<lambda>_. True) d = Some cp'"
    if "sq_checkpoint_json row = Some d" for d
    using sqliteGood_row [OF assms] that unmarshal_marshal [OF valid_encodable_any]
    by (fastforce simp: sqliteRowGood_def)
  with assms(2) show "sqliteStored i s = None \<longleftrightarrow> sq_checkpoint_json row = None"
    "sqliteStored i s = Some cp \<Longrightarrow> sq_checkpoint_json row = Some (encodeCheckpoint cp) \<and>
       validateCheckpoint cp = None \<and> cp_ExecutionID cp = i \<and> sq_revision row = uint (cp_Revision cp)"
    by (auto simp: sqliteStored_def bind_eq_Some_conv split: Option.bind_splits)
qed

lemma publishRow_effect:
  assumes "sqliteGood s" and "validateCheckpoint cp = None" and "uint tok \<le> maxInt64"
    and row: "sq_rows s (cp_ExecutionID cp) = Some row"
    and p: "publishRow create (encodeCheckpoint cp) (uint (cp_Revision cp)) (uint tok) (sc_now c) row = Some row'"
    and s': "s' = s\<lparr>sq_rows := (sq_rows s)(cp_ExecutionID cp \<mapsto> row')\<rparr>"
  shows "sqliteGood s' \<and> takesEffect sqliteOwner sqliteIssued sqliteStored create c cp tok s s'"
proof -
  let ?i = "cp_ExecutionID cp"
  have row': "row' = row\<lparr>sq_checkpoint_json := Some (encodeCheckpoint cp), sq_revision := uint (cp_Revision cp)\<rparr>"
    and guard: "sq_fencing_token row = uint tok" "sq_lease_expires row > sc_now c"
      "if create then sq_checkpoint_json row = None
       else sq_checkpoint_json row \<noteq> None \<and> (sq_revision row = 0 \<or> uint (cp_Revision cp) > sq_revision row)"
    using p by (auto simp: publishRow_def split: if_splits)
  have "sqliteGood s'"
    unfolding s' using sqliteGood_row [OF assms(1) row] assms(2)
    by (intro sqliteGood_update [OF assms(1)]) (auto simp: sqliteRowGood_def row')
  moreover have "sqliteOwner (sc_now c) ?i s = Some tok" using row guard by (simp add: sqliteOwner_def)
  moreover have "sqliteIssued j s' = sqliteIssued j s" for j using row by (simp add: sqliteIssued_def s' row')
  moreover have "if create then sqliteStored ?i s = None
      else \<exists>cur. sqliteStored ?i s = Some cur \<and> (cp_Revision cur = 0 \<or> cp_Revision cur < cp_Revision cp)"
  proof (cases create)
    case True
    with guard(3) sqliteStored_row(1) [OF assms(1) row] show ?thesis by simp
  next
    case False
    with guard(3) sqliteStored_row(1) [OF assms(1) row] obtain cur where cur: "sqliteStored ?i s = Some cur" by auto
    with sqliteStored_row(2) [OF assms(1) row cur] guard(3) False show ?thesis
      by (auto simp: word_less_def uint_0_iff)
  qed
  moreover have "sqliteStored ?i s' = Some cp"
    using unmarshal_marshal [OF valid_encodable_any [OF assms(2)]] by (simp add: sqliteStored_def s' row')
  ultimately show ?thesis using assms(2) s' by (simp add: takesEffect_def replaces_def)
qed

lemma sqliteWrite_effect:
  assumes "sqliteGood s" and "sqliteWriteFenced create c cp tok s = (s', res)"
  shows "sqliteGood s' \<and> (s' = s \<and> res \<noteq> None \<or> takesEffect sqliteOwner sqliteIssued sqliteStored create c cp tok s s')"
  using sqliteWrite_cases [OF assms(2)]
proof (elim disjE exE conjE)
  fix row row'
  assume "validateCheckpoint cp = None" "uint tok \<le> maxInt64" "sq_rows s (cp_ExecutionID cp) = Some row"
    "publishRow create (encodeCheckpoint cp) (uint (cp_Revision cp)) (uint tok) (sc_now c) row = Some row'"
    "s' = s\<lparr>sq_rows := (sq_rows s)(cp_ExecutionID cp \<mapsto> row')\<rparr>"
  from publishRow_effect [OF assms(1) this] show ?thesis by blast
qed (use assms(1) in simp)

lemma sqliteLoad_sound:
  assumes "sqliteGood s" and "sqliteLoad c i s = Inr cp"
  shows "sqliteStored i s = Some cp"
proof -
  from assms(2) obtain row d where d: "sq_rows s i = Some row" "sq_checkpoint_json row = Some d"
      "decodeCheckpoint c i d = Inr cp"
    by (auto simp: sqliteLoad_def Let_def bind_eq_Some_conv split: option.splits if_splits)
  with sqliteGood_row [OF assms(1) d(1)] obtain cp' where "d = encodeCheckpoint cp'" "validateCheckpoint cp' = None"
    by (auto simp: sqliteRowGood_def)
  with unmarshal_marshal [OF valid_encodable_any] unmarshal_own decodeCheckpoint_sound [OF d(3)] d(1,2) show ?thesis
    by (auto simp: sqliteStored_def)
qed

lemma sqliteLoad_ready:
  assumes "sqliteGood s" and "sqliteStored i s = Some cp" and "goInts cp" and "i \<noteq> []" and "undisturbed c"
  shows "sqliteLoad c i s = Inr cp"
proof -
  from assms(2) obtain row where row: "sq_rows s i = Some row" by (auto simp: sqliteStored_def bind_eq_Some_conv)
  from sqliteStored_row(2) [OF assms(1) row assms(2)] decodeCheckpoint_marshal [OF _ assms(3), of c] row assms(4,5)
  show ?thesis by (auto simp: sqliteLoad_def checkSQLiteStoreContext_def undisturbed_def Let_def)
qed

interpretation sqlite: leased_checkpoint_store sqliteStore sqliteAcquireExecutionLease sqliteRenewExecutionLease sqliteWriteFenced
  sqliteExecutionLeaseRenewalInterval sqliteRelease sqliteGood sqliteIssued sqliteOwner sqliteStored sqliteLoad
proof (unfold_locales, goal_cases)
  case (4 s t i tok)
  then show ?case by (rule sqlite_owner_issued)
next
  case (5 s c i s' tok r)
  then show ?case by (rule sqliteAcquire_ok)
next
  case (6 s c i s' e)
  then show ?case by (rule sqliteAcquire_error)
next
  case (7 s i tok c)
  then show ?case by (rule sqliteRelease_ok)
next
  case (8 s tok i t j c)
  then show ?case by (rule sqliteRelease_stale)
next
  case (9 s c i tok s')
  with sqliteRenew_keeps [OF 9] sqliteRenew_owner [OF 9(2)] show ?case by simp
next
  case (10 s c i tok s' e)
  then show ?case by (rule sqliteRenew_keeps)
next
  case (11 s create c cp tok s')
  with sqliteWrite_effect [OF 11] show ?case by simp
next
  case (12 s create c cp tok s' e)
  with sqliteWrite_effect [OF 12] show ?case by auto
next
  case (13 s c i cp)
  then show ?case by (rule sqliteLoad_sound)
next
  case (14 s i cp c)
  then show ?case by (rule sqliteLoad_ready)
qed (simp_all add: sqliteStore_def)

end
