(* ===== verification/File_Store.thy ===== *)
theory File_Store
  imports Store_Contract Memory_Lease_Store
begin

text \<open>
  \<^verbatim>\<open>FileStore\<close> (\<^verbatim>\<open>file_store.go\<close>, \<^verbatim>\<open>file_store_lock_linux.go\<close>): one document per execution in a directory, and
  the advisory locks of the lock files. The state is the directory as other processes see it: \<^verbatim>\<open>Link\<close> and
  \<^verbatim>\<open>Rename\<close> are atomic, and a temporary file is gone when \<^verbatim>\<open>write\<close> returns. The hexadecimal digest
  \<^verbatim>\<open>fmt.Sprintf("%x", sha256.Sum256(id))\<close> is an argument of the operations; nothing is assumed about it, so
  the results hold even for executions whose digests collide.
\<close>

section \<open>State and paths\<close>

record FileStore =
  fs_directory :: string
  fs_files :: "string \<rightharpoonup> string"
  fs_locks :: "string \<rightharpoonup> nat"
  fs_nextFd :: nat

definition joinPath :: "string \<Rightarrow> string \<Rightarrow> string" where
  "joinPath dir name = (if dir = ''/'' then ''/'' @ name else dir @ ''/'' @ name)"

definition filePath :: "(string \<Rightarrow> string) \<Rightarrow> FileStore \<Rightarrow> string \<Rightarrow> string" where
  "filePath digest s executionID = joinPath (fs_directory s) (digest executionID @ ''.json'')"

definition syncDirectory :: "store_call \<Rightarrow> goerr option" where
  "syncDirectory c = (case sc_io c OsOpenDir of Some err \<Rightarrow> Some err | None \<Rightarrow> sc_io c OsSyncDir)"

text \<open>
  \<open>path\<close> is the result of \<^verbatim>\<open>filepath.Abs\<close> and \<open>isDir\<close> what \<^verbatim>\<open>Stat\<close> says; \<open>disk\<close> is the machine as other processes
  have left it: the documents and the locks that are held.
\<close>

definition NewFileStore ::
  "store_call \<Rightarrow> string \<Rightarrow> string \<Rightarrow> bool \<Rightarrow> FileStore \<Rightarrow> goerr + FileStore" where
  "NewFileStore c directory path isDir disk =
     (if directory = [] then Inl (errMsg ErrInvalidRequest ''store directory is required'')
      else case sc_io c FileAbs of Some err \<Rightarrow> Inl err | None \<Rightarrow>
      let mkdirErr = sc_io c OsMkdir in
      if mkdirErr \<noteq> None \<and> \<not> errorsIs (the mkdirErr) OsErrExist then Inl (the mkdirErr)
      else case sc_io c OsStat of Some err \<Rightarrow> Inl err | None \<Rightarrow>
      if \<not> isDir then Inl (Errorf [Lit ''checkpoint store path is not a directory: '', Str path])
      else case syncDirectory c of
        Some err \<Rightarrow> Inl err
      | None \<Rightarrow> Inr (disk\<lparr>fs_directory := path\<rparr>))"

section \<open>Reading and writing\<close>

definition fileLoad :: "(string \<Rightarrow> string) \<Rightarrow> store_call \<Rightarrow> string \<Rightarrow> FileStore \<Rightarrow> goerr + Checkpoint" where
  "fileLoad digest c executionID s =
     (case checkStoreContext c of Some err \<Rightarrow> Inl err | None \<Rightarrow>
      if executionID = [] then Inl (errMsg ErrInvalidCheckpoint ''execution ID is required'')
      else
        let file = fs_files s (filePath digest s executionID);
            readErr = (case sc_io c OsReadFile of
                         Some err \<Rightarrow> Some err
                       | None \<Rightarrow> if file = None then Some (Sentinel OsErrNotExist) else None)
        in case readErr of
             Some err \<Rightarrow>
               if errorsIs err OsErrNotExist
               then Inl (Errorf [W (Sentinel ErrExecutionNotFound), Lit '': '', Quoted executionID])
               else Inl err
           | None \<Rightarrow>
               (case sc_err c 1 of
                  Some err \<Rightarrow> Inl err
                | None \<Rightarrow> decodeCheckpoint c executionID (the file)))"

text \<open>The context checks of a call that come after the first \<open>n\<close>.\<close>

definition afterChecks :: "nat \<Rightarrow> store_call \<Rightarrow> store_call" where
  "afterChecks n c = c\<lparr>sc_err := (\<lambda>k. sc_err c (n + k))\<rparr>"

text \<open>The first failing call of a sequence.\<close>

fun firstFailure :: "store_call \<Rightarrow> io_op list \<Rightarrow> goerr option" where
  "firstFailure c [] = None"
| "firstFailure c (op # ops) = (case sc_io c op of Some err \<Rightarrow> Some err | None \<Rightarrow> firstFailure c ops)"

text \<open>The revision check of a \<^verbatim>\<open>Save\<close>.\<close>

definition checkRevision :: "(string \<Rightarrow> string) \<Rightarrow> store_call \<Rightarrow> Checkpoint \<Rightarrow> FileStore \<Rightarrow> goerr option" where
  "checkRevision digest c checkpoint s =
     (case fileLoad digest (afterChecks 1 c) (cp_ExecutionID checkpoint) s of
        Inl err \<Rightarrow> Some err
      | Inr current \<Rightarrow>
          if cp_Revision current > 0 \<and> (cp_Revision checkpoint = 0 \<or> cp_Revision checkpoint \<le> cp_Revision current)
          then Some (conflictError (cp_ExecutionID checkpoint) (cp_Revision current) (cp_Revision checkpoint))
          else None)"

text \<open>Publication of the written temporary file: a link for \<^verbatim>\<open>Create\<close>, a rename for \<^verbatim>\<open>Save\<close>.\<close>

definition publishFile ::
  "(string \<Rightarrow> string) \<Rightarrow> bool \<Rightarrow> store_call \<Rightarrow> Checkpoint \<Rightarrow> FileStore \<Rightarrow> FileStore \<times> goerr option" where
  "publishFile digest create c checkpoint s =
     (let target = filePath digest s (cp_ExecutionID checkpoint);
          s' = s\<lparr>fs_files := (fs_files s)(target \<mapsto> encodeCheckpoint checkpoint)\<rparr>
      in if create then
           let linkErr = (case sc_io c OsLink of
                            Some err \<Rightarrow> Some err
                          | None \<Rightarrow> if fs_files s target \<noteq> None then Some (Sentinel OsErrExist) else None)
           in case linkErr of
                Some err \<Rightarrow>
                  (s, Some (if errorsIs err OsErrExist
                            then Errorf [W (Sentinel ErrExecutionExists), Lit '': '', Quoted (cp_ExecutionID checkpoint)]
                            else err))
              | None \<Rightarrow> (s', syncDirectory c)
         else case sc_io c OsRename of
                Some err \<Rightarrow> (s, Some err)
              | None \<Rightarrow> (s', syncDirectory c))"

definition fileWrite ::
  "(string \<Rightarrow> string) \<Rightarrow> bool \<Rightarrow> store_call \<Rightarrow> Checkpoint \<Rightarrow> FileStore \<Rightarrow> FileStore \<times> goerr option" where
  "fileWrite digest create c checkpoint s =
     (case checkStoreContext c of Some err \<Rightarrow> (s, Some err) | None \<Rightarrow>
      case validateCheckpoint checkpoint of Some err \<Rightarrow> (s, Some err) | None \<Rightarrow>
      case (if create then None else checkRevision digest c checkpoint s) of Some err \<Rightarrow> (s, Some err) | None \<Rightarrow>
      case firstFailure c [OsCreateTemp, OsWrite, OsSync, OsClose] of Some err \<Rightarrow> (s, Some err) | None \<Rightarrow>
      case sc_err c (if create then 1 else 3) of Some err \<Rightarrow> (s, Some err) | None \<Rightarrow>
      publishFile digest create c checkpoint s)"

section \<open>Locks\<close>

text \<open>
  \<^verbatim>\<open>flock\<close> locks belong to an open file description, numbered by \<open>fs_nextFd\<close>; releasing one that is not the holder's
  has no effect.
\<close>

definition fileUnlock :: "string \<Rightarrow> nat \<Rightarrow> FileStore release" where
  "fileUnlock lockPath fd c s =
     (if fs_locks s lockPath = Some fd then s\<lparr>fs_locks := (fs_locks s)(lockPath := None)\<rparr> else s)"

definition LockExecution ::
  "(string \<Rightarrow> string) \<Rightarrow> store_call \<Rightarrow> string \<Rightarrow> FileStore \<Rightarrow> FileStore \<times> (goerr + FileStore release option)" where
  "LockExecution digest c executionID s =
     (case checkStoreContext c of Some err \<Rightarrow> (s, Inl err) | None \<Rightarrow>
      if executionID = [] then (s, Inl (errMsg ErrInvalidRequest ''execution ID is required''))
      else case sc_io c OsOpenLock of Some err \<Rightarrow> (s, Inl err) | None \<Rightarrow>
      let lockPath = filePath digest s executionID @ ''.lock'';
          fd = fs_nextFd s;
          opened = s\<lparr>fs_nextFd := fd + 1\<rparr>;
          flockErr = (case sc_io c OsFlock of
                        Some err \<Rightarrow> Some err
                      | None \<Rightarrow> if fs_locks s lockPath \<noteq> None then Some (Sentinel SyscallEWOULDBLOCK) else None)
      in case flockErr of
           Some err \<Rightarrow>
             (opened, Inl (if errorsIs err SyscallEWOULDBLOCK
                           then Errorf [W (Sentinel ErrExecutionBusy), Lit '': '', Quoted executionID] else err))
         | None \<Rightarrow>
             let locked = opened\<lparr>fs_locks := (fs_locks s)(lockPath \<mapsto> fd)\<rparr> in
             (case sc_err c 1 of
                Some err \<Rightarrow> (fileUnlock lockPath fd c locked, Inl err)
              | None \<Rightarrow> (locked, Inr (Some (fileUnlock lockPath fd)))))"

definition fileStore :: "(string \<Rightarrow> string) \<Rightarrow> FileStore CheckpointStore" where
  "fileStore digest =
     \<lparr>st_Create = fileWrite digest True, st_Save = fileWrite digest False, st_Load = fileLoad digest,
      st_AcquireExecutionLease = None, st_Fenced = None,
      st_LockExecution = Some (LockExecution digest), st_Renewer = None\<rparr>"

section \<open>The contract of checkpoint stores holds\<close>

text \<open>Every file is a valid checkpoint of an execution that maps to it.\<close>

definition fileGood :: "(string \<Rightarrow> string) \<Rightarrow> FileStore \<Rightarrow> bool" where
  "fileGood digest s \<longleftrightarrow>
     (\<forall>p d. fs_files s p = Some d \<longrightarrow>
        (\<exists>cp. d = encodeCheckpoint cp \<and> validateCheckpoint cp = None \<and> p = filePath digest s (cp_ExecutionID cp)))"

text \<open>The checkpoint of an execution: the one in its file, if it is its own.\<close>

definition fileStored :: "(string \<Rightarrow> string) \<Rightarrow> string \<Rightarrow> FileStore \<Rightarrow> Checkpoint option" where
  "fileStored digest i s =
     (case Option.bind (fs_files s (filePath digest s i)) (unmarshalCheckpoint (\<lambda>_. True)) of
        Some cp \<Rightarrow> if cp_ExecutionID cp = i then Some cp else None
      | None \<Rightarrow> None)"

lemma fileGood_file:
  assumes "fileGood digest s" and "fs_files s p = Some d"
  obtains cp where "d = encodeCheckpoint cp" "validateCheckpoint cp = None"
    "unmarshalCheckpoint (\<lambda>_. True) d = Some cp" "p = filePath digest s (cp_ExecutionID cp)"
  using assms unmarshal_marshal [OF valid_encodable_any] by (fastforce simp: fileGood_def)

lemma filePath_update [simp]: "filePath digest (s\<lparr>fs_files := f\<rparr>) = filePath digest s"
  by (simp add: filePath_def fun_eq_iff)

lemma publishFile_cases:
  assumes "publishFile digest create c cp s = (s', res)"
  shows "s' = s \<and> res \<noteq> None \<or>
    s' = s\<lparr>fs_files := (fs_files s)(filePath digest s (cp_ExecutionID cp) \<mapsto> encodeCheckpoint cp)\<rparr> \<and>
    (create \<longrightarrow> fs_files s (filePath digest s (cp_ExecutionID cp)) = None)"
  using assms by (auto simp: publishFile_def Let_def split: option.splits if_splits) metis+

lemma fileWrite_cases:
  assumes "fileWrite digest create c cp s = (s', res)"
  shows "s' = s \<and> res \<noteq> None \<or>
    validateCheckpoint cp = None \<and> (\<not> create \<longrightarrow> checkRevision digest c cp s = None) \<and>
    s' = s\<lparr>fs_files := (fs_files s)(filePath digest s (cp_ExecutionID cp) \<mapsto> encodeCheckpoint cp)\<rparr> \<and>
    (create \<longrightarrow> fs_files s (filePath digest s (cp_ExecutionID cp)) = None)"
proof (cases "s' = s \<and> res \<noteq> None")
  case False
  with assms have "validateCheckpoint cp = None" "\<not> create \<longrightarrow> checkRevision digest c cp s = None"
    "publishFile digest create c cp s = (s', res)"
    by (auto simp: fileWrite_def split: option.splits if_splits)
  with publishFile_cases [of digest create c cp s s' res] False show ?thesis by blast
qed blast

lemma fileLoad_sound:
  assumes "fileGood digest s" and "fileLoad digest c i s = Inr cp"
  shows "fileStored digest i s = Some cp"
proof -
  from assms(2) obtain d where d: "fs_files s (filePath digest s i) = Some d" "decodeCheckpoint c i d = Inr cp"
    by (auto simp: fileLoad_def Let_def split: option.splits if_splits)
  obtain cp' where cp': "d = encodeCheckpoint cp'" "validateCheckpoint cp' = None"
      "unmarshalCheckpoint (\<lambda>_. True) d = Some cp'"
    by (rule fileGood_file [OF assms(1) d(1)])
  have "cp = cp'" "cp_ExecutionID cp = i"
    using decodeCheckpoint_sound [OF d(2)] unmarshal_own cp'(1,2) by auto
  with d(1) cp'(3) show ?thesis by (simp add: fileStored_def)
qed

lemma fileStored_file:
  assumes "fileGood digest s" and "fileStored digest i s = Some cp"
  shows "fs_files s (filePath digest s i) = Some (encodeCheckpoint cp)" "validateCheckpoint cp = None"
    "cp_ExecutionID cp = i"
proof -
  from assms(2) obtain d where d: "fs_files s (filePath digest s i) = Some d" "unmarshalCheckpoint (\<lambda>_. True) d = Some cp"
      "cp_ExecutionID cp = i"
    by (auto simp: fileStored_def bind_eq_Some_conv split: option.splits if_splits)
  then show "fs_files s (filePath digest s i) = Some (encodeCheckpoint cp)" "validateCheckpoint cp = None"
    "cp_ExecutionID cp = i"
    by (auto elim!: fileGood_file [OF assms(1)])
qed

lemma fileWrite_effect:
  assumes "fileGood digest s" and "fileWrite digest create c cp s = (s', res)"
  shows "fileGood digest s' \<and> (s' = s \<and> res \<noteq> None \<or> replaces (fileStored digest) create cp s s')"
  using fileWrite_cases [OF assms(2)]
proof (elim disjE conjE)
  let ?p = "filePath digest s (cp_ExecutionID cp)"
  assume v: "validateCheckpoint cp = None" and rev: "\<not> create \<longrightarrow> checkRevision digest c cp s = None"
    and s': "s' = s\<lparr>fs_files := (fs_files s)(?p \<mapsto> encodeCheckpoint cp)\<rparr>"
    and new: "create \<longrightarrow> fs_files s ?p = None"
  have un: "unmarshalCheckpoint (\<lambda>_. True) (encodeCheckpoint cp) = Some cp"
    by (rule unmarshal_marshal [OF valid_encodable_any [OF v]])
  have g: "fileGood digest s'"
    using assms(1) v by (auto simp: fileGood_def s' split: if_splits)
  have cur: "\<exists>cur. fileStored digest (cp_ExecutionID cp) s = Some cur \<and>
      (cp_Revision cur = 0 \<or> cp_Revision cur < cp_Revision cp)" if "\<not> create"
    using rev that fileLoad_sound [OF assms(1)]
    by (fastforce simp: checkRevision_def word_gt_0 not_le split: sum.splits if_splits)
  have other: "fileStored digest j s' = fileStored digest j s" if "j \<noteq> cp_ExecutionID cp" for j
  proof (cases "filePath digest s j = ?p")
    case True
    have "fileStored digest j s = None"
    proof (cases create)
      case False
      with cur fileStored_file [OF assms(1)] obtain c0 where
        "fs_files s ?p = Some (encodeCheckpoint c0)" "validateCheckpoint c0 = None" "cp_ExecutionID c0 = cp_ExecutionID cp"
        by metis
      with True that unmarshal_marshal [OF valid_encodable_any] show ?thesis by (simp add: fileStored_def)
    qed (use new True in \<open>simp add: fileStored_def\<close>)
    with True that un show ?thesis by (simp add: fileStored_def s')
  qed (simp add: fileStored_def s')
  have "fileStored digest (cp_ExecutionID cp) s = None" if create
    using new that by (simp add: fileStored_def)
  with v cur other un show ?thesis
    using g by (auto simp: replaces_def fileStored_def s')
qed (use assms(1) in simp)

lemma fileLoad_ready:
  assumes "fileGood digest s" and "fileStored digest i s = Some cp" and "goInts cp" and "i \<noteq> []" and "undisturbed c"
  shows "fileLoad digest c i s = Inr cp"
  using fileStored_file [OF assms(1,2)] decodeCheckpoint_marshal [OF _ assms(3), of c] assms(4,5)
  by (simp add: fileLoad_def checkStoreContext_def undisturbed_def Let_def)

interpretation files: checkpoint_store "fileWrite digest" "fileLoad digest" "fileGood digest" "fileStored digest" for digest
proof (unfold_locales, goal_cases)
  case (1 s create c cp s')
  with fileWrite_effect [OF 1] show ?case by blast
next
  case (2 s create c cp s' e)
  with fileWrite_effect [OF 2] show ?case by blast
next
  case (3 s c i cp)
  then show ?case by (rule fileLoad_sound)
next
  case (4 s i cp c)
  then show ?case by (rule fileLoad_ready)
qed

section \<open>Mutual exclusion of the locks\<close>

datatype lock_event =
    Locked string nat
  | NotLocked string
  | Unlocked string nat
  | FileWritten bool Checkpoint "goerr option"

type_synonym lock_system = "FileStore \<times> (string \<times> nat \<times> FileStore release) list"

abbreviation lockPath :: "(string \<Rightarrow> string) \<Rightarrow> FileStore \<Rightarrow> string \<Rightarrow> string" where
  "lockPath digest s i \<equiv> filePath digest s i @ ''.lock''"

text \<open>Steps of any number of processes that lock, unlock (at any time, repeatedly) and write.\<close>

inductive lockStep :: "(string \<Rightarrow> string) \<Rightarrow> lock_system \<Rightarrow> lock_event \<Rightarrow> lock_system \<Rightarrow> bool" for digest where
  locked: "LockExecution digest c i s = (s', Inr (Some rel)) \<Longrightarrow>
     lockStep digest (s, rels) (Locked i (fs_nextFd s)) (s', (i, fs_nextFd s, rel) # rels)"
| notLocked: "LockExecution digest c i s = (s', Inl e) \<Longrightarrow> lockStep digest (s, rels) (NotLocked i) (s', rels)"
| unlocked: "(i, fd, rel) \<in> set rels \<Longrightarrow> lockStep digest (s, rels) (Unlocked i fd) (rel c s, rels)"
| written: "fileWrite digest create c cp s = (s', res) \<Longrightarrow>
     lockStep digest (s, rels) (FileWritten create cp res) (s', rels)"

inductive lockRun :: "(string \<Rightarrow> string) \<Rightarrow> lock_system \<Rightarrow> lock_event list \<Rightarrow> lock_system \<Rightarrow> bool" for digest sys0 where
  start: "lockRun digest sys0 [] sys0"
| step: "lockRun digest sys0 evs sys \<Longrightarrow> lockStep digest sys ev sys' \<Longrightarrow> lockRun digest sys0 (evs @ [ev]) sys'"

inductive_cases lockStepE: "lockStep digest (s, rels) ev (s', rels')"

text \<open>What a call of \<^verbatim>\<open>LockExecution\<close> does to the locks.\<close>

lemma LockExecution_ok:
  "LockExecution digest c i s = (s', Inr r) \<Longrightarrow>
     r = Some (fileUnlock (lockPath digest s i) (fs_nextFd s)) \<and> fs_locks s (lockPath digest s i) = None \<and>
     s' = s\<lparr>fs_locks := (fs_locks s)(lockPath digest s i \<mapsto> fs_nextFd s), fs_nextFd := fs_nextFd s + 1\<rparr>"
  by (auto simp: LockExecution_def Let_def split: option.splits if_splits)

lemma LockExecution_error:
  assumes "LockExecution digest c i s = (s', Inl e)"
  shows "fs_locks s' = fs_locks s \<and> fs_directory s' = fs_directory s \<and> fs_nextFd s \<le> fs_nextFd s'"
  using assms by (auto simp: LockExecution_def Let_def fileUnlock_def fun_eq_iff split: option.splits if_splits)

lemma fileWrite_locks:
  assumes "fileWrite digest create c cp s = (s', res)"
  shows "fs_locks s' = fs_locks s \<and> fs_directory s' = fs_directory s \<and> fs_nextFd s' = fs_nextFd s"
  using fileWrite_cases [OF assms] by auto

text \<open>Descriptors handed out are distinct, each with its own unlock function.\<close>

definition lockOrder :: "(string \<Rightarrow> string) \<Rightarrow> FileStore \<Rightarrow> lock_system \<Rightarrow> bool" where
  "lockOrder digest s0 sys \<longleftrightarrow>
     fs_directory (fst sys) = fs_directory s0 \<and> distinct (map (\<lambda>(i, fd, rel). fd) (snd sys)) \<and>
     (\<forall>(i, fd, rel) \<in> set (snd sys). rel = fileUnlock (lockPath digest s0 i) fd \<and> fd < fs_nextFd (fst sys))"

lemma lockStep_order:
  assumes "lockStep digest (s, rels) ev (s', rels')" and "lockOrder digest s0 (s, rels)"
  shows "lockOrder digest s0 (s', rels')"
  using assms(1)
proof (cases rule: lockStep.cases)
  case (locked c i rel)
  with assms(2) locked LockExecution_ok [of digest c i s s' "Some rel"] show ?thesis
    by (fastforce simp: lockOrder_def filePath_def)
next
  case (notLocked c i e)
  with assms(2) LockExecution_error [of digest c i s s' e] show ?thesis by (fastforce simp: lockOrder_def)
next
  case (unlocked i fd rel c)
  then have "rel = fileUnlock (lockPath digest s0 i) fd" using assms(2) by (auto simp: lockOrder_def)
  with unlocked assms(2) show ?thesis by (auto simp: lockOrder_def fileUnlock_def)
next
  case (written create c cp res)
  with assms(2) fileWrite_locks [of digest create c cp s s' res] show ?thesis by (simp add: lockOrder_def)
qed

lemma lockRun_order: "lockRun digest (s0, []) evs sys \<Longrightarrow> lockOrder digest s0 sys"
proof (induction rule: lockRun.induct)
  case (step evs sys ev sys')
  with lockStep_order [of digest "fst sys" "snd sys" ev "fst sys'" "snd sys'" s0] show ?case by simp
qed (simp add: lockOrder_def)

lemma lockStep_keeps:
  assumes "lockStep digest (s, rels) ev (s', rels')" and "lockOrder digest s0 (s, rels)"
    and "fs_locks s (lockPath digest s0 i) = Some fd" and "(i, fd, rel) \<in> set rels" and "ev \<noteq> Unlocked i fd"
  shows "fs_locks s' (lockPath digest s0 i) = Some fd \<and> (i, fd, rel) \<in> set rels'"
  using assms(1)
proof (cases rule: lockStep.cases)
  case (locked c j rel')
  with assms(2-4) locked LockExecution_ok [of digest c j s s' "Some rel'"] show ?thesis by (auto simp: lockOrder_def filePath_def)
next
  case (notLocked c j e)
  with assms(3,4) LockExecution_error [of digest c j s s' e] show ?thesis by simp
next
  case (unlocked j fd' rel' c)
  with assms(5) have "(j, fd') \<noteq> (i, fd)" by auto
  moreover have "fd' \<noteq> fd \<or> j = i"
    using unlocked assms(2,4) by (auto simp: lockOrder_def distinct_map inj_on_def)
  moreover have "rel' = fileUnlock (lockPath digest s0 j) fd'" using assms(2) unlocked by (auto simp: lockOrder_def)
  ultimately show ?thesis using assms(3,4) unlocked by (auto simp: fileUnlock_def)
next
  case (written create c cp res)
  with assms(3,4) fileWrite_locks [of digest create c cp s s' res] show ?thesis by simp
qed

lemma lock_held:
  assumes "lockRun digest (s0, []) evs sys" and "evs = xs @ Locked i fd # ys" and "Unlocked i fd \<notin> set ys"
  shows "fs_locks (fst sys) (lockPath digest s0 i) = Some fd \<and> (\<exists>rel. (i, fd, rel) \<in> set (snd sys))"
  using assms
proof (induction arbitrary: ys rule: lockRun.induct)
  case (step evs sys ev sys')
  obtain s rels s' rels' where sys: "sys = (s, rels)" "sys' = (s', rels')" by (metis surj_pair)
  have o: "lockOrder digest s0 (s, rels)" using lockRun_order [OF step.hyps(1)] sys by simp
  show ?case
  proof (cases ys rule: rev_cases)
    case Nil
    with step.prems(1) have "ev = Locked i fd" by simp
    with step.hyps(2) o sys show ?thesis
      by (auto elim!: lockStepE dest!: LockExecution_ok simp: lockOrder_def filePath_def)
  next
    case (snoc zs z)
    with step.prems have e: "evs = xs @ Locked i fd # zs" "ev = z" "Unlocked i fd \<notin> set zs" "ev \<noteq> Unlocked i fd" by auto
    from step.IH [OF e(1,3)] sys obtain rel where
      "fs_locks s (lockPath digest s0 i) = Some fd" "(i, fd, rel) \<in> set rels" by auto
    from lockStep_keeps [OF step.hyps(2) [unfolded sys] o this e(4)] sys show ?thesis by auto
  qed
qed simp

end
