(* ===== verification/Store_Guarantees.thy ===== *)
theory Store_Guarantees
  imports Sqlite_Store File_Store Scenario
begin

text \<open>
  What the SQLite store and the file store guarantee.
\<close>

section \<open>Concrete stores\<close>

definition demoSqlite :: SQLiteCheckpointStore where
  "demoSqlite = \<lparr>sq_leaseDuration = 6, sq_rows = Map.empty\<rparr>"

definition demoSqliteRow :: "int \<Rightarrow> int \<Rightarrow> sqliteRow" where
  "demoSqliteRow token expires =
     \<lparr>sq_checkpoint_json = None, sq_revision = 0, sq_fencing_token = token, sq_lease_expires = expires\<rparr>"

definition demoSqliteOwned :: "int \<Rightarrow> int \<Rightarrow> SQLiteCheckpointStore" where
  "demoSqliteOwned token expires = demoSqlite\<lparr>sq_rows := [''job'' \<mapsto> demoSqliteRow token expires]\<rparr>"

definition demoSqlitePublished :: SQLiteCheckpointStore where
  "demoSqlitePublished = demoSqlite\<lparr>sq_rows := [''job'' \<mapsto>
     (demoSqliteRow 2 13)\<lparr>sq_checkpoint_json := Some (encodeCheckpoint demoFirst), sq_revision := 1\<rparr>]\<rparr>"

lemmas demo_sqlite_defs = demoSqlite_def demoSqliteRow_def demoSqliteOwned_def demoSqlitePublished_def

lemma demoFirst_valid: "validateCheckpoint demoFirst = None"
  by code_simp

lemma demoFirst_facts: "cp_ExecutionID demoFirst = ''job''" "cp_Revision demoFirst = 1" "goInts demoFirst"
  by (simp_all add: demoFirst_def demoInitial_def zeroCheckpoint_def goInts_def fitsInt64_def zeroResult_def)

lemma demoCallEnv_facts:
  "checkSQLiteStoreContext (demoCallEnv t) = None" "sc_now (demoCallEnv t) = int t" "sc_io (demoCallEnv t) op = None"
  "undisturbed (demoCallEnv t)"
  by (simp_all add: checkSQLiteStoreContext_def demoCallEnv_def undisturbed_def)

lemma demoSqlite_good: "sqliteGood demoSqlite"
  by (simp add: sqliteGood_def demoSqlite_def)

lemma demoSqlite_acquires:
  "sqliteAcquireExecutionLease (demoCallEnv 0) ''job'' demoSqlite =
     (demoSqliteOwned 1 6, Inr (1, Some (sqliteRelease ''job'' 1)))"
  "sqliteAcquireExecutionLease (demoCallEnv 7) ''job'' (demoSqliteOwned 1 6) =
     (demoSqliteOwned 2 13, Inr (2, Some (sqliteRelease ''job'' 2)))"
  by (simp_all add: sqliteAcquireExecutionLease_def demoCallEnv_facts sqliteLeaseExpiry_def maxInt64_def
      queryAcquire_def upsertLease_def demo_sqlite_defs)

lemma demoSqlite_publishes:
  "sqliteWriteFenced True (demoCallEnv 8) demoFirst 2 (demoSqliteOwned 2 13) = (demoSqlitePublished, None)"
  by (simp add: sqliteWriteFenced_def demoCallEnv_facts demoFirst_valid sqliteInt64_def maxInt64_def execUpdate_def
      publishRow_def demoFirst_facts demo_sqlite_defs)

lemma demoSqlite_run:
  "\<exists>rels. leaseRun sqliteStore (demoSqlite, []) ([Acquired ''job'' 1, Acquired ''job'' 2] @ Published True demoFirst 2 # [])
     (demoSqlitePublished, rels)"
proof -
  have a: "st_AcquireExecutionLease sqliteStore = Some sqliteAcquireExecutionLease"
    and f: "st_Fenced sqliteStore = Some (sqliteWriteFenced True, sqliteWriteFenced False)"
    by (simp_all add: sqliteStore_def)
  note s1 = leaseRun.step [OF leaseRun.start leaseStep.acquired [OF a demoSqlite_acquires(1)]]
  note s2 = leaseRun.step [OF s1 leaseStep.acquired [OF a demoSqlite_acquires(2)]]
  have "(if True then sqliteWriteFenced True else sqliteWriteFenced False) (demoCallEnv 8) demoFirst 2
      (demoSqliteOwned 2 13) = (demoSqlitePublished, None)"
    using demoSqlite_publishes by simp
  from leaseRun.step [OF s2 leaseStep.published [OF f this]] show ?thesis by auto
qed

definition demoFiles :: FileStore where
  "demoFiles = \<lparr>fs_directory = ''/data'', fs_files = Map.empty, fs_locks = Map.empty, fs_nextFd = 0\<rparr>"

definition demoFilesWritten :: FileStore where
  "demoFilesWritten = demoFiles\<lparr>fs_files := [''/data/d-job.json'' \<mapsto> encodeCheckpoint demoFirst]\<rparr>"

definition demoDigest :: "string \<Rightarrow> string" where
  "demoDigest i = ''d-'' @ i"

lemma demoFiles_good: "fileGood digest demoFiles"
  by (simp add: fileGood_def demoFiles_def)

lemma demoFiles_write: "fileWrite demoDigest True (demoCallEnv 0) demoFirst demoFiles = (demoFilesWritten, None)"
  using demoCallEnv_facts(4) [of 0]
  by (simp add: fileWrite_def checkStoreContext_def undisturbed_def demoFirst_valid publishFile_def Let_def
      demoFiles_def demoFilesWritten_def filePath_def joinPath_def demoDigest_def demoFirst_facts syncDirectory_def)

section \<open>Properties\<close>

text \<open>
  C27. Fencing on the SQLite store: however workers interleave, with database errors at any statement before
  or after it took effect, a publication under an acquired token carries the latest token of its
  execution, tokens grow strictly and every publication supersedes the ones before it.
\<close>

theorem sqlite_fences:
  assumes "leaseRun sqliteStore (s0, []) (xs @ Published create cp tok # ys) sys" and "sqliteGood s0"
    and "tok \<in> set (acquiredTokens (cp_ExecutionID cp) xs)"
  shows "tok = last (acquiredTokens (cp_ExecutionID cp) xs) \<and>
    sorted_wrt (<) (acquiredTokens i (xs @ Published create cp tok # ys)) \<and>
    sorted_wrt supersedes (publications i (xs @ Published create cp tok # ys))"
  using sqlite.publication_latest [OF assms(1) sqlite.owned_start [OF assms(2)] assms(3)]
    sqlite.tokens_increase [OF assms(1) sqlite.owned_start [OF assms(2)]]
    sqlite.publications_progress [OF assms(1) sqlite.owned_start [OF assms(2)]] by blast

theorem sqlite_fences_witness:
  "2 = last (acquiredTokens (cp_ExecutionID demoFirst) [Acquired ''job'' 1, Acquired ''job'' 2]) \<and>
   sorted_wrt (<) (acquiredTokens ''job'' ([Acquired ''job'' 1, Acquired ''job'' 2] @ Published True demoFirst 2 # [])) \<and>
   sorted_wrt supersedes (publications ''job'' ([Acquired ''job'' 1, Acquired ''job'' 2] @ Published True demoFirst 2 # []))"
proof -
  obtain rels where r: "leaseRun sqliteStore (demoSqlite, [])
      ([Acquired ''job'' 1, Acquired ''job'' 2] @ Published True demoFirst 2 # []) (demoSqlitePublished, rels)"
    using demoSqlite_run by blast
  show ?thesis
    by (rule sqlite_fences [OF r demoSqlite_good]) (simp add: acquiredTokens_def demoFirst_facts)
qed

text \<open>
  C28. After any interleaving of workers on the SQLite store, a \<^verbatim>\<open>Load\<close> that succeeds returns a valid
  checkpoint of the requested execution whose revision is at least that of every acknowledged
  publication: no acknowledged progress is lost.
\<close>

theorem sqlite_load_is_current:
  assumes "leaseRun sqliteStore (s0, []) evs (s, rels)" and "sqliteGood s0" and "sqliteLoad c i s = Inr cp"
  shows "validateCheckpoint cp = None \<and> cp_ExecutionID cp = i \<and>
    (\<forall>p \<in> set (publications i evs). atLeast (fst (snd p)) cp)"
proof -
  note o = sqlite.owned_start [OF assms(2)]
  obtain d where "decodeCheckpoint c i d = Inr cp"
    using assms(3) by (auto simp: sqliteLoad_def Let_def split: option.splits if_splits)
  with decodeCheckpoint_sound sqlite.load_after_run [OF assms(1) o assms(3)] show ?thesis by blast
qed

theorem sqlite_load_is_current_witness:
  "sqliteLoad (demoCallEnv 9) ''job'' demoSqlitePublished = Inr demoFirst \<and> validateCheckpoint demoFirst = None \<and>
   cp_ExecutionID demoFirst = ''job'' \<and>
   list_all (\<lambda>p. atLeast (fst (snd p)) demoFirst)
     (publications ''job'' ([Acquired ''job'' 1, Acquired ''job'' 2] @ Published True demoFirst 2 # []))"
proof -
  obtain rels where r: "leaseRun sqliteStore (demoSqlite, [])
      ([Acquired ''job'' 1, Acquired ''job'' 2] @ Published True demoFirst 2 # []) (demoSqlitePublished, rels)"
    using demoSqlite_run by blast
  have "sqliteLoad (demoCallEnv 9) ''job'' demoSqlitePublished = Inr demoFirst"
    using decodeCheckpoint_marshal [OF demoFirst_valid demoFirst_facts(3), of "demoCallEnv 9"]
    by (simp add: sqliteLoad_def demoCallEnv_facts demo_sqlite_defs demoFirst_facts)
  with sqlite_load_is_current [OF r demoSqlite_good this] show ?thesis unfolding list_all_iff by blast
qed

text \<open>
  C29. Durable round trip: for a checkpoint that passes validation, decoding the JSON text that encoding
  produces gives back exactly this checkpoint, every string, number, step and transition unchanged.
\<close>

theorem checkpoint_roundtrip:
  assumes "validateCheckpoint cp = None" and "goInts cp"
  shows "unmarshalCheckpoint fitsInt64 (encodeCheckpoint cp) = Some cp"
  by (rule unmarshal_marshal [OF valid_encodable [OF assms]])

theorem checkpoint_roundtrip_witness:
  "unmarshalCheckpoint fitsInt64 (encodeCheckpoint demoFirst) = Some demoFirst"
  by (rule checkpoint_roundtrip [OF demoFirst_valid demoFirst_facts(3)])

text \<open>
  C30. A write that the file store acknowledges is read back unchanged by the next \<^verbatim>\<open>Load\<close>, and no write, even a
  failed one and even of an execution whose digest collides, changes what is stored for another
  execution.
\<close>

theorem file_write_reads_back:
  assumes "fileGood digest s" and "fileWrite digest create c cp s = (s', res)"
  shows "(res = None \<and> goInts cp \<and> undisturbed d \<longrightarrow> fileLoad digest d (cp_ExecutionID cp) s' = Inr cp) \<and>
    (\<forall>j. j \<noteq> cp_ExecutionID cp \<longrightarrow> fileStored digest j s' = fileStored digest j s)"
  using files.load_after_write [OF assms(1)] files.write_elsewhere [OF assms] assms(2) by blast

theorem file_write_reads_back_witness:
  "fileLoad demoDigest (demoCallEnv 1) ''job'' demoFilesWritten = Inr demoFirst"
  using file_write_reads_back [OF demoFiles_good demoFiles_write, of "demoCallEnv 1"]
  by (simp add: demoFirst_facts demoCallEnv_facts)

text \<open>
  C31. After any sequence of writes to the file store with whatever failures, every acknowledged checkpoint is
  still covered: a later successful \<^verbatim>\<open>Load\<close> of its execution returns a revision that is at least as new.
\<close>

theorem file_progress_survives:
  assumes "fileGood digest s" and "writeAll (fileWrite digest) ws s = (s', acks)" and "a \<in> set acks"
    and "fileLoad digest c (cp_ExecutionID a) s' = Inr cp"
  shows "atLeast a cp"
  by (rule files.load_after_writes [OF assms])

theorem file_progress_survives_witness:
  "writeAll (fileWrite demoDigest) [(True, demoCallEnv 0, demoFirst)] demoFiles = (demoFilesWritten, [demoFirst]) \<and>
   fileLoad demoDigest (demoCallEnv 1) (cp_ExecutionID demoFirst) demoFilesWritten = Inr demoFirst \<and>
   atLeast demoFirst demoFirst"
proof -
  have w: "writeAll (fileWrite demoDigest) [(True, demoCallEnv 0, demoFirst)] demoFiles = (demoFilesWritten, [demoFirst])"
    by (simp add: demoFiles_write)
  have l: "fileLoad demoDigest (demoCallEnv 1) (cp_ExecutionID demoFirst) demoFilesWritten = Inr demoFirst"
    by (rule files.load_after_write [OF demoFiles_good demoFiles_write demoFirst_facts(3) demoCallEnv_facts(4)])
  from file_progress_survives [OF demoFiles_good w _ l] w l show ?thesis by simp
qed

text \<open>
  C32. The lock of an execution excludes: after a successful \<^verbatim>\<open>LockExecution\<close>, whatever other processes lock,
  unlock and write, every further attempt on the same execution fails until this lock is released; an
  attempt that gets as far as the lock call without another error reports \<^verbatim>\<open>ErrExecutionBusy\<close>.
\<close>

theorem file_lock_excludes:
  assumes "lockRun digest (s0, []) (xs @ Locked i fd # ys) (s, rels)" and "Unlocked i fd \<notin> set ys"
  shows "(\<exists>e. snd (LockExecution digest c i s) = Inl e) \<and>
    (undisturbed c \<and> i \<noteq> [] \<longrightarrow>
       snd (LockExecution digest c i s) = Inl (Errorf [W (Sentinel ErrExecutionBusy), Lit '': '', Quoted i]))"
proof -
  have o: "fs_directory s = fs_directory s0" using lockRun_order [OF assms(1)] by (simp add: lockOrder_def)
  with lock_held [OF assms(1) refl assms(2)] have "fs_locks s (lockPath digest s i) = Some fd"
    by (simp add: filePath_def)
  then show ?thesis
    by (auto simp: LockExecution_def Let_def undisturbed_def checkStoreContext_def split: option.splits)
qed

theorem file_lock_excludes_witness:
  "\<exists>s rels. lockRun demoDigest (demoFiles, []) ([] @ Locked ''job'' 0 # []) (s, rels) \<and>
     (\<exists>e. snd (LockExecution demoDigest (demoCallEnv 1) ''job'' s) = Inl e)"
proof -
  obtain s rel where "LockExecution demoDigest (demoCallEnv 0) ''job'' demoFiles = (s, Inr (Some rel))"
    using demoCallEnv_facts(4) [of 0]
    by (simp add: LockExecution_def checkStoreContext_def undisturbed_def Let_def demoFiles_def)
  from lockRun.step [OF lockRun.start lockStep.locked [OF this]]
  have r: "lockRun demoDigest (demoFiles, []) ([] @ Locked ''job'' 0 # []) (s, [(''job'', 0, rel)])"
    by (simp add: demoFiles_def)
  from file_lock_excludes [OF r, of "demoCallEnv 1"] r show ?thesis by auto
qed

end
