(* ===== verification/Json_Stream.thy ===== *)
theory Json_Stream
  imports Go_Errors Json_Text
begin

text \<open>
  A \<^verbatim>\<open>json.Decoder\<close>, which reads the JSON values of a text one after the other. A value ends with its last
  character, whatever follows; white space before a value is skipped, and at the end of the text the
  decoder answers \<^verbatim>\<open>io.EOF\<close>. The errors it reports otherwise are not modelled: \<open>errAt\<close> gives the error for the
  text at which a value does not decode, and \<open>fault\<close> the error of the reader below, if it fails at the end.
\<close>

section \<open>One value\<close>

function scanValue :: "scan_state \<Rightarrow> string \<Rightarrow> (json \<times> string) option" where
  "scanValue st [] = None"
| "scanValue st (c # t) =
     (if isJSONSpace c then scanValue st t
      else case nextToken c t of
             None \<Rightarrow> None
           | Some (tok, rest) \<Rightarrow>
               (case scanStep st tok of
                  None \<Rightarrow> None
                | Some (EndTop j, _) \<Rightarrow> Some (j, rest)
                | Some st' \<Rightarrow> scanValue st' rest))"
  by pat_completeness auto
termination
  by (relation "measure (length \<circ> snd)") (auto dest!: nextToken_length)

lemma scanValue_length: "scanValue st s = Some (j, rest) \<Longrightarrow> length rest < length s"
proof (induction st s arbitrary: j rule: scanValue.induct)
  case (2 st c t)
  then show ?case by (fastforce split: if_splits option.splits prod.splits scan_mode.splits dest: nextToken_length)
qed simp

text \<open>The tokens of one value, read without white space, are that value.\<close>

lemma scanTokens_EndTop: "scanTokens (EndTop j, fr) ts = Some st \<Longrightarrow> ts = []"
  by (cases ts) simp_all

lemma scanValue_lexes:
  "lexes s ts rest \<Longrightarrow> ts \<noteq> [] \<Longrightarrow> scanTokens st ts = Some (EndTop j, fr) \<Longrightarrow> scanValue st s = Some (j, rest)"
proof (induction arbitrary: st rule: lexes.induct)
  case (token c t tok u ts rest)
  then obtain st' where st': "scanStep st tok = Some st'" "scanTokens st' ts = Some (EndTop j, fr)" by (auto split: option.splits)
  show ?case
  proof (cases "ts = []")
    case True
    with token.hyps(3) have "u = rest" by (auto elim: lexes.cases)
    with True st' token.hyps show ?thesis by simp
  next
    case False
    with st'(2) have "fst st' \<noteq> EndTop i" for i using scanTokens_EndTop [of i "snd st'" ts] by (cases st') auto
    with st' False token.IH [of st'] token.hyps show ?thesis by (cases st'; cases "fst st'") simp_all
  qed
qed simp

lemma scanValue_print:
  assumes "numbersRead j" and "nesting j \<le> maxNestingDepth" and "numberEnds rest"
  shows "scanValue (BeginValue, []) (printJSON j @ rest) = Some (coercedJSON j, rest)"
proof (rule scanValue_lexes)
  show "lexes (printJSON j @ rest) (tokensOf j) rest" using lexes_print(1) [OF assms(1,3) lexes.none] by simp
  show "tokensOf j \<noteq> []" by (cases j) simp_all
  show "scanTokens (BeginValue, []) (tokensOf j) = Some (EndTop (coercedJSON j), [])"
    using scan_tokens(1) [of j "[]" BeginValue "[]"] assms(2) by simp
qed

section \<open>All values\<close>

function decodeStream :: "(json \<Rightarrow> 'a option) \<Rightarrow> (string \<Rightarrow> goerr) \<Rightarrow> goerr option \<Rightarrow> string \<Rightarrow> (goerr + 'a) list" where
  "decodeStream rd errAt fault s =
     (case dropWhile isJSONSpace s of
        [] \<Rightarrow> (case fault of None \<Rightarrow> [] | Some e \<Rightarrow> [Inl e])
      | c # t \<Rightarrow>
          (case scanValue (BeginValue, []) (c # t) of
             None \<Rightarrow> [Inl (errAt (c # t))]
           | Some (j, rest) \<Rightarrow>
               (case rd j of None \<Rightarrow> Inl (errAt (c # t)) | Some x \<Rightarrow> Inr x) # decodeStream rd errAt fault rest))"
  by pat_completeness auto
termination
proof (relation "measure (\<lambda>(rd, errAt, fault, s). length s)", simp)
  fix rd :: "json \<Rightarrow> 'a option" and errAt :: "string \<Rightarrow> goerr" and fault :: "goerr option" and s c t v j rest
  assume "dropWhile isJSONSpace s = c # t" and "scanValue (BeginValue, []) (c # t) = Some v" and "(j, rest) = v"
  then have "length rest < length (c # t)" "length (c # t) \<le> length s"
    using scanValue_length [of "(BeginValue, [])" "c # t" j rest] length_dropWhile_le [of isJSONSpace s] by auto
  then show "((rd, errAt, fault, rest), rd, errAt, fault, s) \<in> measure (\<lambda>(rd, errAt, fault, s). length s)" by simp
qed

declare decodeStream.simps [simp del]

lemma decodeStream_end: "decodeStream rd errAt None [] = []"
  by (simp add: decodeStream.simps)

lemma decodeStream_newline: "decodeStream rd errAt fault (CHR 0x0A # s) = decodeStream rd errAt fault s"
  by (simp add: decodeStream.simps [of rd errAt fault "CHR 0x0A # s"] decodeStream.simps [of rd errAt fault s] isJSONSpace_def)

lemma decodeStream_print:
  assumes "numbersRead j" and "nesting j \<le> maxNestingDepth" and "rd (coercedJSON j) = Some x"
  shows "decodeStream rd errAt fault (printJSON j @ CHR 0x0A # rest) = Inr x # decodeStream rd errAt fault rest"
proof -
  have l: "lexes (printJSON j @ CHR 0x0A # rest) (tokensOf j) (CHR 0x0A # rest)"
    using lexes_print(1) [OF assms(1) _ lexes.none, of "CHR 0x0A # rest"] by simp
  have "tokensOf j \<noteq> []" by (cases j) simp_all
  with l obtain c t where ct: "printJSON j @ CHR 0x0A # rest = c # t" "\<not> isJSONSpace c" by (auto elim: lexes.cases)
  have "scanValue (BeginValue, []) (c # t) = Some (coercedJSON j, CHR 0x0A # rest)"
    using scanValue_print [OF assms(1,2), of "CHR 0x0A # rest"] by (simp add: ct(1))
  with ct assms(3) show ?thesis
    by (simp add: decodeStream.simps [of rd errAt fault "c # t"] decodeStream_newline)
qed

text \<open>A file of one document per line is read back document by document.\<close>

lemma decodeStream_lines:
  assumes "\<forall>x \<in> set xs. numbersRead (f x) \<and> nesting (f x) \<le> maxNestingDepth \<and> rd (coercedJSON (f x)) = Some (g x)"
  shows "decodeStream rd errAt None (concat (map (\<lambda>x. printJSON (f x) @ [CHR 0x0A]) xs)) = map (Inr \<circ> g) xs"
  using assms by (induction xs) (simp_all add: decodeStream_end decodeStream_print)

end
