(* ===== verification/Go_Time.thy ===== *)
theory Go_Time
  imports Json_Codec
begin

text \<open>
  Times as \<^verbatim>\<open>time.Time\<close> writes them into JSON and reads them back: RFC 3339 with up to nine digits of a second. A time
  is its distance from the Unix epoch in nanoseconds; the proleptic Gregorian calendar of package \<^verbatim>\<open>time\<close> is
  built here from the lengths of years and months.
\<close>

section \<open>The calendar\<close>

definition isLeap :: "nat \<Rightarrow> bool" where
  "isLeap y \<longleftrightarrow> 4 dvd y \<and> (\<not> 100 dvd y \<or> 400 dvd y)"

definition yearDays :: "nat \<Rightarrow> nat" where
  "yearDays y = (if isLeap y then 366 else 365)"

definition monthDays :: "nat \<Rightarrow> nat \<Rightarrow> nat" where
  "monthDays y m = (if m = 2 then if isLeap y then 29 else 28 else if m \<in> {4, 6, 9, 11} then 30 else 31)"

text \<open>Days from the first day of year 0 to the first day of a year, and from there to the first day of a month.\<close>

definition daysBeforeYear :: "nat \<Rightarrow> nat" where
  "daysBeforeYear y = 365 * y + (y + 3) div 4 + (y + 399) div 400 - (y + 99) div 100"

definition daysBeforeMonth :: "nat \<Rightarrow> nat \<Rightarrow> nat" where
  "daysBeforeMonth y m = sum_list (map (monthDays y) [1..<m])"

lemma next_div:
  fixes y k :: nat
  assumes "0 < k"
  shows "(y + k) div k = (y + (k - 1)) div k + (if k dvd y then 1 else 0)"
proof -
  have "(y + (k - 1)) div k = (y div k * k + (y mod k + (k - 1))) div k" by (metis add.assoc div_mult_mod_eq)
  also have "\<dots> = y div k + (y mod k + (k - 1)) div k" by (rule div_mult_self3) (use assms in simp)
  also have "(y mod k + (k - 1)) div k = (if k dvd y then 0 else 1)"
  proof (cases "k dvd y")
    case False
    then have e: "y mod k + (k - 1) = k + (y mod k - 1)" and l: "y mod k - 1 < k"
      using assms mod_less_divisor [OF assms, of y] by (auto simp: dvd_eq_mod_eq_0)
    have "(k + (y mod k - 1)) div k = (y mod k - 1) div k + 1" by (rule div_add_self1) (use assms in simp)
    with l False show ?thesis unfolding e by simp
  qed (use assms in simp)
  finally have "(y + (k - 1)) div k + (if k dvd y then 1 else 0) = y div k + 1" by simp
  moreover have "(y + k) div k = y div k + 1" by (rule div_add_self2) (use assms in simp)
  ultimately show ?thesis by simp
qed

lemma daysBeforeYear_Suc: "daysBeforeYear (Suc y) = daysBeforeYear y + yearDays y"
proof -
  have d: "100 dvd y \<Longrightarrow> 4 dvd y" "400 dvd y \<Longrightarrow> 100 dvd y"
    by (rule dvd_trans [of _ 100], simp_all, rule dvd_trans [of _ 400], simp_all)
  define a b c where "a = (y + 3) div 4" and "b = (y + 99) div 100" and "c = (y + 399) div 400"
  define p q r :: nat where "p = (if 4 dvd y then 1 else 0)" and "q = (if 100 dvd y then 1 else 0)" and "r = (if 400 dvd y then 1 else 0)"
  have "(Suc y + 3) div 4 = a + p" "(Suc y + 99) div 100 = b + q" "(Suc y + 399) div 400 = c + r"
    using next_div [of 4 y] next_div [of 100 y] next_div [of 400 y] by (simp_all add: a_def b_def c_def p_def q_def r_def)
  then have "daysBeforeYear (Suc y) = 365 * Suc y + (a + p) + (c + r) - (b + q)" by (simp only: daysBeforeYear_def)
  moreover have "b \<le> 365 * y" unfolding b_def by linarith
  moreover have "daysBeforeYear y = 365 * y + a + c - b" by (simp add: daysBeforeYear_def a_def b_def c_def)
  moreover have "yearDays y + q = 365 + p + r" "q \<le> 1"
    using d by (auto simp: yearDays_def isLeap_def p_def q_def r_def)
  ultimately show ?thesis by (simp add: algebra_simps)
qed

lemma daysBeforeYear_0: "daysBeforeYear 0 = 0"
  by (simp add: daysBeforeYear_def)

lemma daysBeforeYear_mono: "x \<le> y \<Longrightarrow> daysBeforeYear x \<le> daysBeforeYear y"
  by (rule lift_Suc_mono_le [where f = daysBeforeYear]) (simp_all add: daysBeforeYear_Suc)

lemma daysBeforeYear_ge: "y \<le> daysBeforeYear y"
  by (induction y) (simp_all add: daysBeforeYear_Suc yearDays_def)

lemma daysBeforeMonth_Suc: "1 \<le> m \<Longrightarrow> daysBeforeMonth y (Suc m) = daysBeforeMonth y m + monthDays y m"
  by (simp add: daysBeforeMonth_def)

lemma daysBeforeMonth_year: "daysBeforeMonth y 13 = yearDays y"
  by (simp add: daysBeforeMonth_def monthDays_def yearDays_def upt_rec)

text \<open>The year and the month of a day.\<close>

function yearFrom :: "nat \<Rightarrow> nat \<Rightarrow> nat" where
  "yearFrom y n = (if daysBeforeYear (Suc y) \<le> n then yearFrom (Suc y) n else y)"
  by pat_completeness auto
termination
proof (relation "measure (\<lambda>(y, n). n - y)")
  fix y n :: nat
  assume "daysBeforeYear (Suc y) \<le> n"
  with daysBeforeYear_ge [of "Suc y"] show "((Suc y, n), y, n) \<in> measure (\<lambda>(y, n). n - y)" by simp
qed simp

declare yearFrom.simps [simp del]

definition yearOfDay :: "nat \<Rightarrow> nat" where
  "yearOfDay n = yearFrom (n div 366) n"

fun monthFrom :: "nat \<Rightarrow> nat list \<Rightarrow> nat \<Rightarrow> nat" where
  "monthFrom y [] n = 12"
| "monthFrom y (m # ms) n = (if n < daysBeforeMonth y (Suc m) then m else monthFrom y ms n)"

definition monthOfDay :: "nat \<Rightarrow> nat \<Rightarrow> nat" where
  "monthOfDay y n = monthFrom y [1..<12] n"

lemma yearFrom_bounds: "daysBeforeYear y \<le> n \<Longrightarrow> daysBeforeYear (yearFrom y n) \<le> n \<and> n < daysBeforeYear (Suc (yearFrom y n))"
proof (induction y n rule: yearFrom.induct)
  case (1 y n)
  then show ?case by (cases "daysBeforeYear (Suc y) \<le> n") (simp_all add: yearFrom.simps [of y n])
qed

lemma daysBeforeYear_le: "daysBeforeYear y \<le> 366 * y"
  by (induction y) (simp_all add: daysBeforeYear_Suc daysBeforeYear_0 yearDays_def)

lemma yearOfDay_bounds: "daysBeforeYear (yearOfDay n) \<le> n" "n < daysBeforeYear (yearOfDay n) + yearDays (yearOfDay n)"
proof -
  have "daysBeforeYear (n div 366) \<le> n" using daysBeforeYear_le [of "n div 366"] by (meson div_times_less_eq_dividend order_trans mult.commute times_div_less_eq_dividend)
  from yearFrom_bounds [OF this] show "daysBeforeYear (yearOfDay n) \<le> n" "n < daysBeforeYear (yearOfDay n) + yearDays (yearOfDay n)"
    by (simp_all add: yearOfDay_def daysBeforeYear_Suc)
qed

lemma monthFrom_bounds:
  "1 \<le> k \<Longrightarrow> k \<le> 12 \<Longrightarrow> daysBeforeMonth y k \<le> n \<Longrightarrow> n < yearDays y \<Longrightarrow>
     monthFrom y [k..<12] n \<in> {k..12} \<and> daysBeforeMonth y (monthFrom y [k..<12] n) \<le> n \<and>
     n < daysBeforeMonth y (Suc (monthFrom y [k..<12] n))"
proof (induction "12 - k" arbitrary: k)
  case 0
  with daysBeforeMonth_year [of y] show ?case by auto
next
  case (Suc d)
  then have u: "[k..<12] = k # [Suc k..<12]" by (simp add: upt_rec)
  show ?case
  proof (cases "n < daysBeforeMonth y (Suc k)")
    case False
    have "d = 12 - Suc k" "Suc k \<le> 12" using Suc.hyps(2) by linarith+
    with Suc.hyps(1) [of "Suc k"] Suc.prems False have "monthFrom y [Suc k..<12] n \<in> {Suc k..12}"
        "daysBeforeMonth y (monthFrom y [Suc k..<12] n) \<le> n" "n < daysBeforeMonth y (Suc (monthFrom y [Suc k..<12] n))"
      by simp_all
    with False u show ?thesis by simp
  qed (use Suc u in auto)
qed

lemma monthOfDay_bounds:
  assumes "n < yearDays y"
  shows "1 \<le> monthOfDay y n" "monthOfDay y n \<le> 12" "daysBeforeMonth y (monthOfDay y n) \<le> n"
    "n < daysBeforeMonth y (monthOfDay y n) + monthDays y (monthOfDay y n)"
proof -
  have "daysBeforeMonth y 1 = 0" by (simp add: daysBeforeMonth_def)
  with monthFrom_bounds [of 1 y n] assms have m: "monthOfDay y n \<in> {1..12}" "daysBeforeMonth y (monthOfDay y n) \<le> n"
      "n < daysBeforeMonth y (Suc (monthOfDay y n))"
    by (simp_all add: monthOfDay_def)
  then show "1 \<le> monthOfDay y n" "monthOfDay y n \<le> 12" "daysBeforeMonth y (monthOfDay y n) \<le> n"
      "n < daysBeforeMonth y (monthOfDay y n) + monthDays y (monthOfDay y n)"
    using daysBeforeMonth_Suc [of "monthOfDay y n" y] by simp_all
qed

section \<open>Writing\<close>

text \<open>The start of year 0 and the end of year 9999; \<^verbatim>\<open>MarshalJSON\<close> accepts what is between them.\<close>

definition nanosPerDay :: int where
  "nanosPerDay = 86400000000000"

definition encodableTime :: "int \<Rightarrow> bool" where
  "encodableTime t \<longleftrightarrow> - 62167219200000000000 \<le> t \<and> t < 253402300800000000000"

text \<open>The zero \<^verbatim>\<open>time.Time\<close> is the start of year 1.\<close>

definition zeroTime :: int where
  "zeroTime = - 62135596800000000000"

text \<open>The day a time falls on, counted from the first day of year 0, and the nanoseconds of that day.\<close>

definition epochDay :: nat where
  "epochDay = 719528"

definition dayOf :: "int \<Rightarrow> nat" where
  "dayOf t = nat (t div nanosPerDay + int epochDay)"

definition nanosOf :: "int \<Rightarrow> nat" where
  "nanosOf t = nat (t mod nanosPerDay)"

definition timeAt :: "nat \<Rightarrow> nat \<Rightarrow> int" where
  "timeAt day nanos = (int day - int epochDay) * nanosPerDay + int nanos"

definition formatFraction :: "nat \<Rightarrow> string" where
  "formatFraction nanos = (if nanos = 0 then [] else CHR ''.'' # trimZeros (digitsN 9 nanos))"

definition formatTime :: "int \<Rightarrow> string" where
  "formatTime t =
     (let day = dayOf t; nanos = nanosOf t; secs = nanos div 1000000000;
          year = yearOfDay day; rest = day - daysBeforeYear year; month = monthOfDay year rest
      in digitsN 4 year @ ''-'' @ digitsN 2 month @ ''-'' @ digitsN 2 (rest - daysBeforeMonth year month + 1) @ ''T'' @
         digitsN 2 (secs div 3600) @ '':'' @ digitsN 2 (secs div 60 mod 60) @ '':'' @ digitsN 2 (secs mod 60) @
         formatFraction (nanos mod 1000000000) @ ''Z'')"

section \<open>Reading\<close>

text \<open>
  \<^verbatim>\<open>UnmarshalJSON\<close> accepts what \<^verbatim>\<open>time.Parse\<close> accepts for RFC 3339: also an hour of one digit, a comma before the
  fraction, and offsets up to 24 hours and 60 minutes.
\<close>

definition takeDigits :: "nat \<Rightarrow> string \<Rightarrow> (nat \<times> string) option" where
  "takeDigits n s = (if n \<le> length s \<and> list_all isDigit (take n s) then Some (digitsValue (take n s), drop n s) else None)"

definition takeMark :: "char \<Rightarrow> string \<Rightarrow> string option" where
  "takeMark c s = (case s of [] \<Rightarrow> None | x # t \<Rightarrow> if x = c then Some t else None)"

definition takeHour :: "string \<Rightarrow> (nat \<times> string) option" where
  "takeHour s = (case takeDigits 2 s of Some r \<Rightarrow> Some r | None \<Rightarrow> takeDigits 1 s)"

definition readFraction :: "string \<Rightarrow> nat \<times> string" where
  "readFraction s =
     (case s of
        c # t \<Rightarrow>
          if (c = CHR ''.'' \<or> c = CHR '','') \<and> takeWhile isDigit t \<noteq> []
          then (digitsValue (take 9 (takeWhile isDigit t @ replicate 9 (CHR ''0''))), dropWhile isDigit t) else (0, s)
      | [] \<Rightarrow> (0, s))"

text \<open>The offset in minutes.\<close>

definition readZone :: "string \<Rightarrow> int option" where
  "readZone s =
     (if s = ''Z'' then Some 0
      else case s of
        [] \<Rightarrow> None
      | sign # t \<Rightarrow>
          Option.bind (takeDigits 2 t) (\<lambda>(hh, t). Option.bind (takeMark (CHR '':'') t) (\<lambda>t. Option.bind (takeDigits 2 t) (\<lambda>(mm, t).
            if t \<noteq> [] \<or> 24 < hh \<or> 60 < mm then None
            else if sign = CHR ''+'' then Some (int (hh * 60 + mm))
            else if sign = CHR ''-'' then Some (- int (hh * 60 + mm)) else None))))"

definition parseTime :: "string \<Rightarrow> int option" where
  "parseTime s =
     Option.bind (takeDigits 4 s) (\<lambda>(year, s). Option.bind (takeMark (CHR ''-'') s) (\<lambda>s.
     Option.bind (takeDigits 2 s) (\<lambda>(month, s). Option.bind (takeMark (CHR ''-'') s) (\<lambda>s.
     Option.bind (takeDigits 2 s) (\<lambda>(day, s). Option.bind (takeMark (CHR ''T'') s) (\<lambda>s.
     Option.bind (takeHour s) (\<lambda>(hour, s). Option.bind (takeMark (CHR '':'') s) (\<lambda>s.
     Option.bind (takeDigits 2 s) (\<lambda>(minute, s). Option.bind (takeMark (CHR '':'') s) (\<lambda>s.
     Option.bind (takeDigits 2 s) (\<lambda>(sec, s).
     let (nanos, s) = readFraction s in
     Option.bind (readZone s) (\<lambda>zone.
       if month < 1 \<or> 12 < month \<or> day < 1 \<or> monthDays year month < day \<or> 23 < hour \<or> 59 < minute \<or> 59 < sec then None
       else Some (timeAt (daysBeforeYear year + daysBeforeMonth year month + (day - 1))
                    ((hour * 3600 + minute * 60 + sec) * 1000000000 + nanos) - zone * 60000000000))))))))))))) "

section \<open>Round trip\<close>

lemma digit_char: "k < 10 \<Longrightarrow> isDigit (''0123456789'' ! k) \<and> byte (''0123456789'' ! k) - 0x30 = k"
proof -
  assume "k < 10"
  then have "k \<in> {0, 1, 2, 3, 4, 5, 6, 7, 8, 9}" unfolding insert_iff empty_iff by presburger
  then show ?thesis by (elim insertE) (simp_all add: isDigit_def)
qed

lemma digitsN_facts:
  "length (digitsN w n) = w" "list_all isDigit (digitsN w n)" "n < 10 ^ w \<Longrightarrow> digitsValue (digitsN w n) = n"
proof -
  show "length (digitsN w n) = w" by (induction w arbitrary: n) simp_all
  show "list_all isDigit (digitsN w n)" by (induction w arbitrary: n) (simp_all add: digit_char)
  show "n < 10 ^ w \<Longrightarrow> digitsValue (digitsN w n) = n"
  proof (induction w arbitrary: n)
    case (Suc w)
    then have "n div 10 < 10 ^ w" by (simp add: less_mult_imp_div_less mult.commute)
    from Suc.IH [OF this] digit_char [of "n mod 10"] show ?case by (simp add: digitsValue_def)
  qed (simp add: digitsValue_def)
qed

lemma takeDigits_fixed: "n < 10 ^ w \<Longrightarrow> takeDigits w (digitsN w n @ s) = Some (n, s)"
  by (simp add: takeDigits_def digitsN_facts)

lemma trimZeros_pad: "\<exists>k. s = trimZeros s @ replicate k (CHR ''0'')"
proof -
  have "takeWhile (\<lambda>c. c = CHR ''0'') (rev s) = replicate (length (takeWhile (\<lambda>c. c = CHR ''0'') (rev s))) (CHR ''0'')"
    by (rule replicate_length_same [symmetric]) (auto dest: set_takeWhileD)
  then have "s = trimZeros s @ replicate (length (takeWhile (\<lambda>c. c = CHR ''0'') (rev s))) (CHR ''0'')"
    unfolding trimZeros_def by (metis rev_append rev_replicate rev_rev_ident takeWhile_dropWhile_id)
  then show ?thesis by blast
qed

lemma digitsValue_zeros: "digitsValue (replicate k (CHR ''0'')) = 0"
  by (induction k) (simp_all add: digitsValue_def)

lemma readFraction_format:
  assumes "n < 1000000000"
  shows "readFraction (formatFraction n @ ''Z'') = (n, ''Z'')"
proof (cases "n = 0")
  case True
  then show ?thesis by (simp add: formatFraction_def readFraction_def)
next
  case False
  let ?s = "digitsN 9 n"
  obtain k where k: "?s = trimZeros ?s @ replicate k (CHR ''0'')" using trimZeros_pad by blast
  have n: "digitsValue ?s = n" using assms digitsN_facts(3) [of n 9] by simp
  have "trimZeros ?s \<noteq> []" using k n False digitsValue_zeros [of k] by force
  moreover have d: "list_all isDigit (trimZeros ?s)" using k digitsN_facts(2) [of 9 n] by (metis list_all_append)
  have z: "\<not> isDigit (CHR ''Z'')" by (simp add: isDigit_def)
  have "takeWhile isDigit (trimZeros ?s @ ''Z'') = trimZeros ?s" "dropWhile isDigit (trimZeros ?s @ ''Z'') = ''Z''"
    using d z by (simp_all add: takeWhile_append2 dropWhile_append2 list_all_iff)
  moreover have "take 9 (trimZeros ?s @ replicate 9 (CHR ''0'')) = ?s"
  proof -
    have l: "length (trimZeros ?s) + k = 9" using k digitsN_facts(1) [of 9 n] by (metis length_append length_replicate)
    then have "take 9 (trimZeros ?s @ replicate 9 (CHR ''0'')) = trimZeros ?s @ replicate k (CHR ''0'')" by (auto simp: take_replicate min_def)
    with k show ?thesis by simp
  qed
  ultimately show ?thesis using n False by (simp add: formatFraction_def readFraction_def)
qed

lemma timeAt_parts:
  assumes "encodableTime t"
  shows "timeAt (dayOf t) (nanosOf t) = t" "dayOf t < daysBeforeYear 10000" "nanosOf t < 86400000000000"
proof -
  have e: "- (int epochDay * nanosPerDay) \<le> t" "t < 2932897 * nanosPerDay"
    using assms by (simp_all add: encodableTime_def epochDay_def nanosPerDay_def)
  then have "- int epochDay \<le> t div nanosPerDay" "t div nanosPerDay < 2932897"
    by (simp_all add: nanosPerDay_def epochDay_def)
  then show "timeAt (dayOf t) (nanosOf t) = t" "dayOf t < daysBeforeYear 10000"
    using div_mult_mod_eq [of t nanosPerDay]
    by (simp_all add: timeAt_def dayOf_def nanosOf_def nanosPerDay_def epochDay_def daysBeforeYear_def)
  show "nanosOf t < 86400000000000" by (simp add: nanosOf_def nanosPerDay_def)
qed

text \<open>What is written for a time is read back as this time, to the nanosecond.\<close>

lemma parse_formatTime:
  assumes "encodableTime t"
  shows "parseTime (formatTime t) = Some t"
proof -
  define day nanos where "day = dayOf t" and "nanos = nanosOf t"
  define secs year where "secs = nanos div 1000000000" and "year = yearOfDay day"
  define rest where "rest = day - daysBeforeYear year"
  define month where "month = monthOfDay year rest"
  note t = timeAt_parts [OF assms, folded day_def nanos_def]
  have y: "daysBeforeYear year \<le> day" "rest < yearDays year"
    using yearOfDay_bounds [of day] by (simp_all add: year_def rest_def)
  have "year < 10000"
  proof (rule ccontr)
    assume "\<not> year < 10000"
    then have "daysBeforeYear 10000 \<le> day" using daysBeforeYear_mono [of 10000 year] y(1) by simp
    with t(2) show False by simp
  qed
  note m = monthOfDay_bounds [OF y(2), folded month_def]
  have md: "monthDays year month \<le> 31" by (simp add: monthDays_def)
  define dom where "dom = rest - daysBeforeMonth year month + 1"
  have d: "1 \<le> dom" "dom \<le> monthDays year month" "dom < 100" using m(3,4) md by (simp_all add: dom_def)
  have s: "secs < 86400" using t(3) by (simp add: secs_def less_mult_imp_div_less)
  have f: "readFraction (formatFraction (nanos mod 1000000000) @ ''Z'') = (nanos mod 1000000000, ''Z'')"
    by (rule readFraction_format) simp
  have "secs div 3600 = secs div 60 div 60" by (simp add: div_mult2_eq [symmetric])
  then have sum: "(secs div 3600) * 3600 + (secs div 60 mod 60) * 60 + secs mod 60 = secs"
    using div_mult_mod_eq [of "secs div 60" 60] div_mult_mod_eq [of secs 60] by linarith
  have "formatTime t = digitsN 4 year @ ''-'' @ digitsN 2 month @ ''-'' @ digitsN 2 dom @ ''T'' @
      digitsN 2 (secs div 3600) @ '':'' @ digitsN 2 (secs div 60 mod 60) @ '':'' @ digitsN 2 (secs mod 60) @
      formatFraction (nanos mod 1000000000) @ ''Z''"
    by (simp add: formatTime_def Let_def day_def nanos_def secs_def year_def rest_def month_def dom_def)
  moreover have "daysBeforeYear year + daysBeforeMonth year month + (dom - 1) = day" using y(1) m(3) by (simp add: dom_def rest_def)
  moreover have "secs * 1000000000 + nanos mod 1000000000 = nanos" by (simp add: secs_def)
  moreover have "secs div 3600 \<le> 23" using s by (simp add: less_mult_imp_div_less less_Suc_eq_le [symmetric])
  moreover have "secs div 60 mod 60 \<le> 59" "secs mod 60 \<le> 59" by (simp_all add: less_Suc_eq_le [symmetric])
  ultimately show ?thesis
    using \<open>year < 10000\<close> m(1,2) d f sum t(1)
    by (simp add: parseTime_def takeDigits_fixed takeHour_def takeMark_def readZone_def)
qed

lemma formatTime_ascii: "list_all (\<lambda>c. byte c < 0x80) (formatTime t)"
proof -
  have d: "list_all (\<lambda>c. byte c < 0x80) (digitsN w n)" for w n
    using digitsN_facts(2) [of w n] by (auto simp: list_all_iff isDigit_def)
  have "list_all (\<lambda>c. byte c < 0x80) (trimZeros (digitsN w n))" for w n
    using d [of w n] by (auto simp: list_all_iff trimZeros_def dest: set_dropWhileD)
  with d show ?thesis by (simp add: formatTime_def formatFraction_def Let_def)
qed

end
