(* ===== verification/Traces.thy ===== *)
theory Traces
  imports Observers Json_Stream Go_Time "HOL-Library.Sublist"
begin

text \<open>
  Execution traces: the recorder (\<^verbatim>\<open>trace.go\<close>), the reader and inspector (\<^verbatim>\<open>trace_reader.go\<close>) and the
  comparison of two traces (\<^verbatim>\<open>trace_diff.go\<close>).

  A trace file is a text: one JSON object per line. The strings of a record are forced into UTF-8 by the
  encoder; times are nanoseconds of the Unix epoch, and the encoder rejects years outside 0 to 9999.
\<close>

section \<open>Records\<close>

definition TraceSchemaVersion :: int where
  "TraceSchemaVersion = 1"

record TraceRecord =
  tt_SchemaVersion :: int
  tt_Sequence :: uint64
  tt_RecordedAt :: int
  tt_Type :: EventType
  tt_ExecutionID :: string
  tt_Status :: Status
  tt_ModelAttempt :: int
  tt_ToolCallID :: string
  tt_ToolName :: string
  tt_DurationNanos :: int
  tt_ErrorCode :: string
  tt_HTTPStatus :: int

fun eventTypeText :: "EventType \<Rightarrow> string" where
  "eventTypeText EventExecutionStarted = ''execution_started''"
| "eventTypeText EventModelStarted = ''model_started''"
| "eventTypeText EventModelCompleted = ''model_completed''"
| "eventTypeText EventToolStarted = ''tool_started''"
| "eventTypeText EventToolCompleted = ''tool_completed''"
| "eventTypeText EventExecutionCompleted = ''execution_completed''"
| "eventTypeText EventExecutionFailed = ''execution_failed''"
| "eventTypeText EventExecutionCancelled = ''execution_cancelled''"
| "eventTypeText (EventOther s) = s"

definition eventTypeOf :: "string \<Rightarrow> EventType" where
  "eventTypeOf s =
     (if s = ''execution_started'' then EventExecutionStarted else if s = ''model_started'' then EventModelStarted
      else if s = ''model_completed'' then EventModelCompleted else if s = ''tool_started'' then EventToolStarted
      else if s = ''tool_completed'' then EventToolCompleted else if s = ''execution_completed'' then EventExecutionCompleted
      else if s = ''execution_failed'' then EventExecutionFailed else if s = ''execution_cancelled'' then EventExecutionCancelled
      else EventOther s)"

text \<open>\<^verbatim>\<open>json.Marshal(record)\<close>, an error outside the years that \<^verbatim>\<open>MarshalJSON\<close> takes.\<close>

definition marshalRecord :: "TraceRecord \<Rightarrow> json" where
  "marshalRecord record = JObj
     ([(''schema_version'', JNum (tt_SchemaVersion record)), (''sequence'', JNum (uint (tt_Sequence record))),
       (''recorded_at'', jsonString (formatTime (tt_RecordedAt record))), (''type'', jsonString (eventTypeText (tt_Type record)))] @
      omitEmpty (tt_ExecutionID record = []) ''execution_id'' (jsonString (tt_ExecutionID record)) @
      omitEmpty (statusText (tt_Status record) = []) ''status'' (jsonString (statusText (tt_Status record))) @
      omitEmpty (tt_ModelAttempt record = 0) ''model_attempt'' (JNum (tt_ModelAttempt record)) @
      omitEmpty (tt_ToolCallID record = []) ''tool_call_id'' (jsonString (tt_ToolCallID record)) @
      omitEmpty (tt_ToolName record = []) ''tool_name'' (jsonString (tt_ToolName record)) @
      omitEmpty (tt_DurationNanos record = 0) ''duration_ns'' (JNum (tt_DurationNanos record)) @
      omitEmpty (tt_ErrorCode record = []) ''error_code'' (jsonString (tt_ErrorCode record)) @
      omitEmpty (tt_HTTPStatus record = 0) ''http_status'' (JNum (tt_HTTPStatus record)))"

definition yearError :: goerr where
  "yearError = Opaque ''json: error calling MarshalJSON for type time.Time: Time.MarshalJSON: year outside of range [0,9999]''"

definition encodeRecord :: "TraceRecord \<Rightarrow> goerr + string" where
  "encodeRecord record =
     (if encodableTime (tt_RecordedAt record) then Inr (printJSON (marshalRecord record)) else Inl yearError)"

text \<open>
  Decoding into a \<^verbatim>\<open>TraceRecord\<close>. An escape inside the text of a time, which no encoder writes, is read here as the
  character it stands for.
\<close>

definition readTime :: "int reader" where
  "readTime j old = (case j of JNull \<Rightarrow> Some old | JStr s \<Rightarrow> parseTime s | _ \<Rightarrow> None)"

definition readEventType :: "EventType reader" where
  "readEventType j old = map_option eventTypeOf (readString j (eventTypeText old))"

definition traceFields :: "(string \<times> TraceRecord reader) list" where
  "traceFields =
     [(''schema_version'', jsonField tt_SchemaVersion (\<lambda>v x. x\<lparr>tt_SchemaVersion := v\<rparr>) (readInt fitsInt64)),
      (''sequence'', jsonField tt_Sequence (\<lambda>v x. x\<lparr>tt_Sequence := v\<rparr>) readUint64),
      (''recorded_at'', jsonField tt_RecordedAt (\<lambda>v x. x\<lparr>tt_RecordedAt := v\<rparr>) readTime),
      (''type'', jsonField tt_Type (\<lambda>v x. x\<lparr>tt_Type := v\<rparr>) readEventType),
      (''execution_id'', jsonField tt_ExecutionID (\<lambda>v x. x\<lparr>tt_ExecutionID := v\<rparr>) readString),
      (''status'', jsonField tt_Status (\<lambda>v x. x\<lparr>tt_Status := v\<rparr>) readStatus),
      (''model_attempt'', jsonField tt_ModelAttempt (\<lambda>v x. x\<lparr>tt_ModelAttempt := v\<rparr>) (readInt fitsInt64)),
      (''tool_call_id'', jsonField tt_ToolCallID (\<lambda>v x. x\<lparr>tt_ToolCallID := v\<rparr>) readString),
      (''tool_name'', jsonField tt_ToolName (\<lambda>v x. x\<lparr>tt_ToolName := v\<rparr>) readString),
      (''duration_ns'', jsonField tt_DurationNanos (\<lambda>v x. x\<lparr>tt_DurationNanos := v\<rparr>) (readInt fitsInt64)),
      (''error_code'', jsonField tt_ErrorCode (\<lambda>v x. x\<lparr>tt_ErrorCode := v\<rparr>) readString),
      (''http_status'', jsonField tt_HTTPStatus (\<lambda>v x. x\<lparr>tt_HTTPStatus := v\<rparr>) (readInt fitsInt64))]"

definition readTraceRecord :: "TraceRecord reader" where
  "readTraceRecord = readStruct traceFields"

definition zeroTraceRecord :: TraceRecord where
  "zeroTraceRecord =
     \<lparr>tt_SchemaVersion = 0, tt_Sequence = 0, tt_RecordedAt = zeroTime, tt_Type = EventOther [], tt_ExecutionID = [],
      tt_Status = StatusOther [], tt_ModelAttempt = 0, tt_ToolCallID = [], tt_ToolName = [], tt_DurationNanos = 0,
      tt_ErrorCode = [], tt_HTTPStatus = 0\<rparr>"

text \<open>A record as a decoder reads it back.\<close>

definition readBack :: "TraceRecord \<Rightarrow> TraceRecord" where
  "readBack record = record
     \<lparr>tt_Type := eventTypeOf (coerceUTF8 (eventTypeText (tt_Type record))), tt_ExecutionID := coerceUTF8 (tt_ExecutionID record),
      tt_Status := statusOf (coerceUTF8 (statusText (tt_Status record))), tt_ToolCallID := coerceUTF8 (tt_ToolCallID record),
      tt_ToolName := coerceUTF8 (tt_ToolName record), tt_ErrorCode := coerceUTF8 (tt_ErrorCode record)\<rparr>"

section \<open>Records as text\<close>

text \<open>The numbers of a record are those of Go's \<^verbatim>\<open>int\<close> and \<^verbatim>\<open>int64\<close>.\<close>

definition goRecord :: "TraceRecord \<Rightarrow> bool" where
  "goRecord record \<longleftrightarrow> encodableTime (tt_RecordedAt record) \<and> fitsInt64 (tt_SchemaVersion record) \<and>
     fitsInt64 (tt_ModelAttempt record) \<and> fitsInt64 (tt_DurationNanos record) \<and> fitsInt64 (tt_HTTPStatus record)"

lemma readMembers_put:
  assumes "map_of fds name = Some F" and "\<not> isEmpty \<Longrightarrow> F j x = Some y" and "isEmpty \<Longrightarrow> y = x"
  shows "readMembers fds (omitEmpty isEmpty name j @ members) x = readMembers fds members y"
  using assms by (cases isEmpty) (simp_all add: findField_def)

lemma readTime_format: "encodableTime t \<Longrightarrow> readTime (jsonString (formatTime t)) old = Some t"
  by (simp add: readTime_def coerceUTF8_valid [OF ascii_valid [OF formatTime_ascii]] parse_formatTime)

lemmas trace_readers = traceFields_def jsonField_def readTime_format readEventType_def readStatus_def readString_def

lemma record_optional_members:
  assumes "goRecord rc" and "x = rc\<lparr>tt_Type := ty, tt_ExecutionID := [], tt_Status := StatusOther [], tt_ModelAttempt := 0, tt_ToolCallID := [],
      tt_ToolName := [], tt_DurationNanos := 0, tt_ErrorCode := [], tt_HTTPStatus := 0\<rparr>"
  shows "readMembers traceFields
     (omitEmpty (tt_ExecutionID rc = []) ''execution_id'' (jsonString (tt_ExecutionID rc)) @
      omitEmpty (statusText (tt_Status rc) = []) ''status'' (jsonString (statusText (tt_Status rc))) @
      omitEmpty (tt_ModelAttempt rc = 0) ''model_attempt'' (JNum (tt_ModelAttempt rc)) @
      omitEmpty (tt_ToolCallID rc = []) ''tool_call_id'' (jsonString (tt_ToolCallID rc)) @
      omitEmpty (tt_ToolName rc = []) ''tool_name'' (jsonString (tt_ToolName rc)) @
      omitEmpty (tt_DurationNanos rc = 0) ''duration_ns'' (JNum (tt_DurationNanos rc)) @
      omitEmpty (tt_ErrorCode rc = []) ''error_code'' (jsonString (tt_ErrorCode rc)) @
      omitEmpty (tt_HTTPStatus rc = 0) ''http_status'' (JNum (tt_HTTPStatus rc)) @ []) x =
    Some ((readBack rc)\<lparr>tt_Type := ty\<rparr>)"
proof -
  let ?a = "x\<lparr>tt_ExecutionID := coerceUTF8 (tt_ExecutionID rc)\<rparr>"
  let ?b = "?a\<lparr>tt_Status := statusOf (coerceUTF8 (statusText (tt_Status rc)))\<rparr>"
  let ?c = "?b\<lparr>tt_ModelAttempt := tt_ModelAttempt rc\<rparr>"
  let ?d = "?c\<lparr>tt_ToolCallID := coerceUTF8 (tt_ToolCallID rc)\<rparr>"
  let ?e = "?d\<lparr>tt_ToolName := coerceUTF8 (tt_ToolName rc)\<rparr>"
  let ?f = "?e\<lparr>tt_DurationNanos := tt_DurationNanos rc\<rparr>"
  let ?g = "?f\<lparr>tt_ErrorCode := coerceUTF8 (tt_ErrorCode rc)\<rparr>"
  let ?h = "?g\<lparr>tt_HTTPStatus := tt_HTTPStatus rc\<rparr>"
  have n: "fitsInt64 (tt_ModelAttempt rc)" "fitsInt64 (tt_DurationNanos rc)" "fitsInt64 (tt_HTTPStatus rc)"
    using assms(1) by (simp_all add: goRecord_def)
  have step:
    "readMembers traceFields (omitEmpty (tt_ExecutionID rc = []) ''execution_id'' (jsonString (tt_ExecutionID rc)) @ ms) x = readMembers traceFields ms ?a"
    "readMembers traceFields (omitEmpty (statusText (tt_Status rc) = []) ''status'' (jsonString (statusText (tt_Status rc))) @ ms) ?a = readMembers traceFields ms ?b"
    "readMembers traceFields (omitEmpty (tt_ModelAttempt rc = 0) ''model_attempt'' (JNum (tt_ModelAttempt rc)) @ ms) ?b = readMembers traceFields ms ?c"
    "readMembers traceFields (omitEmpty (tt_ToolCallID rc = []) ''tool_call_id'' (jsonString (tt_ToolCallID rc)) @ ms) ?c = readMembers traceFields ms ?d"
    "readMembers traceFields (omitEmpty (tt_ToolName rc = []) ''tool_name'' (jsonString (tt_ToolName rc)) @ ms) ?d = readMembers traceFields ms ?e"
    "readMembers traceFields (omitEmpty (tt_DurationNanos rc = 0) ''duration_ns'' (JNum (tt_DurationNanos rc)) @ ms) ?e = readMembers traceFields ms ?f"
    "readMembers traceFields (omitEmpty (tt_ErrorCode rc = []) ''error_code'' (jsonString (tt_ErrorCode rc)) @ ms) ?f = readMembers traceFields ms ?g"
    "readMembers traceFields (omitEmpty (tt_HTTPStatus rc = 0) ''http_status'' (JNum (tt_HTTPStatus rc)) @ ms) ?g = readMembers traceFields ms ?h" for ms
    by (rule readMembers_put, simp add: traceFields_def, simp add: trace_readers n, simp add: assms(2) statusOf_def)+
  have "?h = (readBack rc)\<lparr>tt_Type := ty\<rparr>" by (simp add: assms(2) readBack_def)
  then show ?thesis by (simp only: step readMembers.simps(1))
qed

lemma readTraceRecord_marshal:
  assumes "goRecord rc"
  shows "readTraceRecord (coercedJSON (marshalRecord rc)) zeroTraceRecord = Some (readBack rc)"
proof -
  have c: "coercedJSON (marshalRecord rc) = marshalRecord rc"
    by (simp add: marshalRecord_def coerceUTF8_valid validString_ASCII)
  let ?ty = "eventTypeOf (coerceUTF8 (eventTypeText (tt_Type rc)))"
  let ?x = "rc\<lparr>tt_Type := ?ty, tt_ExecutionID := [], tt_Status := StatusOther [], tt_ModelAttempt := 0, tt_ToolCallID := [],
      tt_ToolName := [], tt_DurationNanos := 0, tt_ErrorCode := [], tt_HTTPStatus := 0\<rparr>"
  have g: "encodableTime (tt_RecordedAt rc)" "fitsInt64 (tt_SchemaVersion rc)" using assms by (simp_all add: goRecord_def)
  have "readMembers traceFields ([(''schema_version'', JNum (tt_SchemaVersion rc)), (''sequence'', JNum (uint (tt_Sequence rc))),
       (''recorded_at'', jsonString (formatTime (tt_RecordedAt rc))), (''type'', jsonString (eventTypeText (tt_Type rc)))] @ ms) zeroTraceRecord =
     readMembers traceFields ms ?x" for ms
    using g by (cases rc) (simp add: findField_def trace_readers zeroTraceRecord_def)
  with record_optional_members [OF assms refl, of ?ty] show ?thesis
    by (simp add: c readTraceRecord_def readStruct_def) (simp add: marshalRecord_def readBack_def)
qed

lemma marshalRecord_readable: "numbersRead (marshalRecord rc)" "nesting (marshalRecord rc) \<le> maxNestingDepth"
  by (simp_all add: marshalRecord_def maxNestingDepth_def)

text \<open>The file of a list of records is read back record by record.\<close>

definition traceLine :: "TraceRecord \<Rightarrow> string" where
  "traceLine record = printJSON (marshalRecord record) @ [CHR 0x0A]"

lemma decode_traceLines:
  assumes "list_all goRecord records"
  shows "decodeStream (\<lambda>j. readTraceRecord j zeroTraceRecord) errAt None (concat (map traceLine records)) = map Inr (map readBack records)"
  using decodeStream_lines [of records marshalRecord "\<lambda>j. readTraceRecord j zeroTraceRecord" readBack errAt] assms
  by (simp add: traceLine_def [abs_def] list_all_iff marshalRecord_readable readTraceRecord_marshal comp_def)

section \<open>The recorder\<close>

text \<open>\<open>tl_left\<close> is the number of bytes that a failed write has left in the file.\<close>

record trace_call =
  tl_now :: int
  tl_write :: "goerr option"
  tl_left :: nat
  tl_sync :: "goerr option"
  tl_close :: "goerr option"

record FileTraceRecorder =
  fr_file :: string
  fr_sequence :: uint64
  fr_err :: "goerr option"
  fr_closed :: bool

definition NewFileTraceRecorder :: "store_call \<Rightarrow> string \<Rightarrow> bool \<Rightarrow> goerr + FileTraceRecorder" where
  "NewFileTraceRecorder c path exists =
     (if path = [] then Inl (errMsg ErrInvalidRequest ''trace path is required'')
      else case sc_io c FileAbs of Some err \<Rightarrow> Inl err | None \<Rightarrow>
      case (case sc_io c OsOpenFile of
              Some err \<Rightarrow> Some err
            | None \<Rightarrow> if exists then Some (Sentinel OsErrExist) else None) of Some err \<Rightarrow> Inl err | None \<Rightarrow>
      case (case sc_io c OsOpenDir of Some err \<Rightarrow> Some err | None \<Rightarrow> sc_io c OsSyncDir) of Some err \<Rightarrow> Inl err | None \<Rightarrow>
      Inr \<lparr>fr_file = [], fr_sequence = 0, fr_err = None, fr_closed = False\<rparr>)"

definition traceErrorCodes :: "(sentinel \<times> string) list" where
  "traceErrorCodes =
     [(ErrModelTimeout, ''model_timeout''), (ErrToolTimeout, ''tool_timeout''),
      (ContextCanceled, ''context_canceled''), (ContextDeadlineExceeded, ''context_deadline_exceeded''),
      (ErrStepLimitExceeded, ''step_limit_exceeded''), (ErrDuplicateToolCall, ''duplicate_tool_call''),
      (ErrInvalidDecision, ''invalid_model_decision''), (ErrInvalidTransition, ''invalid_execution_transition''),
      (ErrInvalidRequest, ''invalid_request''), (ErrToolExecutorMissing, ''tool_executor_missing''),
      (ErrCheckpointStore, ''checkpoint_store_error''), (ErrExecutionBusy, ''execution_busy''),
      (ErrRecoveryUnsupported, ''recovery_unsupported''), (ErrExecutionTerminal, ''execution_terminal''),
      (ErrToolOutcomeUnknown, ''tool_outcome_unknown''), (ErrMCPInputRequired, ''mcp_input_required''),
      (ErrModelAdapterConfig, ''model_adapter_config_error''), (ErrModelProvider, ''model_provider_error''),
      (ErrModelResponse, ''model_response_error'')]"

definition classifyTraceError :: "Event \<Rightarrow> string \<times> int" where
  "classifyTraceError event =
     (case ev_Error event of None \<Rightarrow> ([], 0) | Some e \<Rightarrow>
      case errorsAsHTTP e of Some (code, body) \<Rightarrow> (''model_provider_http_error'', code) | None \<Rightarrow>
      case find (\<lambda>(x, code). errorsIs e x) traceErrorCodes of Some (x, code) \<Rightarrow> (code, 0) | None \<Rightarrow>
      case ev_Type event of
        EventModelCompleted \<Rightarrow> (''model_callback_error'', 0)
      | EventToolCompleted \<Rightarrow> (''tool_callback_error'', 0)
      | _ \<Rightarrow> (''execution_error'', 0))"

definition traceRecord :: "int \<Rightarrow> uint64 \<Rightarrow> Event \<Rightarrow> TraceRecord" where
  "traceRecord t sequence event =
     \<lparr>tt_SchemaVersion = TraceSchemaVersion, tt_Sequence = sequence, tt_RecordedAt = t,
      tt_Type = ev_Type event, tt_ExecutionID = ev_ExecutionID event, tt_Status = ev_Status event,
      tt_ModelAttempt = ev_ModelAttempt event, tt_ToolCallID = ev_ToolCallID event,
      tt_ToolName = ev_ToolName event, tt_DurationNanos = ev_Duration event,
      tt_ErrorCode = fst (classifyTraceError event), tt_HTTPStatus = snd (classifyTraceError event)\<rparr>"

abbreviation wrapped :: "string \<Rightarrow> goerr \<Rightarrow> goerr" where
  "wrapped text err \<equiv> Errorf [Lit text, Lit '': '', W err]"

definition traceOnEvent :: "trace_call \<Rightarrow> Event \<Rightarrow> FileTraceRecorder \<Rightarrow> FileTraceRecorder" where
  "traceOnEvent c event r =
     (if fr_closed r \<or> fr_err r \<noteq> None then r
      else
        case encodeRecord (traceRecord (tl_now c) (fr_sequence r + 1) event) of
          Inl err \<Rightarrow> r\<lparr>fr_err := Some (wrapped ''encoding execution trace'' err)\<rparr>
        | Inr text \<Rightarrow>
            let data = text @ [CHR 0x0A] in
            case tl_write c of
              Some err \<Rightarrow>
                r\<lparr>fr_file := fr_file r @ take (tl_left c) data, fr_err := Some (wrapped ''writing execution trace'' err)\<rparr>
            | None \<Rightarrow>
                let written = r\<lparr>fr_file := fr_file r @ data\<rparr> in
                (case tl_sync c of
                   Some err \<Rightarrow> written\<lparr>fr_err := Some (wrapped ''syncing execution trace'' err)\<rparr>
                 | None \<Rightarrow> written\<lparr>fr_sequence := fr_sequence r + 1\<rparr>))"

definition traceErr :: "FileTraceRecorder option \<Rightarrow> goerr option" where
  "traceErr r = Option.bind r fr_err"

definition traceClose :: "trace_call \<Rightarrow> FileTraceRecorder \<Rightarrow> FileTraceRecorder \<times> goerr option" where
  "traceClose c r =
     (if fr_closed r then (r, fr_err r)
      else
        let r1 = r\<lparr>fr_closed := True\<rparr>;
            r2 = (case tl_sync c of
                    Some err \<Rightarrow> if fr_err r1 = None
                                 then r1\<lparr>fr_err := Some (wrapped ''syncing execution trace on close'' err)\<rparr> else r1
                  | None \<Rightarrow> r1);
            r3 = (case tl_close c of
                    Some err \<Rightarrow> if fr_err r2 = None then r2\<lparr>fr_err := Some (wrapped ''closing execution trace'' err)\<rparr> else r2
                  | None \<Rightarrow> r2)
        in (r3, fr_err r3))"

text \<open>The methods on a pointer, which may be nil.\<close>

definition recorderOnEvent :: "trace_call \<Rightarrow> Event \<Rightarrow> FileTraceRecorder option \<Rightarrow> FileTraceRecorder option" where
  "recorderOnEvent c event r = map_option (traceOnEvent c event) r"

definition recorderClose :: "trace_call \<Rightarrow> FileTraceRecorder option \<Rightarrow> FileTraceRecorder option \<times> goerr option" where
  "recorderClose c r = (case r of None \<Rightarrow> (None, None) | Some rec \<Rightarrow> (case traceClose c rec of (rec', err) \<Rightarrow> (Some rec', err)))"

text \<open>The recorder as an observer of a runtime: the \<open>n\<close>-th event it receives meets the \<open>n\<close>-th call's environment.\<close>

definition traceObserver :: "(nat \<Rightarrow> trace_call) \<Rightarrow> (FileTraceRecorder \<times> nat) observer" where
  "traceObserver calls event st = ((traceOnEvent (calls (snd st)) event (fst st), Suc (snd st)), False)"

section \<open>Reading and inspecting\<close>

fun knownTraceEvent :: "EventType \<Rightarrow> bool" where
  "knownTraceEvent (EventOther s) = False"
| "knownTraceEvent _ = True"

fun validTraceEventStatus :: "EventType \<Rightarrow> Status \<Rightarrow> bool" where
  "validTraceEventStatus EventExecutionStarted status = (status = StatusCreated)"
| "validTraceEventStatus EventModelStarted status = (status = StatusRunningModel)"
| "validTraceEventStatus EventModelCompleted status = (status = StatusRunningModel)"
| "validTraceEventStatus EventToolStarted status = (status = StatusRunningTool)"
| "validTraceEventStatus EventToolCompleted status = (status = StatusRunningTool)"
| "validTraceEventStatus EventExecutionCompleted status = (status = StatusCompleted)"
| "validTraceEventStatus EventExecutionFailed status = (status = StatusFailed)"
| "validTraceEventStatus EventExecutionCancelled status = (status = StatusCancelled)"
| "validTraceEventStatus (EventOther s) status = False"

definition terminalTraceEvent :: "EventType \<Rightarrow> bool" where
  "terminalTraceEvent ty \<longleftrightarrow> ty \<in> {EventExecutionCompleted, EventExecutionFailed, EventExecutionCancelled}"

definition validateTraceRecord :: "TraceRecord \<Rightarrow> uint64 \<Rightarrow> goerr option" where
  "validateTraceRecord record expectedSequence =
     (if tt_SchemaVersion record \<noteq> TraceSchemaVersion
      then Some (Errorf [Lit ''schema version '', Num (tt_SchemaVersion record), Lit '', want '', Num TraceSchemaVersion])
      else if tt_Sequence record \<noteq> expectedSequence
      then Some (Errorf [Lit ''sequence '', Num (uint (tt_Sequence record)), Lit '', want '', Num (uint expectedSequence)])
      else if tt_RecordedAt record = zeroTime then Some (Opaque ''recorded_at is required'')
      else if \<not> knownTraceEvent (tt_Type record)
      then Some (Errorf [Lit ''unknown event type '', Quoted (eventTypeText (tt_Type record))])
      else if \<not> validTraceEventStatus (tt_Type record) (tt_Status record)
      then Some (Errorf [Lit ''event '', Quoted (eventTypeText (tt_Type record)), Lit '' has invalid status '',
                         Quoted (statusText (tt_Status record))])
      else if tt_ModelAttempt record < 0 then Some (Opaque ''model_attempt must not be negative'')
      else if tt_DurationNanos record < 0 then Some (Opaque ''duration_ns must not be negative'')
      else if tt_HTTPStatus record < 0 then Some (Opaque ''http_status must not be negative'')
      else if tt_HTTPStatus record \<noteq> 0 \<and> tt_ErrorCode record \<noteq> ''model_provider_http_error''
      then Some (Opaque ''http_status requires model_provider_http_error'')
      else None)"

definition traceError :: "nat \<Rightarrow> piece list \<Rightarrow> goerr" where
  "traceError index ps = Errorf ([W (Sentinel ErrInvalidTrace), Lit '': record '', Num (int index + 1), Lit '': ''] @ ps)"

definition identityChanged :: "nat \<Rightarrow> string \<Rightarrow> string \<Rightarrow> goerr" where
  "identityChanged index old new =
     traceError index [Lit ''execution ID changed from '', Quoted old, Lit '' to '', Quoted new]"

text \<open>The loop of \<^verbatim>\<open>ReadTrace\<close> over what the decoder returns; at the end of the file it returns \<^verbatim>\<open>io.EOF\<close>.\<close>

fun readRecords :: "nat \<Rightarrow> string \<Rightarrow> TraceRecord list \<Rightarrow> (goerr + TraceRecord) list \<Rightarrow> goerr + TraceRecord list" where
  "readRecords index executionID records [] = Inr records"
| "readRecords index executionID records (Inl err # rest) =
     (if errorsIs err IoEOF then Inr records else Inl (traceError index [W err]))"
| "readRecords index executionID records (Inr record # rest) =
     (case validateTraceRecord record (word_of_nat (index + 1)) of
        Some err \<Rightarrow> Inl (traceError index [W err])
      | None \<Rightarrow>
          if index \<noteq> 0 \<and> tt_ExecutionID record \<noteq> executionID
          then Inl (identityChanged index executionID (tt_ExecutionID record))
          else readRecords (index + 1) (if index = 0 then tt_ExecutionID record else executionID) (records @ [record]) rest)"

text \<open>\<open>contents\<close> is the text of the file, \<open>errAt\<close> and \<open>fault\<close> the errors of the decoder and of reading the file.\<close>

definition ReadTrace ::
  "store_call \<Rightarrow> (string \<Rightarrow> goerr) \<Rightarrow> goerr option \<Rightarrow> string \<Rightarrow> string \<Rightarrow> goerr + TraceRecord list" where
  "ReadTrace c errAt fault path contents =
     (if path = [] then Inl (errMsg ErrInvalidRequest ''trace path is required'')
      else case sc_io c OsOpenFile of
        Some err \<Rightarrow> Inl err
      | None \<Rightarrow> readRecords 0 [] [] (decodeStream (\<lambda>j. readTraceRecord j zeroTraceRecord) errAt fault contents))"

record TraceInspection =
  ti_RecordCount :: int
  ti_ExecutionID :: string
  ti_StartedAt :: int
  ti_LastRecordedAt :: int
  ti_ModelAttempts :: int
  ti_ToolCalls :: int
  ti_LastStatus :: Status
  ti_Complete :: bool
  ti_TerminalStatus :: Status
  ti_ErrorCode :: string
  ti_HTTPStatus :: int

text \<open>One turn of the loop of \<^verbatim>\<open>InspectTrace\<close>, without the two checks that come first.\<close>

definition noteRecord :: "TraceRecord \<Rightarrow> TraceInspection \<Rightarrow> TraceInspection" where
  "noteRecord record inspection = inspection
     \<lparr>ti_LastRecordedAt := tt_RecordedAt record,
      ti_ModelAttempts := (if tt_ModelAttempt record > ti_ModelAttempts inspection then tt_ModelAttempt record
                           else ti_ModelAttempts inspection),
      ti_ToolCalls := (if tt_Type record = EventToolStarted then ti_ToolCalls inspection + 1 else ti_ToolCalls inspection),
      ti_LastStatus := tt_Status record\<rparr>"

definition noteTerminal :: "TraceRecord \<Rightarrow> TraceInspection \<Rightarrow> TraceInspection" where
  "noteTerminal record inspection = inspection
     \<lparr>ti_Complete := True, ti_TerminalStatus := tt_Status record, ti_ErrorCode := tt_ErrorCode record,
      ti_HTTPStatus := tt_HTTPStatus record\<rparr>"

fun inspectRecords :: "nat \<Rightarrow> TraceRecord list \<Rightarrow> TraceInspection \<Rightarrow> goerr + TraceInspection" where
  "inspectRecords index [] inspection = Inr inspection"
| "inspectRecords index (record # rest) inspection =
     (case validateTraceRecord record (word_of_nat (index + 1)) of
        Some err \<Rightarrow> Inl (traceError index [W err])
      | None \<Rightarrow>
          if tt_ExecutionID record \<noteq> ti_ExecutionID inspection
          then Inl (identityChanged index (ti_ExecutionID inspection) (tt_ExecutionID record))
          else
            let noted = noteRecord record inspection in
            if terminalTraceEvent (tt_Type record) then
              if rest \<noteq> [] then Inl (traceError index [Lit ''terminal event is not last''])
              else inspectRecords (index + 1) rest (noteTerminal record noted)
            else inspectRecords (index + 1) rest noted)"

definition InspectTrace :: "TraceRecord list \<Rightarrow> goerr + TraceInspection" where
  "InspectTrace records =
     (case records of
        [] \<Rightarrow> Inl (errMsg ErrInvalidTrace ''trace contains no records'')
      | first # _ \<Rightarrow>
          inspectRecords 0 records
            \<lparr>ti_RecordCount = int (length records), ti_ExecutionID = tt_ExecutionID first,
             ti_StartedAt = tt_RecordedAt first, ti_LastRecordedAt = zeroTime, ti_ModelAttempts = 0, ti_ToolCalls = 0,
             ti_LastStatus = StatusOther [], ti_Complete = False, ti_TerminalStatus = StatusOther [],
             ti_ErrorCode = [], ti_HTTPStatus = 0\<rparr>)"

section \<open>Comparing\<close>

record TraceEventSignature =
  sg_Type :: EventType
  sg_Status :: Status
  sg_ModelAttempt :: int
  sg_ToolName :: string
  sg_ErrorCode :: string
  sg_HTTPStatus :: int

record TraceDivergence =
  dv_Sequence :: uint64
  dv_Left :: "TraceEventSignature option"
  dv_Right :: "TraceEventSignature option"

record TraceDiff =
  td_Equivalent :: bool
  td_Left :: TraceInspection
  td_Right :: TraceInspection
  td_ModelAttemptDelta :: int
  td_ToolCallDelta :: int
  td_FirstDivergence :: "TraceDivergence option"

definition traceEventSignature :: "TraceRecord \<Rightarrow> TraceEventSignature" where
  "traceEventSignature record =
     \<lparr>sg_Type = tt_Type record, sg_Status = tt_Status record, sg_ModelAttempt = tt_ModelAttempt record,
      sg_ToolName = tt_ToolName record, sg_ErrorCode = tt_ErrorCode record, sg_HTTPStatus = tt_HTTPStatus record\<rparr>"

text \<open>The loop over the shared indices: the first divergence within both traces.\<close>

function sharedDivergence :: "TraceRecord list \<Rightarrow> TraceRecord list \<Rightarrow> nat \<Rightarrow> nat \<Rightarrow> TraceDivergence option" where
  "sharedDivergence leftRecords rightRecords shared index =
     (if index < shared then
        let leftSignature = traceEventSignature (leftRecords ! index);
            rightSignature = traceEventSignature (rightRecords ! index)
        in if leftSignature \<noteq> rightSignature
           then Some \<lparr>dv_Sequence = word_of_nat (index + 1), dv_Left = Some leftSignature, dv_Right = Some rightSignature\<rparr>
           else sharedDivergence leftRecords rightRecords shared (index + 1)
      else None)"
  by pat_completeness auto
termination
  by (relation "measure (\<lambda>(l, r, shared, index). shared - index)") auto

declare sharedDivergence.simps [simp del]

definition DiffTrace :: "TraceRecord list \<Rightarrow> TraceRecord list \<Rightarrow> goerr + TraceDiff" where
  "DiffTrace leftRecords rightRecords =
     (case InspectTrace leftRecords of Inl err \<Rightarrow> Inl (wrapped ''left trace'' err) | Inr left \<Rightarrow>
      case InspectTrace rightRecords of Inl err \<Rightarrow> Inl (wrapped ''right trace'' err) | Inr right \<Rightarrow>
      let diff = \<lparr>td_Equivalent = True, td_Left = left, td_Right = right,
                  td_ModelAttemptDelta = ti_ModelAttempts right - ti_ModelAttempts left,
                  td_ToolCallDelta = ti_ToolCalls right - ti_ToolCalls left, td_FirstDivergence = None\<rparr>;
          shared = (if length rightRecords < length leftRecords then length rightRecords else length leftRecords)
      in case sharedDivergence leftRecords rightRecords shared 0 of
           Some divergence \<Rightarrow> Inr (diff\<lparr>td_Equivalent := False, td_FirstDivergence := Some divergence\<rparr>)
         | None \<Rightarrow>
             if length leftRecords \<noteq> length rightRecords then
               Inr (diff\<lparr>td_Equivalent := False,
                         td_FirstDivergence := Some
                           \<lparr>dv_Sequence = word_of_nat (shared + 1),
                            dv_Left = (if shared < length leftRecords then Some (traceEventSignature (leftRecords ! shared)) else None),
                            dv_Right = (if shared < length rightRecords then Some (traceEventSignature (rightRecords ! shared)) else None)\<rparr>\<rparr>)
             else Inr diff)"

section \<open>Comparison is comparison of signatures\<close>

abbreviation signatures :: "TraceRecord list \<Rightarrow> TraceEventSignature list" where
  "signatures records \<equiv> map traceEventSignature records"

text \<open>The first divergence by its specification: the place after the longest common prefix.\<close>

definition divergenceAt :: "TraceRecord list \<Rightarrow> TraceRecord list \<Rightarrow> nat \<Rightarrow> TraceDivergence" where
  "divergenceAt l r n =
     \<lparr>dv_Sequence = word_of_nat (n + 1),
      dv_Left = (if n < length l then Some (traceEventSignature (l ! n)) else None),
      dv_Right = (if n < length r then Some (traceEventSignature (r ! n)) else None)\<rparr>"

definition commonLength :: "TraceRecord list \<Rightarrow> TraceRecord list \<Rightarrow> nat" where
  "commonLength l r = length (longest_common_prefix (signatures l) (signatures r))"

lemma commonLength_Cons [simp]:
  "commonLength [] r = 0" "commonLength l [] = 0"
  "commonLength (a # l) (b # r) = (if traceEventSignature a = traceEventSignature b then Suc (commonLength l r) else 0)"
  by (simp_all add: commonLength_def)

lemma commonLength_le: "commonLength l r \<le> length l" "commonLength l r \<le> length r"
  by (induction l arbitrary: r) (case_tac [!] r, auto)

lemma commonLength_all:
  "commonLength l r = length l \<Longrightarrow> commonLength l r = length r \<Longrightarrow> signatures l = signatures r"
  by (induction l arbitrary: r) (case_tac [!] r, auto split: if_splits)

lemma commonLength_same: "signatures l = signatures r \<Longrightarrow> commonLength l r = length l"
  by (induction l arbitrary: r) (case_tac [!] r, auto)

lemma sharedDivergence_drop:
  "index \<le> min (length l) (length r) \<Longrightarrow>
   sharedDivergence l r (min (length l) (length r)) index =
     (let n = index + commonLength (drop index l) (drop index r) in
      if n < min (length l) (length r) then Some (divergenceAt l r n) else None)"
proof (induction "min (length l) (length r) - index" arbitrary: index)
  case 0
  then show ?case by (subst sharedDivergence.simps) auto
next
  case (Suc k)
  then have i: "index < min (length l) (length r)" by linarith
  then have d: "drop index l = l ! index # drop (Suc index) l" "drop index r = r ! index # drop (Suc index) r"
    by (simp_all add: Cons_nth_drop_Suc)
  have "sharedDivergence l r (min (length l) (length r)) (Suc index) =
     (let n = Suc index + commonLength (drop (Suc index) l) (drop (Suc index) r) in
      if n < min (length l) (length r) then Some (divergenceAt l r n) else None)"
    by (rule Suc.hyps(1)) (use Suc.hyps(2) i in auto)
  with i show ?case
    by (subst sharedDivergence.simps) (simp add: d Let_def divergenceAt_def)
qed

lemma DiffTrace_spec:
  assumes "DiffTrace l r = Inr d"
  shows "td_Equivalent d \<longleftrightarrow> signatures l = signatures r"
    "td_FirstDivergence d = (if signatures l = signatures r then None else Some (divergenceAt l r (commonLength l r)))"
    "InspectTrace l = Inr (td_Left d)" "InspectTrace r = Inr (td_Right d)"
    "td_ModelAttemptDelta d = ti_ModelAttempts (td_Right d) - ti_ModelAttempts (td_Left d)"
    "td_ToolCallDelta d = ti_ToolCalls (td_Right d) - ti_ToolCalls (td_Left d)"
proof -
  have m: "(if length r < length l then length r else length l) = min (length l) (length r)" by (simp add: min_def)
  note sh = sharedDivergence_drop [of 0 l r, simplified]
  have all: "commonLength l r = length l \<longleftrightarrow> signatures l = signatures r" if "length l = length r"
    using commonLength_all [of l r] commonLength_same [of l r] that by metis
  have ne: "signatures l \<noteq> signatures r" if "commonLength l r < min (length l) (length r)"
    using commonLength_same [of l r] that by linarith
  have last: "commonLength l r = min (length l) (length r)" if "\<not> commonLength l r < min (length l) (length r)"
    using commonLength_le [of l r] that by auto
  have len: "signatures l \<noteq> signatures r" if "length l \<noteq> length r" using that map_eq_imp_length_eq by metis
  have "(td_Equivalent d \<longleftrightarrow> signatures l = signatures r) \<and>
    td_FirstDivergence d = (if signatures l = signatures r then None else Some (divergenceAt l r (commonLength l r)))"
    using assms all ne last len
    by (auto simp: DiffTrace_def Let_def m sh divergenceAt_def split: sum.splits if_splits)
  then show "td_Equivalent d \<longleftrightarrow> signatures l = signatures r"
    "td_FirstDivergence d = (if signatures l = signatures r then None else Some (divergenceAt l r (commonLength l r)))"
    by auto
  show "InspectTrace l = Inr (td_Left d)" "InspectTrace r = Inr (td_Right d)"
    "td_ModelAttemptDelta d = ti_ModelAttempts (td_Right d) - ti_ModelAttempts (td_Left d)"
    "td_ToolCallDelta d = ti_ToolCalls (td_Right d) - ti_ToolCalls (td_Left d)"
    using assms by (auto simp: DiffTrace_def Let_def split: sum.splits option.splits if_splits)
qed

section \<open>What the reader and the inspector accept\<close>

text \<open>Records that are valid at their place, for one execution.\<close>

definition wellNumbered :: "nat \<Rightarrow> string \<Rightarrow> TraceRecord list \<Rightarrow> bool" where
  "wellNumbered start executionID records \<longleftrightarrow>
     (\<forall>k < length records. validateTraceRecord (records ! k) (word_of_nat (start + k + 1)) = None \<and>
        tt_ExecutionID (records ! k) = executionID)"

lemma wellNumbered_Nil [simp]: "wellNumbered start i []"
  by (simp add: wellNumbered_def)

lemma wellNumbered_Cons:
  "wellNumbered start i (rc # records) \<longleftrightarrow>
     validateTraceRecord rc (word_of_nat (start + 1)) = None \<and> tt_ExecutionID rc = i \<and>
     wellNumbered (Suc start) i records"
  unfolding wellNumbered_def by (auto simp: less_Suc_eq_0_disj)

lemma wellNumbered_append:
  "wellNumbered start i (xs @ ys) \<longleftrightarrow> wellNumbered start i xs \<and> wellNumbered (start + length xs) i ys"
  by (induction xs arbitrary: start) (auto simp: wellNumbered_Cons)

lemma readRecords_accepts:
  "wellNumbered index i records \<Longrightarrow> index \<noteq> 0 \<longrightarrow> executionID = i \<Longrightarrow>
   readRecords index executionID acc (map Inr records) = Inr (acc @ records)"
  by (induction records arbitrary: index executionID acc) (auto simp: wellNumbered_Cons)

lemma readRecords_sound:
  "readRecords index executionID acc contents = Inr records \<Longrightarrow>
   \<exists>more i. records = acc @ more \<and> wellNumbered index i more \<and> (index \<noteq> 0 \<longrightarrow> more \<noteq> [] \<longrightarrow> i = executionID)"
proof (induction index executionID acc contents rule: readRecords.induct)
  case (3 index executionID acc rc rest)
  from "3.prems" have v: "validateTraceRecord rc (word_of_nat (index + 1)) = None"
    and e: "index = 0 \<or> tt_ExecutionID rc = executionID"
    and r: "readRecords (index + 1) (if index = 0 then tt_ExecutionID rc else executionID) (acc @ [rc]) rest = Inr records"
    by (auto split: option.splits if_splits)
  have "\<not> (index \<noteq> 0 \<and> tt_ExecutionID rc \<noteq> executionID)" using e by auto
  from "3.IH" [OF v this r] obtain more i where m: "records = (acc @ [rc]) @ more" "wellNumbered (Suc index) i more"
      "more \<noteq> [] \<longrightarrow> i = (if index = 0 then tt_ExecutionID rc else executionID)"
    by auto
  then have "wellNumbered index (tt_ExecutionID rc) (rc # more)"
    using v e by (cases more) (auto simp: wellNumbered_Cons)
  with m(1) e show ?case by (intro exI [of _ "rc # more"] exI [of _ "tt_ExecutionID rc"]) auto
qed (auto split: if_splits intro: exI [of _ "[]"])

text \<open>The summary an inspection computes, record by record.\<close>

definition summary :: "TraceRecord list \<Rightarrow> TraceInspection \<Rightarrow> TraceInspection" where
  "summary records inspection =
     foldl (\<lambda>ins rc. if terminalTraceEvent (tt_Type rc) then noteTerminal rc (noteRecord rc ins)
                         else noteRecord rc ins) inspection records"

lemma noteRecord_ID [simp]: "ti_ExecutionID (noteRecord rc ins) = ti_ExecutionID ins"
  "ti_ExecutionID (noteTerminal rc ins) = ti_ExecutionID ins"
  by (simp_all add: noteRecord_def noteTerminal_def)

lemma inspectRecords_iff:
  "inspectRecords index records ins = Inr ins' \<longleftrightarrow>
     wellNumbered index (ti_ExecutionID ins) records \<and>
     list_all (\<lambda>rc. \<not> terminalTraceEvent (tt_Type rc)) (butlast records) \<and> ins' = summary records ins"
proof (induction index records ins rule: inspectRecords.induct)
  case (2 index rc rest ins)
  show ?case
  proof (cases "validateTraceRecord rc (word_of_nat (index + 1)) = None \<and> tt_ExecutionID rc = ti_ExecutionID ins")
    case True
    with 2 show ?thesis by (auto simp: wellNumbered_Cons summary_def Let_def)
  next
    case False
    then show ?thesis by (auto simp: wellNumbered_Cons split: option.splits)
  qed
qed (auto simp: summary_def)

lemma InspectTrace_iff:
  "(\<exists>ins. InspectTrace records = Inr ins) \<longleftrightarrow>
     records \<noteq> [] \<and> wellNumbered 0 (tt_ExecutionID (hd records)) records \<and>
     list_all (\<lambda>rc. \<not> terminalTraceEvent (tt_Type rc)) (butlast records)"
  by (cases records) (simp_all add: InspectTrace_def inspectRecords_iff del: inspectRecords.simps)

lemma summary_snoc: "summary (records @ [rc]) ins =
   (if terminalTraceEvent (tt_Type rc) then noteTerminal rc (noteRecord rc (summary records ins))
    else noteRecord rc (summary records ins))"
  by (simp add: summary_def)

lemma summary_fields:
  "ti_RecordCount (summary records ins) = ti_RecordCount ins"
  "ti_ExecutionID (summary records ins) = ti_ExecutionID ins"
  "ti_ToolCalls (summary records ins) =
     ti_ToolCalls ins + int (length (filter (\<lambda>rc. tt_Type rc = EventToolStarted) records))"
  "ti_ModelAttempts (summary records ins) = Max (insert (ti_ModelAttempts ins) (tt_ModelAttempt ` set records))"
  "ti_Complete (summary records ins) \<longleftrightarrow> ti_Complete ins \<or> list_ex (\<lambda>rc. terminalTraceEvent (tt_Type rc)) records"
proof (induction records rule: rev_induct)
  case (snoc rc records)
  { case 4
    have "Max (insert (ti_ModelAttempts ins) (tt_ModelAttempt ` set (records @ [rc]))) =
        max (tt_ModelAttempt rc) (ti_ModelAttempts (summary records ins))"
      by (simp add: snoc(4) insert_commute [of "ti_ModelAttempts ins"])
    then show ?case by (auto simp: summary_snoc noteRecord_def noteTerminal_def max_def)
  next
    case 3
    then show ?case by (simp add: summary_snoc noteRecord_def noteTerminal_def snoc(3))
  next
    case 5
    then show ?case by (auto simp: summary_snoc noteRecord_def noteTerminal_def snoc(5))
  }
qed (simp_all add: summary_def noteRecord_def noteTerminal_def)

end
