(* ===== verification/Trace_Runs.thy ===== *)
theory Trace_Runs
  imports World_Invariants Traces
begin

text \<open>
  The trace of a run: the recorder of \<^verbatim>\<open>trace.go\<close> as the observer of \<^verbatim>\<open>run\<close>. As long as the recorder reports no
  error, its file holds one valid record per observed event, in order.
\<close>

section \<open>Recording an event\<close>

text \<open>The numbers of an event are values of Go's \<^verbatim>\<open>int\<close> and \<^verbatim>\<open>time.Duration\<close>.\<close>

definition machineSized :: "Event \<Rightarrow> bool" where
  "machineSized event \<longleftrightarrow>
     fitsInt64 (ev_ModelAttempt event) \<and> fitsInt64 (ev_Duration event) \<and> fitsInt64 (snd (classifyTraceError event))"

text \<open>Events whose records the reader accepts.\<close>

definition traceable :: "string \<Rightarrow> Event \<Rightarrow> bool" where
  "traceable executionID event \<longleftrightarrow>
     ev_ExecutionID event = executionID \<and> validTraceEventStatus (ev_Type event) (ev_Status event) \<and>
     0 \<le> ev_ModelAttempt event \<and> 0 \<le> ev_Duration event \<and> 0 \<le> snd (classifyTraceError event) \<and> machineSized event"

definition recordOf :: "TraceRecord \<Rightarrow> Event \<Rightarrow> bool" where
  "recordOf rc event \<longleftrightarrow> knownTraceEvent (ev_Type event) \<and> (\<exists>t n. rc = readBack (traceRecord t n event))"

text \<open>The file is the text of a list of records, one line for each of these events.\<close>

definition recorded :: "string \<Rightarrow> Event list \<Rightarrow> FileTraceRecorder \<Rightarrow> bool" where
  "recorded executionID events r \<longleftrightarrow>
     \<not> fr_closed r \<and>
     (fr_err r = None \<longrightarrow>
        (\<exists>records. fr_file r = concat (map traceLine records) \<and> list_all goRecord records \<and>
           fr_sequence r = word_of_nat (length records) \<and>
           wellNumbered 0 (coerceUTF8 executionID) (map readBack records) \<and> list_all2 recordOf (map readBack records) events))"

lemma classify_http: "snd (classifyTraceError event) \<noteq> 0 \<Longrightarrow> fst (classifyTraceError event) = ''model_provider_http_error''"
  by (auto simp: classifyTraceError_def split: option.splits EventType.splits)

lemma status_readBack: "known st \<Longrightarrow> statusOf (coerceUTF8 (statusText st)) = st"
  by (cases st) (simp_all add: known_def statusOf_def coerceUTF8_valid ascii_valid)

lemma type_readBack: "knownTraceEvent ty \<Longrightarrow> eventTypeOf (coerceUTF8 (eventTypeText ty)) = ty"
  by (cases ty) (simp_all add: eventTypeOf_def coerceUTF8_valid ascii_valid)

lemma traceable_known: "traceable i event \<Longrightarrow> knownTraceEvent (ev_Type event)" "traceable i event \<Longrightarrow> known (ev_Status event)"
  by (cases "ev_Type event"; auto simp: traceable_def known_def)+

lemma traceable_record:
  assumes "traceable i event" and "t \<noteq> zeroTime"
  shows "validateTraceRecord (readBack (traceRecord t n event)) n = None"
    "tt_ExecutionID (readBack (traceRecord t n event)) = coerceUTF8 i"
proof -
  note k = traceable_known [OF assms(1)]
  have "coerceUTF8 ''model_provider_http_error'' = ''model_provider_http_error''"
    by (rule coerceUTF8_valid [OF ascii_valid]) simp
  then have "snd (classifyTraceError event) = 0 \<or> coerceUTF8 (fst (classifyTraceError event)) = ''model_provider_http_error''"
    using classify_http [of event] by metis
  with k assms show "validateTraceRecord (readBack (traceRecord t n event)) n = None"
    by (auto simp: validateTraceRecord_def readBack_def traceRecord_def traceable_def status_readBack type_readBack)
  show "tt_ExecutionID (readBack (traceRecord t n event)) = coerceUTF8 i"
    using assms(1) by (simp add: readBack_def traceRecord_def traceable_def)
qed

lemma traceOnEvent_recorded:
  assumes "recorded i events r" and "traceable i event" and "tl_now c \<noteq> zeroTime"
  shows "recorded i (events @ [event]) (traceOnEvent c event r)"
proof (cases "fr_err (traceOnEvent c event r)")
  case (Some e)
  with assms(1) show ?thesis
    by (auto simp: recorded_def traceOnEvent_def Let_def split: sum.splits option.splits if_splits)
next
  case None
  let ?rc = "traceRecord (tl_now c) (fr_sequence r + 1) event"
  have ok: "fr_err r = None" "encodableTime (tl_now c)"
      "traceOnEvent c event r = r\<lparr>fr_file := fr_file r @ traceLine ?rc, fr_sequence := fr_sequence r + 1\<rparr>"
    using None assms(1)
    by (auto simp: recorded_def traceOnEvent_def encodeRecord_def traceLine_def traceRecord_def Let_def split: option.splits if_splits)
  from assms(1) ok(1) obtain records where r: "fr_file r = concat (map traceLine records)" "list_all goRecord records"
      "fr_sequence r = word_of_nat (length records)" "wellNumbered 0 (coerceUTF8 i) (map readBack records)"
      "list_all2 recordOf (map readBack records) events"
    by (auto simp: recorded_def)
  have "goRecord ?rc"
    using ok(2) assms(2) by (simp add: goRecord_def traceRecord_def traceable_def machineSized_def TraceSchemaVersion_def fitsInt64_def)
  moreover have k: "recordOf (readBack ?rc) event" unfolding recordOf_def using traceable_known(1) [OF assms(2)] by blast
  moreover have "wellNumbered 0 (coerceUTF8 i) (map readBack (records @ [?rc]))"
    using r(3,4) traceable_record [OF assms(2,3)] by (simp add: wellNumbered_append wellNumbered_Cons add.commute)
  moreover have "list_all2 recordOf (map readBack (records @ [?rc])) (events @ [event])"
    using r(5) k by (simp add: list_all2_appendI)
  moreover have "\<not> fr_closed r" using assms(1) by (simp add: recorded_def)
  ultimately show ?thesis unfolding recorded_def ok(3) using r(1,2,3)
    by (intro conjI impI exI [of _ "records @ [?rc]"]) simp_all
qed

lemma recorded_readable:
  assumes "recorded i events r" and "fr_err r = None" and "path \<noteq> []" and "sc_io c OsOpenFile = None"
  shows "\<exists>records. ReadTrace c errAt None path (fr_file r) = Inr records \<and> list_all2 recordOf records events \<and>
    wellNumbered 0 (coerceUTF8 i) records"
proof -
  from assms(1,2) obtain records where r: "fr_file r = concat (map traceLine records)" "list_all goRecord records"
      "wellNumbered 0 (coerceUTF8 i) (map readBack records)" "list_all2 recordOf (map readBack records) events"
    by (auto simp: recorded_def)
  have "ReadTrace c errAt None path (fr_file r) = Inr (map readBack records)"
    using readRecords_accepts [OF r(3), of "[]" "[]"] assms(3,4)
    by (simp add: ReadTrace_def r(1) decode_traceLines [OF r(2)] del: map_map)
  with r(3,4) show ?thesis by blast
qed

section \<open>The events of a run\<close>

fun observedEvent :: "effect \<Rightarrow> Event list" where
  "observedEvent (Observed ev) = [ev]"
| "observedEvent _ = []"

definition observedEvents :: "effect list \<Rightarrow> Event list" where
  "observedEvents es = concat (map observedEvent es)"

lemma observedEvents_append [simp]: "observedEvents (es @ fs) = observedEvents es @ observedEvents fs"
  by (simp add: observedEvents_def)

lemma observedEvents_simps [simp]:
  "observedEvents [] = []" "observedEvents (e # es) = observedEvent e @ observedEvents es"
  by (simp_all add: observedEvents_def)

lemma renewals_unobserved: "list_all isRenewal es \<Longrightarrow> observedEvents es = []"
proof (induction es)
  case (Cons e es)
  then show ?case by (cases e) auto
qed simp

text \<open>The provider status codes in the errors that events carry are not negative, and numbers have Go's width.\<close>

definition properCodes :: "Event list \<Rightarrow> bool" where
  "properCodes events \<longleftrightarrow> (\<forall>ev \<in> set events. 0 \<le> snd (classifyTraceError ev) \<and> machineSized ev)"

text \<open>A session whose observer is the recorder, with a clock that does not run backwards.\<close>

definition traced :: "('s, FileTraceRecorder \<times> nat) session \<Rightarrow> (nat \<Rightarrow> trace_call) \<Rightarrow> bool" where
  "traced X calls \<longleftrightarrow>
     rt_observer (ss_rt X) = Some (traceObserver calls) \<and> mono (en_clock (ss_env X)) \<and> (\<forall>k. tl_now (calls k) \<noteq> zeroTime)"

text \<open>
  The recorder agrees with the log. \<open>n\<close> is the tick at which the call started, \<open>l\<close> the log before it.
\<close>

definition traceAgrees :: "Checkpoint \<Rightarrow> Event list \<Rightarrow> ('s, FileTraceRecorder \<times> nat) rstate \<Rightarrow> bool" where
  "traceAgrees initial events s \<longleftrightarrow>
     properCodes events \<longrightarrow> recorded (rq_ExecutionID (cp_Request initial)) events (fst (w_obs s))"

definition tracing ::
  "('s, FileTraceRecorder \<times> nat) session \<Rightarrow> (nat \<Rightarrow> trace_call) \<Rightarrow> Checkpoint \<Rightarrow> nat \<Rightarrow> effect list \<Rightarrow>
     ('s, FileTraceRecorder \<times> nat) rstate \<Rightarrow> bool" where
  "tracing X calls initial n l s \<longleftrightarrow>
     traced X calls \<longrightarrow> n \<le> w_tick s \<and> 0 \<le> r_iterations s \<and>
     (\<exists>es. w_log s = l @ es \<and> list_all (\<lambda>ev. \<not> terminalTraceEvent (ev_Type ev)) (observedEvents es) \<and>
        traceAgrees initial (observedEvents es) s)"

lemma passTime_obs [simp]: "w_obs (passTime X w) = w_obs w"
  by (simp add: passTime_def renewStep_def emit_def Let_def split: option.splits prod.splits)

lemma tracing_quiet:
  assumes "tracing X calls initial n l s" and "w_log s' = w_log s @ es'" "observedEvents es' = []"
    and "w_tick s \<le> w_tick s'" "r_iterations s \<le> r_iterations s'" "w_obs s' = w_obs s"
  shows "tracing X calls initial n l s'"
  unfolding tracing_def
proof
  assume "traced X calls"
  with assms(1) obtain es where es: "n \<le> w_tick s" "0 \<le> r_iterations s" "w_log s = l @ es"
      "list_all (\<lambda>ev. \<not> terminalTraceEvent (ev_Type ev)) (observedEvents es)" "traceAgrees initial (observedEvents es) s"
    by (auto simp: tracing_def)
  with assms(2-6) have "w_log s' = l @ (es @ es') \<and>
      list_all (\<lambda>ev. \<not> terminalTraceEvent (ev_Type ev)) (observedEvents (es @ es')) \<and>
      traceAgrees initial (observedEvents (es @ es')) s'"
    by (simp add: traceAgrees_def)
  with es(1,2) assms(4,5) show "n \<le> w_tick s' \<and> 0 \<le> r_iterations s' \<and>
     (\<exists>es. w_log s' = l @ es \<and> list_all (\<lambda>ev. \<not> terminalTraceEvent (ev_Type ev)) (observedEvents es) \<and>
        traceAgrees initial (observedEvents es) s')"
    by (meson order_trans)
qed

lemma tracing_passTime: "tracing X calls initial n l s \<Longrightarrow> tracing X calls initial n l (passTime X s)"
  using passTime_log [of X s] by (auto elim!: tracing_quiet simp: passTime_tick renewals_unobserved)

text \<open>One more event: the recorder's file grows by its record.\<close>

lemma traceAgrees_event:
  assumes "traced X calls" and "rt_observer (ss_rt X) = Some obs" and "traceAgrees initial events s"
    and "ev_ExecutionID ev = rq_ExecutionID (cp_Request initial)" "validTraceEventStatus (ev_Type ev) (ev_Status ev)"
    and "0 \<le> ev_ModelAttempt ev" "0 \<le> ev_Duration ev"
    and "w_obs s' = deliverObserver obs ev (w_obs s)"
  shows "traceAgrees initial (events @ [ev]) s'"
  unfolding traceAgrees_def
proof
  assume p: "properCodes (events @ [ev])"
  then have "recorded (rq_ExecutionID (cp_Request initial)) events (fst (w_obs s))"
    using assms(3) by (simp add: traceAgrees_def properCodes_def)
  moreover have "traceable (rq_ExecutionID (cp_Request initial)) ev"
    using p assms(4-7) by (simp add: traceable_def properCodes_def)
  ultimately have "recorded (rq_ExecutionID (cp_Request initial)) (events @ [ev])
      (traceOnEvent (calls (snd (w_obs s))) ev (fst (w_obs s)))"
    using assms(1) by (intro traceOnEvent_recorded) (auto simp: traced_def)
  with assms(1,2,8) show "recorded (rq_ExecutionID (cp_Request initial)) (events @ [ev]) (fst (w_obs s'))"
    by (simp add: traced_def deliverObserver_def traceObserver_def)
qed

lemma loopEvent_recordable:
  assumes "loopEvent X initial s ev" and "mono (en_clock (ss_env X))" and "0 \<le> r_iterations s"
  shows "validTraceEventStatus (ev_Type ev) (ev_Status ev)" "\<not> terminalTraceEvent (ev_Type ev)"
    "0 \<le> ev_ModelAttempt ev" "0 \<le> ev_Duration ev"
  using assms by (auto simp: loopEvent_def terminalTraceEvent_def dest: monoD)

lemma tracing_observed:
  assumes "tracing X calls initial n l s" and "rt_observer (ss_rt X) = Some obs" and "loopEvent X initial s ev"
  shows "tracing X calls initial n l (emit (Observed ev) (s\<lparr>w_obs := deliverObserver obs ev (w_obs s)\<rparr>))" (is "tracing _ _ _ _ _ ?s'")
  unfolding tracing_def
proof
  assume tr: "traced X calls"
  with assms(1) obtain es where es: "n \<le> w_tick s" "0 \<le> r_iterations s" "w_log s = l @ es"
      "list_all (\<lambda>ev. \<not> terminalTraceEvent (ev_Type ev)) (observedEvents es)" "traceAgrees initial (observedEvents es) s"
    by (auto simp: tracing_def)
  have "mono (en_clock (ss_env X))" using tr by (simp add: traced_def)
  note ev = loopEvent_recordable [OF assms(3) this es(2)]
  have "ev_ExecutionID ev = rq_ExecutionID (cp_Request initial)" using assms(3) by (simp add: loopEvent_def)
  from traceAgrees_event [OF tr assms(2) es(5) this ev(1,3,4), of ?s']
  have "traceAgrees initial (observedEvents (es @ [Observed ev])) ?s'" by (simp add: emit_def)
  moreover have "w_log ?s' = l @ (es @ [Observed ev])" using es(3) by simp
  moreover have "list_all (\<lambda>ev. \<not> terminalTraceEvent (ev_Type ev)) (observedEvents (es @ [Observed ev]))"
    using es(4) ev(2) by simp
  ultimately show "n \<le> w_tick ?s' \<and> 0 \<le> r_iterations ?s' \<and>
     (\<exists>es. w_log ?s' = l @ es \<and> list_all (\<lambda>ev. \<not> terminalTraceEvent (ev_Type ev)) (observedEvents es) \<and>
        traceAgrees initial (observedEvents es) ?s')"
    using es(1,2) by (auto simp: emit_def)
qed

interpretation tracing: loop_invariant X initial "tracing X calls initial n l" for X calls initial n l
proof (unfold_locales, goal_cases)
  case (1 s)
  then show ?case by (rule tracing_passTime)
next
  case (2 s e)
  then show ?case by (cases e) (auto elim!: tracing_quiet simp: emit_def)
next
  case (3 s b cp tok r st)
  then show ?case by (auto elim!: tracing_quiet simp: emit_def)
next
  case (4 s obs ev)
  then show ?case by (rule tracing_observed)
qed (auto simp: tracing_def traceAgrees_def)

text \<open>A recorder whose writes and syncs succeed, at times that JSON can express, keeps no error.\<close>

definition faultless :: "(nat \<Rightarrow> trace_call) \<Rightarrow> bool" where
  "faultless calls \<longleftrightarrow> (\<forall>k. encodableTime (tl_now (calls k)) \<and> tl_write (calls k) = None \<and> tl_sync (calls k) = None)"

definition unfailing :: "('s, FileTraceRecorder \<times> nat) session \<Rightarrow> (nat \<Rightarrow> trace_call) \<Rightarrow> ('s, FileTraceRecorder \<times> nat) rstate \<Rightarrow> bool" where
  "unfailing X calls s \<longleftrightarrow>
     (rt_observer (ss_rt X) = Some (traceObserver calls) \<and> faultless calls \<longrightarrow> fr_err (fst (w_obs s)) = None)"

lemma faultless_event: "faultless calls \<Longrightarrow> fr_err r = None \<Longrightarrow> fr_err (traceOnEvent (calls k) ev r) = None"
  by (simp add: traceOnEvent_def encodeRecord_def traceRecord_def faultless_def Let_def)

interpretation unfailing: world_invariant X initial "unfailing X calls" for X initial calls
  by unfold_locales (auto simp: unfailing_def emit_def deliverObserver_def traceObserver_def faultless_event)

lemma run_records_without_error:
  assumes "traced X calls" and "faultless calls" and "fr_err (fst (w_obs w)) = None"
  shows "fr_err (fst (w_obs (fst (run X initial create w)))) = None"
  using unfailing.run_keeps [of X calls initial w create] assms by (simp add: unfailing_def traced_def startState_def)

section \<open>The trace of a whole call\<close>

text \<open>The terminal event of an outcome, if it has one.\<close>

definition endsWith :: "Event list \<Rightarrow> outcome \<Rightarrow> bool" where
  "endsWith events out \<longleftrightarrow>
     (case out of
        Panicked \<Rightarrow> list_all (\<lambda>ev. \<not> terminalTraceEvent (ev_Type ev)) events
      | Returned res err \<Rightarrow>
          if terminal (rs_Status res)
          then \<exists>before ev. events = before @ [ev] \<and> list_all (\<lambda>ev. \<not> terminalTraceEvent (ev_Type ev)) before \<and>
                 ev_Type ev = terminalEventType (rs_Status res) \<and> ev_Status ev = rs_Status res \<and> ev_Error ev = err
          else list_all (\<lambda>ev. \<not> terminalTraceEvent (ev_Type ev)) events)"

lemma terminal_event_valid:
  "terminal st \<Longrightarrow> validTraceEventStatus (terminalEventType st) st"
  by (cases st) (simp_all add: terminal_def)

lemma observeTerminal_traced:
  assumes "tracing X calls initial (w_tick w) l s" and "traced X calls"
    and "s' = observeTerminal X initial (now X w) res err s"
  shows "\<exists>es. w_log s' = l @ es \<and> endsWith (observedEvents es) (Returned res err) \<and> traceAgrees initial (observedEvents es) s'"
proof -
  from assms(1,2) obtain es where es: "w_tick w \<le> w_tick s" "0 \<le> r_iterations s" "w_log s = l @ es"
      "list_all (\<lambda>ev. \<not> terminalTraceEvent (ev_Type ev)) (observedEvents es)" "traceAgrees initial (observedEvents es) s"
    by (auto simp: tracing_def)
  show ?thesis
  proof (cases "terminal (rs_Status res)")
    case False
    then have "s' = s" using assms(3) by (simp add: observeTerminal_def terminalEventType_other)
    with es False show ?thesis by (auto simp: endsWith_def)
  next
    case True
    let ?ev = "(plainEvent (terminalEventType (rs_Status res)) (rq_ExecutionID (cp_Request initial)) (rs_Status res)
                  (r_iterations s))\<lparr>ev_Duration := now X s - now X w, ev_Error := err\<rparr>"
    let ?s1 = "emit (Observed ?ev) (s\<lparr>w_obs := deliverObserver (traceObserver calls) ?ev (w_obs s)\<rparr>)"
    have s': "s' = passTime X ?s1"
      using assms(2,3) True by (simp add: observeTerminal_def terminalEventType_other observe_def traced_def Let_def)
    obtain rs where rs: "w_log s' = w_log ?s1 @ rs" "list_all isRenewal rs" using passTime_log [of X ?s1] s' by auto
    have "0 \<le> now X s - now X w" using assms(2) es(1) by (auto simp: traced_def dest: monoD)
    then have "traceAgrees initial (observedEvents es @ [?ev]) s'"
      using assms(2) es(2) terminal_event_valid [OF True]
      by (intro traceAgrees_event [OF assms(2) _ es(5)]) (auto simp: traced_def plainEvent_def s' emit_def)
    moreover have "w_log s' = l @ (es @ Observed ?ev # rs)" using rs(1) es(3) by simp
    moreover have "observedEvents (es @ Observed ?ev # rs) = observedEvents es @ [?ev]"
      using renewals_unobserved [OF rs(2)] by simp
    moreover have "endsWith (observedEvents es @ [?ev]) (Returned res err)"
      using True es(4) by (auto simp: endsWith_def plainEvent_def)
    ultimately show ?thesis by metis
  qed
qed

lemma run_traced:
  assumes "traced X calls" and "0 \<le> cp_ModelIterations initial" and "create \<longrightarrow> \<not> terminal (cp_Status initial)"
    and "w_obs w = (\<lparr>fr_file = [], fr_sequence = 0, fr_err = None, fr_closed = False\<rparr>, k)"
    and "run X initial create w = (s', out)"
  shows "endsWith (observedEvents (history X initial create w)) out \<and>
    traceAgrees initial (observedEvents (history X initial create w)) s'"
proof -
  have "tracing X calls initial (w_tick w) (w_log w) (startState initial w)"
    using assms(2,4) by (auto simp: tracing_def startState_def traceAgrees_def recorded_def)
  note shape = tracing.run_shape [OF this assms(5)]
  have log: "w_log s' = w_log w @ es \<Longrightarrow> history X initial create w = es" for es
    using run_log [of X initial create w] assms(5) by simp
  from shape show ?thesis
  proof
    assume "\<exists>s res err. tracing X calls initial (w_tick w) (w_log w) s \<and> out = Returned res err \<and>
        s' = observeTerminal X initial (now X w) res err s"
    then obtain s res err where "tracing X calls initial (w_tick w) (w_log w) s" "out = Returned res err"
      "s' = observeTerminal X initial (now X w) res err s" by blast
    from observeTerminal_traced [OF this(1) assms(1) this(3)] this(2) log show ?thesis by blast
  next
    assume a: "tracing X calls initial (w_tick w) (w_log w) s' \<and>
        (out = Panicked \<or> (\<exists>err. create \<and> out = Returned (cp_Result initial) (Some err)))"
    with assms(1) obtain es where es: "w_log s' = w_log w @ es"
        "list_all (\<lambda>ev. \<not> terminalTraceEvent (ev_Type ev)) (observedEvents es)" "traceAgrees initial (observedEvents es) s'"
      by (auto simp: tracing_def)
    with a assms(3) log [OF es(1)] show ?thesis by (auto simp: endsWith_def)
  qed
qed

text \<open>What an inspection of the records of such events says.\<close>

definition finishedWith :: "outcome \<Rightarrow> Status option" where
  "finishedWith out = (case out of Returned res err \<Rightarrow> if terminal (rs_Status res) then Some (rs_Status res) else None | Panicked \<Rightarrow> None)"

lemma recordOf_terminal: "recordOf rc ev \<Longrightarrow> terminalTraceEvent (tt_Type rc) \<longleftrightarrow> terminalTraceEvent (ev_Type ev)"
  by (auto simp: recordOf_def readBack_def traceRecord_def type_readBack)

lemma records_terminal:
  "list_all2 recordOf records events \<Longrightarrow>
   list_all (\<lambda>rc. \<not> terminalTraceEvent (tt_Type rc)) records \<longleftrightarrow> list_all (\<lambda>ev. \<not> terminalTraceEvent (ev_Type ev)) events"
  by (induction rule: list_all2_induct) (auto dest: recordOf_terminal)

lemma not_list_ex_terminal:
  "list_all (\<lambda>rc. \<not> terminalTraceEvent (tt_Type rc)) records \<Longrightarrow> \<not> list_ex (\<lambda>rc. terminalTraceEvent (tt_Type rc)) records"
  by (auto simp: list_all_iff list_ex_iff)

lemma terminalTraceEvent_type: "terminal st \<Longrightarrow> terminalTraceEvent (terminalEventType st)"
  by (cases st) (simp_all add: terminal_def terminalTraceEvent_def)

lemma inspect_summary:
  assumes "records \<noteq> []" and "wellNumbered 0 i records"
    and "list_all (\<lambda>rc. \<not> terminalTraceEvent (tt_Type rc)) (butlast records)"
  shows "\<exists>ins0. InspectTrace records = Inr (summary records ins0) \<and> \<not> ti_Complete ins0"
  using assms
  by (cases records) (auto simp: InspectTrace_def inspectRecords_iff wellNumbered_Cons simp del: inspectRecords.simps)

lemma inspect_ends:
  assumes "list_all2 recordOf records events" and "wellNumbered 0 i records" and "records \<noteq> []" and "endsWith events out"
  shows "\<exists>ins. InspectTrace records = Inr ins \<and> (ti_Complete ins \<longleftrightarrow> finishedWith out \<noteq> None) \<and>
    (\<forall>st. finishedWith out = Some st \<longrightarrow> ti_TerminalStatus ins = st)"
proof (cases "finishedWith out")
  case None
  then have q: "list_all (\<lambda>rc. \<not> terminalTraceEvent (tt_Type rc)) records"
    using assms(4) records_terminal [OF assms(1)]
    by (auto simp: endsWith_def finishedWith_def split: outcome.splits if_splits)
  then have "list_all (\<lambda>rc. \<not> terminalTraceEvent (tt_Type rc)) (butlast records)"
    by (auto simp: list_all_iff dest: in_set_butlastD)
  from inspect_summary [OF assms(3,2) this] None not_list_ex_terminal [OF q] show ?thesis
    by (auto simp: summary_fields)
next
  case (Some st)
  with assms(4) obtain before ev where e: "events = before @ [ev]" "list_all (\<lambda>ev. \<not> terminalTraceEvent (ev_Type ev)) before"
      "ev_Type ev = terminalEventType st" "ev_Status ev = st" "terminal st"
    by (auto simp: endsWith_def finishedWith_def split: outcome.splits if_splits)
  with assms(1) obtain rcs rc where r: "records = rcs @ [rc]" "list_all2 recordOf rcs before" "recordOf rc ev"
    by (auto simp: list_all2_append2 list_all2_Cons2)
  have q: "list_all (\<lambda>rc. \<not> terminalTraceEvent (tt_Type rc)) rcs" using records_terminal [OF r(2)] e(2) by simp
  have t: "terminalTraceEvent (tt_Type rc)" using recordOf_terminal [OF r(3)] e(3) terminalTraceEvent_type [OF e(5)] by simp
  have "tt_Status rc = st"
    using r(3) e(4,5) by (auto simp: recordOf_def readBack_def traceRecord_def status_readBack known_def terminal_def)
  moreover have "\<exists>ins0. InspectTrace records = Inr (summary records ins0) \<and> \<not> ti_Complete ins0"
    by (rule inspect_summary [OF assms(3,2)]) (simp add: r(1) q)
  ultimately show ?thesis using Some t by (auto simp: r(1) summary_snoc noteTerminal_def)
qed

end
