(* ===== verification/Trace_Guarantees.thy ===== *)
theory Trace_Guarantees
  imports Trace_Runs Scenario
begin

text \<open>
  What a trace says about the execution it was recorded from, and what inspection and comparison of
  traces decide.
\<close>

section \<open>A recorded run\<close>

definition demoTraceCall :: "nat \<Rightarrow> trace_call" where
  "demoTraceCall k = \<lparr>tl_now = 1 + int (min k 9), tl_write = None, tl_left = 0, tl_sync = None, tl_close = None\<rparr>"

definition demoAnswer :: "nat \<Rightarrow> ModelInput \<Rightarrow> (Decision \<times> goerr option) option" where
  "demoAnswer t input = Some (\<lparr>d_Kind = DecisionFinal, d_Output = ''4'', d_ToolCall = zeroToolCall\<rparr>, None)"

definition demoTracedSession :: "(unit, FileTraceRecorder \<times> nat) session" where
  "demoTracedSession =
     \<lparr>ss_env = demoEnv,
      ss_rt = \<lparr>rt_store = None, rt_model = BaseModel demoAnswer, rt_tools = None,
               rt_observer = Some (traceObserver demoTraceCall), rt_maxSteps = 3,
               rt_modelRetry = \<lparr>mr_MaxRetries = 0, mr_Delay = 0\<rparr>\<rparr>,
      ss_id = ''job'', ss_token = 0, ss_renewing = False\<rparr>"

definition demoNewTrace :: FileTraceRecorder where
  "demoNewTrace = \<lparr>fr_file = [], fr_sequence = 0, fr_err = None, fr_closed = False\<rparr>"

definition demoTracedWorld :: "(unit, FileTraceRecorder \<times> nat) world" where
  "demoTracedWorld = \<lparr>w_tick = 0, w_store = (), w_obs = (demoNewTrace, 0), w_done = None, w_log = []\<rparr>"

abbreviation demoTracedRun :: "(unit, FileTraceRecorder \<times> nat) rstate \<times> outcome" where
  "demoTracedRun \<equiv> run demoTracedSession demoInitial True demoTracedWorld"

abbreviation demoTraceFile :: string where
  "demoTraceFile \<equiv> fr_file (fst (w_obs (fst demoTracedRun)))"

lemma demo_traced: "traced demoTracedSession demoTraceCall"
  by (simp add: traced_def demoTracedSession_def demoEnv_def demoTraceCall_def zeroTime_def mono_def)

lemma demo_unfailing: "fr_err (fst (w_obs (fst demoTracedRun))) = None"
  by (rule run_records_without_error [OF demo_traced])
    (auto simp: faultless_def demoTraceCall_def encodableTime_def demoTracedWorld_def demoNewTrace_def)

text \<open>The events of the run do not depend on the text of the trace, which is left unevaluated here.\<close>

declare traceOnEvent_def [code del]

lemma demo_traced_run:
  "list_all (\<lambda>ev. 0 \<le> snd (classifyTraceError ev) \<and> machineSized ev)
     (observedEvents (history demoTracedSession demoInitial True demoTracedWorld))"
  "length (observedEvents (history demoTracedSession demoInitial True demoTracedWorld)) = 4"
  "finishedWith (snd demoTracedRun) = Some StatusCompleted"
  by code_simp+

declare traceOnEvent_def [code]

definition demoStarted :: TraceRecord where
  "demoStarted = traceRecord 1 1 (plainEvent EventExecutionStarted ''a'' StatusCreated 0)"

definition demoAsked :: TraceRecord where
  "demoAsked = traceRecord 2 2 (plainEvent EventModelStarted ''a'' StatusRunningModel 1)"

section \<open>Properties\<close>

text \<open>
  C33. The trace of a run is complete and readable: when the recorder ends without an error, \<^verbatim>\<open>ReadTrace\<close> decodes
  the text of its file and returns one record per observed event in order, with the event's fields, \<^verbatim>\<open>InspectTrace\<close>
  accepts these records, and it reports the trace as complete exactly when the call returned a terminal
  result, with that status. The numbers in the events are values of Go's types, and reading the file does not
  fail.
\<close>

theorem run_trace_is_faithful:
  assumes "traced X calls" and "0 \<le> cp_ModelIterations initial" and "create \<longrightarrow> \<not> terminal (cp_Status initial)"
    and "w_obs w = (\<lparr>fr_file = [], fr_sequence = 0, fr_err = None, fr_closed = False\<rparr>, k)"
    and "run X initial create w = (s', out)" and "fr_err (fst (w_obs s')) = None"
    and "properCodes (observedEvents (history X initial create w))" and "path \<noteq> []" and "sc_io c OsOpenFile = None"
  shows "\<exists>records. ReadTrace c errAt None path (fr_file (fst (w_obs s'))) = Inr records \<and>
    list_all2 recordOf records (observedEvents (history X initial create w)) \<and>
    (records \<noteq> [] \<longrightarrow> (\<exists>ins. InspectTrace records = Inr ins \<and> (ti_Complete ins \<longleftrightarrow> finishedWith out \<noteq> None) \<and>
       (\<forall>st. finishedWith out = Some st \<longrightarrow> ti_TerminalStatus ins = st)))"
proof -
  note r = run_traced [OF assms(1-5)]
  then have "recorded (rq_ExecutionID (cp_Request initial)) (observedEvents (history X initial create w)) (fst (w_obs s'))"
    using assms(7) by (simp add: traceAgrees_def)
  from recorded_readable [OF this assms(6,8,9)] r inspect_ends show ?thesis by blast
qed

theorem run_trace_is_faithful_witness:
  "\<exists>records ins. ReadTrace (demoCallEnv 0) Opaque None ''trace.jsonl'' demoTraceFile = Inr records \<and>
     InspectTrace records = Inr ins \<and> ti_Complete ins \<and> ti_TerminalStatus ins = StatusCompleted"
proof -
  have a: "0 \<le> cp_ModelIterations demoInitial" "True \<longrightarrow> \<not> terminal (cp_Status demoInitial)"
    by (simp_all add: demoInitial_def zeroCheckpoint_def zeroResult_def terminal_def)
  have b: "w_obs demoTracedWorld = (\<lparr>fr_file = [], fr_sequence = 0, fr_err = None, fr_closed = False\<rparr>, 0)"
    by (simp add: demoTracedWorld_def demoNewTrace_def)
  have c: "properCodes (observedEvents (history demoTracedSession demoInitial True demoTracedWorld))"
    using demo_traced_run(1) by (simp add: properCodes_def list_all_iff)
  have d: "''trace.jsonl'' \<noteq> []" "sc_io (demoCallEnv 0) OsOpenFile = None" by (simp_all add: demoCallEnv_def)
  from run_trace_is_faithful [OF demo_traced a b prod.collapse [symmetric] demo_unfailing c d]
  obtain records where r: "ReadTrace (demoCallEnv 0) Opaque None ''trace.jsonl'' demoTraceFile = Inr records"
    "list_all2 recordOf records (observedEvents (history demoTracedSession demoInitial True demoTracedWorld))"
    "records \<noteq> [] \<longrightarrow> (\<exists>ins. InspectTrace records = Inr ins \<and> (ti_Complete ins \<longleftrightarrow> finishedWith (snd demoTracedRun) \<noteq> None) \<and>
       (\<forall>st. finishedWith (snd demoTracedRun) = Some st \<longrightarrow> ti_TerminalStatus ins = st))"
    by blast
  have "records \<noteq> []" using list_all2_lengthD [OF r(2)] demo_traced_run(2) by auto
  with r demo_traced_run(3) show ?thesis by auto
qed

text \<open>
  C34. Inspection is exact: \<^verbatim>\<open>InspectTrace\<close> succeeds exactly on nonempty lists of records that are valid at their
  place, belong to one execution and have no terminal event before the last; its counters are then the
  number of records, the largest model attempt and the number of tool starts, and the trace is
  complete exactly when the last event is terminal.
\<close>

theorem inspection_is_exact:
  "(case InspectTrace records of
      Inl e \<Rightarrow> \<not> (records \<noteq> [] \<and> wellNumbered 0 (tt_ExecutionID (hd records)) records \<and>
               list_all (\<lambda>rc. \<not> terminalTraceEvent (tt_Type rc)) (butlast records))
    | Inr ins \<Rightarrow> records \<noteq> [] \<and> wellNumbered 0 (tt_ExecutionID (hd records)) records \<and>
        list_all (\<lambda>rc. \<not> terminalTraceEvent (tt_Type rc)) (butlast records) \<and>
        ti_RecordCount ins = int (length records) \<and> ti_ExecutionID ins = tt_ExecutionID (hd records) \<and>
        ti_ModelAttempts ins = Max (insert 0 (tt_ModelAttempt ` set records)) \<and>
        ti_ToolCalls ins = int (length (filter (\<lambda>rc. tt_Type rc = EventToolStarted) records)) \<and>
        (ti_Complete ins \<longleftrightarrow> terminalTraceEvent (tt_Type (last records))))"
proof (cases "InspectTrace records")
  case (Inl e)
  then show ?thesis using InspectTrace_iff [of records] by auto
next
  case (Inr ins)
  then have acc: "records \<noteq> []" "wellNumbered 0 (tt_ExecutionID (hd records)) records"
    "list_all (\<lambda>rc. \<not> terminalTraceEvent (tt_Type rc)) (butlast records)"
    using InspectTrace_iff [of records] by auto
  obtain ins0 where s: "ins = summary records ins0" "ti_RecordCount ins0 = int (length records)"
      "ti_ExecutionID ins0 = tt_ExecutionID (hd records)" "ti_ModelAttempts ins0 = 0" "ti_ToolCalls ins0 = 0" "\<not> ti_Complete ins0"
    using Inr by (cases records) (auto simp: InspectTrace_def inspectRecords_iff simp del: inspectRecords.simps)
  have "list_ex (\<lambda>rc. terminalTraceEvent (tt_Type rc)) records \<longleftrightarrow> terminalTraceEvent (tt_Type (last records))"
    using acc(1,3) by (cases records rule: rev_cases) (auto simp: list_all_iff list_ex_iff)
  with s acc Inr show ?thesis by (simp add: summary_fields)
qed

text \<open>
  C35. \<^verbatim>\<open>DiffTrace\<close> decides behavioural equality: two traces are equivalent exactly when their event signatures
  agree, and otherwise the reported divergence is the place after the longest common prefix of the
  signatures, with the signature of each side that has an event there.
\<close>

theorem diff_is_exact:
  assumes "DiffTrace l r = Inr d"
  shows "(td_Equivalent d \<longleftrightarrow> signatures l = signatures r) \<and>
    td_FirstDivergence d = (if signatures l = signatures r then None else Some (divergenceAt l r (commonLength l r)))"
  using DiffTrace_spec [OF assms] by blast

theorem diff_is_exact_witness:
  "\<exists>d. DiffTrace [demoStarted] [demoStarted, demoAsked] = Inr d \<and> \<not> td_Equivalent d \<and>
     td_FirstDivergence d = Some \<lparr>dv_Sequence = 2, dv_Left = None, dv_Right = Some (traceEventSignature demoAsked)\<rparr>"
proof -
  obtain d where d: "DiffTrace [demoStarted] [demoStarted, demoAsked] = Inr d"
  proof -
    have "\<not> isl (DiffTrace [demoStarted] [demoStarted, demoAsked])" by code_simp
    with that show ?thesis by (cases "DiffTrace [demoStarted] [demoStarted, demoAsked]") auto
  qed
  from diff_is_exact [OF d] d show ?thesis by (simp add: divergenceAt_def)
qed

text \<open>
  C36. Traces are redacted: the error code of a record comes from a fixed list, and a record depends on the
  error of its event only through the sentinels it wraps and the provider's HTTP status, never through
  its text or a response body.
\<close>

theorem trace_is_redacted:
  assumes "\<forall>x. errorsIs e x = errorsIs e' x" and "map_option fst (errorsAsHTTP e) = map_option fst (errorsAsHTTP e')"
  shows "traceRecord t n (ev\<lparr>ev_Error := Some e\<rparr>) = traceRecord t n (ev\<lparr>ev_Error := Some e'\<rparr>) \<and>
    tt_ErrorCode (traceRecord t n (ev\<lparr>ev_Error := Some e\<rparr>)) \<in>
      {''model_provider_http_error'', ''model_callback_error'', ''tool_callback_error'', ''execution_error''} \<union>
      snd ` set traceErrorCodes"
proof -
  have "errorsIs e = errorsIs e'" using assms(1) by auto
  with assms(2) have "classifyTraceError (ev\<lparr>ev_Error := Some e\<rparr>) = classifyTraceError (ev\<lparr>ev_Error := Some e'\<rparr>)"
    by (auto simp: classifyTraceError_def split: option.splits)
  moreover have "fst (classifyTraceError (ev\<lparr>ev_Error := Some e\<rparr>)) \<in>
      {''model_provider_http_error'', ''model_callback_error'', ''tool_callback_error'', ''execution_error''} \<union>
      snd ` set traceErrorCodes"
    by (auto simp: classifyTraceError_def image_iff split: option.splits EventType.splits
        dest!: find_Some_iff [THEN iffD1]) (metis nth_mem snd_conv)+
  ultimately show ?thesis by (simp add: traceRecord_def)
qed

theorem trace_is_redacted_witness:
  "traceRecord 1 1 ((plainEvent EventModelCompleted ''a'' StatusRunningModel 1)\<lparr>ev_Error := Some (HTTPError 500 ''secret'')\<rparr>) =
   traceRecord 1 1 ((plainEvent EventModelCompleted ''a'' StatusRunningModel 1)\<lparr>ev_Error := Some (HTTPError 500 [])\<rparr>)"
  using trace_is_redacted [of "HTTPError 500 ''secret''" "HTTPError 500 []"] by simp

end
