(* ===== verification/OpenAI_Model.thy ===== *)
theory OpenAI_Model
  imports Json_Codec "HOL-Library.List_Lexorder" "HOL-Library.Char_ord"
begin

text \<open>
  The chat-completions adapter (\<^verbatim>\<open>openai_model.go\<close>): configuration, the messages of a request, the request
  body and the decision a response stands for.

  The HTTP client is an argument, a function from requests to responses or errors; a response carries
  its bytes. \<^verbatim>\<open>url.Parse\<close> and \<^verbatim>\<open>(*URL).String\<close> are arguments as well. The body of a request is the document it
  denotes, and so is a \<^verbatim>\<open>json.RawMessage\<close> of the configuration once its text has been accepted. The configuration's \<^verbatim>\<open>ExtraBody\<close> map is listed in the order in
  which the loop visits it, with distinct keys.
\<close>

section \<open>Strings\<close>

text \<open>\<^verbatim>\<open>unicode.IsSpace\<close>\<close>

definition isSpace :: "nat \<Rightarrow> bool" where
  "isSpace r \<longleftrightarrow> r \<in> {0x09, 0x0A, 0x0B, 0x0C, 0x0D, 0x20, 0x85, 0xA0, 0x1680, 0x2028, 0x2029, 0x202F, 0x205F, 0x3000} \<or>
     (0x2000 \<le> r \<and> r \<le> 0x200A)"

definition decodeLastRune :: "string \<Rightarrow> (nat \<times> nat) option" where
  "decodeLastRune s =
     (case find (\<lambda>k. let b = byte (s ! (length s - k)) in \<not> (0x80 \<le> b \<and> b < 0xC0)) [1..<Suc (min 4 (length s))] of
        None \<Rightarrow> None
      | Some k \<Rightarrow>
          (case decodeRune (drop (length s - k) s) of
             Some (r, w) \<Rightarrow> if w = k then Some (r, w) else None
           | None \<Rightarrow> None))"

function trimLeftSpace :: "string \<Rightarrow> string" where
  "trimLeftSpace s =
     (case decodeRune s of
        Some (r, w) \<Rightarrow> if isSpace r then trimLeftSpace (drop w s) else s
      | None \<Rightarrow> s)"
  by pat_completeness auto
termination
  by (relation "measure length") (auto dest!: decodeRune_width)

declare trimLeftSpace.simps [simp del]

lemma decodeLastRune_width: "decodeLastRune s = Some (r, w) \<Longrightarrow> 0 < w \<and> w \<le> length s"
  by (auto simp: decodeLastRune_def split: option.splits if_splits dest!: decodeRune_width)

function trimRightSpace :: "string \<Rightarrow> string" where
  "trimRightSpace s =
     (case decodeLastRune s of
        Some (r, w) \<Rightarrow> if isSpace r then trimRightSpace (take (length s - w) s) else s
      | None \<Rightarrow> s)"
  by pat_completeness auto
termination
  by (relation "measure length") (auto dest!: decodeLastRune_width)

declare trimRightSpace.simps [simp del]

definition trimSpace :: "string \<Rightarrow> string" where
  "trimSpace s = trimRightSpace (trimLeftSpace s)"

section \<open>Configuration\<close>

record OpenAIToolDefinition =
  ot_Name :: string
  ot_Description :: string
  ot_Parameters :: string
  ot_Strict :: bool

record http_request =
  hq_URL :: string
  hq_Headers :: "(string \<times> string) list"
  hq_Body :: json

record http_response =
  hr_StatusCode :: int
  hr_Body :: string
  hr_ReadError :: "goerr option"

record http_client =
  hc_FollowsRedirects :: bool
  hc_Do :: "http_request \<Rightarrow> goerr + http_response"

record OpenAICompatibleModelConfig =
  cf_BaseURL :: string
  cf_APIKey :: string
  cf_Model :: string
  cf_SystemPrompt :: string
  cf_Tools :: "OpenAIToolDefinition list"
  cf_ExtraBody :: "(string \<times> string) list"
  cf_HTTPClient :: "http_client option"

record openAIFunctionDefinition =
  fd_Name :: string
  fd_Description :: string
  fd_Parameters :: "json option"
  fd_Strict :: bool

record openAIChatTool =
  ct_Type :: string
  ct_Function :: openAIFunctionDefinition

record OpenAICompatibleModel =
  om_endpoint :: string
  om_apiKey :: string
  om_model :: string
  om_systemPrompt :: string
  om_tools :: "openAIChatTool list"
  om_extraBody :: "(string \<times> json) list"
  om_client :: http_client

record URL =
  url_Scheme :: string
  url_Host :: string
  url_Path :: string
  url_RawQuery :: string
  url_Fragment :: string

abbreviation configError :: "string \<Rightarrow> goerr" where
  "configError text \<equiv> errMsg ErrModelAdapterConfig text"

definition trimRightSlash :: "string \<Rightarrow> string" where
  "trimRightSlash s = rev (dropWhile (\<lambda>c. c = CHR ''/'') (rev s))"

definition chatCompletionsEndpoint :: "(string \<Rightarrow> goerr + URL) \<Rightarrow> (URL \<Rightarrow> string) \<Rightarrow> string \<Rightarrow> goerr + string" where
  "chatCompletionsEndpoint parse render baseURL =
     (if trimSpace baseURL = [] then Inl (configError ''base URL is required'')
      else case parse baseURL of
        Inl err \<Rightarrow> Inl (Errorf [W (Sentinel ErrModelAdapterConfig), Lit '': parse base URL: '', V err])
      | Inr parsed \<Rightarrow>
          if (url_Scheme parsed \<noteq> ''http'' \<and> url_Scheme parsed \<noteq> ''https'') \<or> url_Host parsed = []
          then Inl (configError ''base URL must be an absolute http(s) URL'')
          else if url_RawQuery parsed \<noteq> [] \<or> url_Fragment parsed \<noteq> []
          then Inl (configError ''base URL must not contain query or fragment'')
          else Inr (render (parsed\<lparr>url_Path := trimRightSlash (url_Path parsed) @ ''/chat/completions''\<rparr>)))"

definition reservedFields :: "string list" where
  "reservedFields = [''model'', ''messages'', ''tools'', ''stream'']"

fun checkExtraBody :: "(string \<times> string) list \<Rightarrow> goerr + (string \<times> json) list" where
  "checkExtraBody [] = Inr []"
| "checkExtraBody ((key, val) # rest) =
     (if trimSpace key = [] then Inl (configError ''extra body field name is required'')
      else if key \<in> set reservedFields
      then Inl (Errorf [W (Sentinel ErrModelAdapterConfig), Lit '': extra body field '', Quoted key, Lit '' is reserved''])
      else case parseJSON val of
        Malformed \<Rightarrow>
          Inl (Errorf [W (Sentinel ErrModelAdapterConfig), Lit '': extra body field '', Quoted key, Lit '' is not valid JSON''])
      | Doc j \<Rightarrow> (case checkExtraBody rest of Inl err \<Rightarrow> Inl err | Inr extra \<Rightarrow> Inr ((key, j) # extra)))"

fun checkTools :: "string list \<Rightarrow> OpenAIToolDefinition list \<Rightarrow> goerr + openAIChatTool list" where
  "checkTools seenNames [] = Inr []"
| "checkTools seenNames (tool # rest) =
     (if trimSpace (ot_Name tool) = [] then Inl (configError ''tool name is required'')
      else if ot_Name tool \<in> set seenNames
      then Inl (Errorf [W (Sentinel ErrModelAdapterConfig), Lit '': duplicate tool name '', Quoted (ot_Name tool)])
      else if ot_Parameters tool \<noteq> [] \<and> parseJSON (ot_Parameters tool) = Malformed
      then Inl (Errorf [W (Sentinel ErrModelAdapterConfig), Lit '': tool '', Quoted (ot_Name tool),
                        Lit '' parameters are not valid JSON''])
      else case checkTools (ot_Name tool # seenNames) rest of
        Inl err \<Rightarrow> Inl err
      | Inr tools \<Rightarrow>
          Inr (\<lparr>ct_Type = ''function'',
                ct_Function = \<lparr>fd_Name = ot_Name tool, fd_Description = ot_Description tool,
                               fd_Parameters = (case parseJSON (ot_Parameters tool) of Doc j \<Rightarrow> Some j | Malformed \<Rightarrow> None),
                               fd_Strict = ot_Strict tool\<rparr>\<rparr> # tools))"

definition NewOpenAICompatibleModel ::
  "(string \<Rightarrow> goerr + URL) \<Rightarrow> (URL \<Rightarrow> string) \<Rightarrow> http_client \<Rightarrow> OpenAICompatibleModelConfig \<Rightarrow> goerr + OpenAICompatibleModel" where
  "NewOpenAICompatibleModel parse render defaultClient config =
     (case chatCompletionsEndpoint parse render (cf_BaseURL config) of Inl err \<Rightarrow> Inl err | Inr endpoint \<Rightarrow>
      if trimSpace (cf_Model config) = [] then Inl (configError ''model is required'')
      else
        let keyCheck =
              (if cf_APIKey config = [] then None
               else case parse endpoint of
                 Inl err \<Rightarrow> Some (Errorf [W (Sentinel ErrModelAdapterConfig), Lit '': parse endpoint: '', V err])
               | Inr parsed \<Rightarrow>
                   if url_Scheme parsed \<noteq> ''https'' then Some (configError ''API key requires an HTTPS endpoint'') else None)
        in case keyCheck of Some err \<Rightarrow> Inl err | None \<Rightarrow>
      case checkExtraBody (cf_ExtraBody config) of Inl err \<Rightarrow> Inl err | Inr extraBody \<Rightarrow>
      case checkTools [] (cf_Tools config) of Inl err \<Rightarrow> Inl err | Inr tools \<Rightarrow>
      let client = (case cf_HTTPClient config of None \<Rightarrow> defaultClient | Some c \<Rightarrow> c) in
      Inr \<lparr>om_endpoint = endpoint, om_apiKey = cf_APIKey config, om_model = cf_Model config,
           om_systemPrompt = cf_SystemPrompt config, om_tools = tools, om_extraBody = extraBody,
           om_client = (if cf_APIKey config \<noteq> [] then client\<lparr>hc_FollowsRedirects := False\<rparr> else client)\<rparr>)"

section \<open>Requests\<close>

record openAIFunctionToolCall =
  fc_Name :: string
  fc_Arguments :: string

record openAIChatToolCall =
  oa_ID :: string
  oa_Type :: string
  oa_Function :: openAIFunctionToolCall

record openAIChatMessage =
  cm_Role :: string
  cm_Content :: "string option"
  cm_ToolCalls :: "openAIChatToolCall list"
  cm_ToolCallID :: string

definition stepMessages :: "Step \<Rightarrow> openAIChatMessage list" where
  "stepMessages step =
     [\<lparr>cm_Role = ''assistant'', cm_Content = None,
       cm_ToolCalls = [\<lparr>oa_ID = tc_ID (sp_Call step), oa_Type = ''function'',
                        oa_Function = \<lparr>fc_Name = tc_Name (sp_Call step), fc_Arguments = tc_Arguments (sp_Call step)\<rparr>\<rparr>],
       cm_ToolCallID = []\<rparr>,
      \<lparr>cm_Role = ''tool'', cm_Content = Some (tr_Output (sp_Result step)), cm_ToolCalls = [],
       cm_ToolCallID = tc_ID (sp_Call step)\<rparr>]"

definition messages :: "OpenAICompatibleModel \<Rightarrow> ModelInput \<Rightarrow> openAIChatMessage list" where
  "messages m input =
     (if om_systemPrompt m \<noteq> []
      then [\<lparr>cm_Role = ''system'', cm_Content = Some (om_systemPrompt m), cm_ToolCalls = [], cm_ToolCallID = []\<rparr>]
      else []) @
     [\<lparr>cm_Role = ''user'', cm_Content = Some (mi_Prompt input), cm_ToolCalls = [], cm_ToolCallID = []\<rparr>] @
     concat (map stepMessages (mi_Steps input))"

definition jsonChatToolCall :: "openAIChatToolCall \<Rightarrow> json" where
  "jsonChatToolCall call = JObj [(''id'', jsonString (oa_ID call)), (''type'', jsonString (oa_Type call)),
     (''function'', JObj [(''name'', jsonString (fc_Name (oa_Function call))),
                          (''arguments'', jsonString (fc_Arguments (oa_Function call)))])]"

definition jsonChatMessage :: "openAIChatMessage \<Rightarrow> json" where
  "jsonChatMessage msg = JObj
     ([(''role'', jsonString (cm_Role msg)),
       (''content'', case cm_Content msg of None \<Rightarrow> JNull | Some s \<Rightarrow> jsonString s)] @
      omitEmpty (cm_ToolCalls msg = []) ''tool_calls'' (JArr (map jsonChatToolCall (cm_ToolCalls msg))) @
      omitEmpty (cm_ToolCallID msg = []) ''tool_call_id'' (jsonString (cm_ToolCallID msg)))"

definition jsonChatTool :: "openAIChatTool \<Rightarrow> json" where
  "jsonChatTool tool = JObj [(''type'', jsonString (ct_Type tool)),
     (''function'', JObj
        ([(''name'', jsonString (fd_Name (ct_Function tool)))] @
         omitEmpty (fd_Description (ct_Function tool) = []) ''description'' (jsonString (fd_Description (ct_Function tool))) @
         (case fd_Parameters (ct_Function tool) of None \<Rightarrow> [] | Some j \<Rightarrow> [(''parameters'', j)]) @
         omitEmpty (\<not> fd_Strict (ct_Function tool)) ''strict'' (JBool True)))]"

text \<open>The members of \<^verbatim>\<open>openAIChatRequest\<close>; with extra fields the body is a map, encoded with sorted keys.\<close>

definition payloadFields :: "OpenAICompatibleModel \<Rightarrow> ModelInput \<Rightarrow> (string \<times> json) list" where
  "payloadFields m input =
     [(''model'', jsonString (om_model m)), (''messages'', JArr (map jsonChatMessage (messages m input)))] @
     omitEmpty (om_tools m = []) ''tools'' (JArr (map jsonChatTool (om_tools m)))"

definition marshalOpenAIChatRequest :: "(string \<times> json) list \<Rightarrow> (string \<times> json) list \<Rightarrow> json" where
  "marshalOpenAIChatRequest payload extraBody =
     (if extraBody = [] then JObj payload
      else
        let fs = map_of payload ++ map_of extraBody;
            keys = sort (remdups (map fst payload @ map fst extraBody))
        in JObj (map (\<lambda>k. (coerceUTF8 k, the (fs k))) keys))"

section \<open>Responses\<close>

record chat_choice =
  ch_FinishReason :: string
  ch_Content :: "string option"
  ch_ToolCalls :: "openAIChatToolCall list"

definition zeroChatToolCall :: openAIChatToolCall where
  "zeroChatToolCall = \<lparr>oa_ID = [], oa_Type = [], oa_Function = \<lparr>fc_Name = [], fc_Arguments = []\<rparr>\<rparr>"

definition zeroChoice :: chat_choice where
  "zeroChoice = \<lparr>ch_FinishReason = [], ch_Content = None, ch_ToolCalls = []\<rparr>"

definition readFunctionCall :: "openAIFunctionToolCall reader" where
  "readFunctionCall = readStruct
     [(''name'', jsonField fc_Name (\<lambda>v x. x\<lparr>fc_Name := v\<rparr>) readString),
      (''arguments'', jsonField fc_Arguments (\<lambda>v x. x\<lparr>fc_Arguments := v\<rparr>) readString)]"

definition readChatToolCall :: "openAIChatToolCall reader" where
  "readChatToolCall = readStruct
     [(''id'', jsonField oa_ID (\<lambda>v x. x\<lparr>oa_ID := v\<rparr>) readString),
      (''type'', jsonField oa_Type (\<lambda>v x. x\<lparr>oa_Type := v\<rparr>) readString),
      (''function'', jsonField oa_Function (\<lambda>v x. x\<lparr>oa_Function := v\<rparr>) readFunctionCall)]"

text \<open>The anonymous structs of a choice; the inner one, \<^verbatim>\<open>Message\<close>, is read into the same record.\<close>

definition readChoice :: "chat_choice reader" where
  "readChoice = readStruct
     [(''finish_reason'', jsonField ch_FinishReason (\<lambda>v x. x\<lparr>ch_FinishReason := v\<rparr>) readString),
      (''message'', readStruct
         [(''content'', jsonField ch_Content (\<lambda>v x. x\<lparr>ch_Content := v\<rparr>) (readPointer readString [])),
          (''tool_calls'', jsonField ch_ToolCalls (\<lambda>v x. x\<lparr>ch_ToolCalls := v\<rparr>) (readSlice readChatToolCall zeroChatToolCall))])]"

definition readResponse :: "chat_choice list reader" where
  "readResponse = readStruct [(''choices'', jsonField id (\<lambda>v x. v) (readSlice readChoice zeroChoice))]"

definition unmarshalChatResponse :: "string \<Rightarrow> chat_choice list option" where
  "unmarshalChatResponse raw = (case parseJSON raw of Malformed \<Rightarrow> None | Doc j \<Rightarrow> readResponse j [])"

definition responseError :: "piece list \<Rightarrow> goerr" where
  "responseError ps = Errorf ([W (Sentinel ErrModelResponse), Lit '': ''] @ ps)"

text \<open>The decision a decoded response stands for.\<close>

definition decideResponse :: "chat_choice list \<Rightarrow> Decision \<times> goerr option" where
  "decideResponse choices =
     (case choices of
        [] \<Rightarrow> (zeroDecision, Some (responseError [Lit ''response has no choices'']))
      | choice # _ \<Rightarrow>
          (case ch_ToolCalls choice of
             [call] \<Rightarrow>
               if oa_Type call \<noteq> [] \<and> oa_Type call \<noteq> ''function''
               then (zeroDecision, Some (responseError [Lit ''unsupported tool call type '', Quoted (oa_Type call)]))
               else (\<lparr>d_Kind = DecisionToolCall, d_Output = [],
                      d_ToolCall = \<lparr>tc_ID = oa_ID call, tc_Name = fc_Name (oa_Function call),
                                    tc_Arguments = fc_Arguments (oa_Function call)\<rparr>\<rparr>, None)
           | [] \<Rightarrow>
               if ch_FinishReason choice \<noteq> [] \<and> ch_FinishReason choice \<noteq> ''stop''
               then (zeroDecision, Some (responseError [Lit ''finish reason '', Quoted (ch_FinishReason choice),
                                                        Lit '' without a tool call'']))
               else (case ch_Content choice of
                       None \<Rightarrow> (zeroDecision, Some (responseError [Lit ''final response has null content'']))
                     | Some content \<Rightarrow>
                         (\<lparr>d_Kind = DecisionFinal, d_Output = content, d_ToolCall = zeroToolCall\<rparr>, None))
           | calls \<Rightarrow>
               (zeroDecision, Some (responseError [Lit ''provider returned '', Num (int (length calls)),
                                                   Lit '' tool calls; harness accepts one per model attempt'']))))"

definition maxModelResponseBytes :: nat where
  "maxModelResponseBytes = 4 * 1024 * 1024"

definition errorBody :: "string \<Rightarrow> string" where
  "errorBody raw = (let body = trimSpace raw in if length body > 4096 then take 4096 body else body)"

definition openAIRequest :: "OpenAICompatibleModel \<Rightarrow> ModelInput \<Rightarrow> http_request" where
  "openAIRequest m input =
     \<lparr>hq_URL = om_endpoint m,
      hq_Headers = [(''Content-Type'', ''application/json''), (''Accept'', ''application/json'')] @
        (if om_apiKey m \<noteq> [] then [(''Authorization'', ''Bearer '' @ om_apiKey m)] else []),
      hq_Body = marshalOpenAIChatRequest (payloadFields m input) (om_extraBody m)\<rparr>"

text \<open>
  \<open>encodeErr\<close> is the error of \<^verbatim>\<open>marshalOpenAIChatRequest\<close> (documents of the configuration may nest too deeply for the
  decoder once they are part of the body), \<open>buildErr\<close> that of \<^verbatim>\<open>http.NewRequestWithContext\<close>, \<open>jsonErr\<close> that of decoding a
  body that is not a response.
\<close>

definition openAINext ::
  "bool \<Rightarrow> goerr option \<Rightarrow> goerr option \<Rightarrow> goerr \<Rightarrow> OpenAICompatibleModel \<Rightarrow> ModelInput \<Rightarrow> Decision \<times> goerr option" where
  "openAINext ctxNil encodeErr buildErr jsonErr m input =
     (if ctxNil then (zeroDecision, Some (errMsg ErrInvalidRequest ''context is required''))
      else case encodeErr of
        Some err \<Rightarrow> (zeroDecision, Some (Errorf [W (Sentinel ErrModelAdapterConfig), Lit '': encode request: '', V err]))
      | None \<Rightarrow>
      case buildErr of
        Some err \<Rightarrow> (zeroDecision, Some (Errorf [W (Sentinel ErrModelProvider), Lit '': build request: '', W err]))
      | None \<Rightarrow>
      case hc_Do (om_client m) (openAIRequest m input) of
        Inl err \<Rightarrow> (zeroDecision, Some (Errorf [W (Sentinel ErrModelProvider), Lit '': request failed: '', W err]))
      | Inr response \<Rightarrow>
      case hr_ReadError response of
        Some err \<Rightarrow> (zeroDecision, Some (Errorf [W (Sentinel ErrModelProvider), Lit '': read response: '', W err]))
      | None \<Rightarrow>
      let raw = take (maxModelResponseBytes + 1) (hr_Body response) in
      if length raw > maxModelResponseBytes
      then (zeroDecision, Some (responseError [Lit ''response exceeds '', Num (int maxModelResponseBytes), Lit '' bytes'']))
      else if hr_StatusCode response < 200 \<or> hr_StatusCode response \<ge> 300
      then (zeroDecision, Some (HTTPError (hr_StatusCode response) (errorBody raw)))
      else case unmarshalChatResponse raw of
        None \<Rightarrow> (zeroDecision, Some (responseError [Lit ''decode JSON: '', V jsonErr]))
      | Some choices \<Rightarrow> decideResponse choices)"

section \<open>Decisions are well formed\<close>

definition validDecision :: "Decision \<Rightarrow> bool" where
  "validDecision d \<longleftrightarrow>
     d_Kind d \<in> {DecisionFinal, DecisionToolCall} \<and>
     list_all validString (d_Output d # callStrings (d_ToolCall d))"

definition validChatCall :: "openAIChatToolCall \<Rightarrow> bool" where
  "validChatCall call \<longleftrightarrow> list_all validString [oa_ID call, oa_Type call, fc_Name (oa_Function call), fc_Arguments (oa_Function call)]"

definition validChoice :: "chat_choice \<Rightarrow> bool" where
  "validChoice choice \<longleftrightarrow>
     validString (ch_FinishReason choice) \<and> pred_option validString (ch_Content choice) \<and>
     list_all validChatCall (ch_ToolCalls choice)"

lemma preserves_readChatToolCall: "preserves validChatCall readChatToolCall"
proof -
  have "preserves (\<lambda>f. validString (fc_Name f) \<and> validString (fc_Arguments f)) readFunctionCall"
    unfolding readFunctionCall_def
    by (rule preserves_readStruct) (auto intro!: preserves_jsonField [OF preserves_readString])
  then show ?thesis
    unfolding readChatToolCall_def
    by (intro preserves_readStruct)
       (auto simp: validChatCall_def intro!: preserves_jsonField [OF preserves_readString] preserves_jsonField)
qed

lemma preserves_readChoice: "preserves validChoice readChoice"
proof -
  have "preserves (list_all validChatCall) (readSlice readChatToolCall zeroChatToolCall)"
    by (rule preserves_readSlice [OF preserves_readChatToolCall]) (simp add: validChatCall_def zeroChatToolCall_def)
  then have "preserves validChoice (jsonField ch_ToolCalls (\<lambda>v x. x\<lparr>ch_ToolCalls := v\<rparr>) (readSlice readChatToolCall zeroChatToolCall))"
    by (rule preserves_jsonField) (auto simp: validChoice_def)
  moreover have "preserves (pred_option validString) (readPointer readString [])"
    by (rule preserves_readPointer [OF preserves_readString]) simp
  then have "preserves validChoice (jsonField ch_Content (\<lambda>v x. x\<lparr>ch_Content := v\<rparr>) (readPointer readString []))"
    by (rule preserves_jsonField) (auto simp: validChoice_def)
  moreover have "preserves validChoice (jsonField ch_FinishReason (\<lambda>v x. x\<lparr>ch_FinishReason := v\<rparr>) readString)"
    by (rule preserves_jsonField [OF preserves_readString]) (auto simp: validChoice_def)
  ultimately show ?thesis unfolding readChoice_def by (intro preserves_readStruct) (auto intro!: preserves_readStruct)
qed

lemma unmarshalChatResponse_valid: "unmarshalChatResponse d = Some choices \<Longrightarrow> list_all validChoice choices"
proof -
  assume a: "unmarshalChatResponse d = Some choices"
  have z: "validChoice zeroChoice" by (simp add: validChoice_def zeroChoice_def)
  have "preserves (list_all validChoice) readResponse"
    unfolding readResponse_def
    by (rule preserves_readStruct) (auto intro!: preserves_jsonField [OF preserves_readSlice [OF preserves_readChoice z]])
  moreover obtain j where "readResponse j [] = Some choices"
    using a by (auto simp: unmarshalChatResponse_def split: document.splits)
  ultimately show ?thesis unfolding preserves_def by (metis list.pred_inject(1))
qed

lemma decideResponse_cases:
  assumes "list_all validChoice choices"
  shows "case decideResponse choices of
      (d, None) \<Rightarrow> validDecision d
    | (d, Some e) \<Rightarrow> d = zeroDecision \<and> errorsIs e ErrModelResponse"
proof (cases choices)
  case (Cons choice rest)
  have v: "validChoice choice" using assms Cons by simp
  consider (none) "ch_ToolCalls choice = []" | (one) call where "ch_ToolCalls choice = [call]"
    | (many) call call' calls where "ch_ToolCalls choice = call # call' # calls"
    by (metis neq_Nil_conv)
  then show ?thesis
    using v Cons
    by cases (auto simp: decideResponse_def responseError_def validDecision_def validChoice_def validChatCall_def
        zeroToolCall_def split: option.splits)
qed (simp add: decideResponse_def responseError_def)

lemma openAINext_cases:
  "case openAINext ctxNil encodeErr buildErr jsonErr m input of
      (d, None) \<Rightarrow> validDecision d
    | (d, Some e) \<Rightarrow> d = zeroDecision \<and>
        (errorsIs e ErrModelProvider \<or> errorsIs e ErrModelResponse \<or> errorsIs e ErrInvalidRequest \<or> errorsIs e ErrModelAdapterConfig)"
  unfolding openAINext_def Let_def
  by (auto simp: responseError_def split: option.splits sum.splits
      dest!: unmarshalChatResponse_valid decideResponse_cases)

section \<open>Requests carry the whole history\<close>

text \<open>The dialogue that a provider reads off the messages: system prompt, prompt, calls with their results.\<close>

fun readExchanges :: "openAIChatMessage list \<Rightarrow> (ToolCall \<times> string) list" where
  "readExchanges (a # t # rest) =
     (case (cm_ToolCalls a, cm_Content t) of
        ([call], Some result) \<Rightarrow>
          (\<lparr>tc_ID = oa_ID call, tc_Name = fc_Name (oa_Function call), tc_Arguments = fc_Arguments (oa_Function call)\<rparr>,
           result) # readExchanges rest
      | _ \<Rightarrow> [])"
| "readExchanges _ = []"

definition readDialogue :: "openAIChatMessage list \<Rightarrow> string \<times> string \<times> (ToolCall \<times> string) list" where
  "readDialogue msgs =
     (case msgs of
        m1 # rest \<Rightarrow>
          if cm_Role m1 = ''system''
          then (the (cm_Content m1), the (cm_Content (hd rest)), readExchanges (tl rest))
          else ([], the (cm_Content m1), readExchanges rest)
      | [] \<Rightarrow> ([], [], []))"

lemma readExchanges_steps:
  "readExchanges (concat (map stepMessages steps)) = map (\<lambda>s. (sp_Call s, tr_Output (sp_Result s))) steps"
  by (induction steps) (simp_all add: stepMessages_def)

lemma readDialogue_messages:
  "readDialogue (messages m input) =
     (om_systemPrompt m, mi_Prompt input, map (\<lambda>s. (sp_Call s, tr_Output (sp_Result s))) (mi_Steps input))"
  by (simp add: readDialogue_def messages_def readExchanges_steps)

text \<open>The members of an encoded request.\<close>

definition requestField :: "http_request \<Rightarrow> string \<Rightarrow> json option" where
  "requestField req name = (case hq_Body req of JObj members \<Rightarrow> map_of members name | _ \<Rightarrow> None)"

lemma map_of_coerced:
  assumes "list_all (\<lambda>c. byte c < 0x80) name" and "\<And>k. k \<in> set keys \<Longrightarrow> k = name \<Longrightarrow> fs k = Some v"
  shows "map_of (map (\<lambda>k. (coerceUTF8 k, the (fs k))) keys) name = (if name \<in> set keys then Some (the (fs name)) else None)"
  using assms
proof (induction keys)
  case (Cons k keys)
  have "coerceUTF8 k = name \<longleftrightarrow> k = name"
    using coerceUTF8_ascii [of k name] coerceUTF8_valid [OF ascii_valid [OF Cons.prems(1)]] Cons.prems(1) by auto
  with Cons show ?case by auto
qed simp

lemma marshal_owned:
  assumes "name \<in> set reservedFields" and "list_all (\<lambda>(k, j). k \<notin> set reservedFields) extra"
    and "list_all (\<lambda>(k, j). list_all (\<lambda>c. byte c < 0x80) k) payload"
  shows "\<exists>members. marshalOpenAIChatRequest payload extra = JObj members \<and> map_of members name = map_of payload name"
proof (cases "extra = []")
  case False
  let ?fs = "map_of payload ++ map_of extra"
  let ?keys = "sort (remdups (map fst payload @ map fst extra))"
  have a: "list_all (\<lambda>c. byte c < 0x80) name" using assms(1) by (auto simp: reservedFields_def)
  have e: "map_of extra name = None" using assms(1,2) by (auto simp: map_of_eq_None_iff list_all_iff)
  have "name \<in> set ?keys \<longleftrightarrow> map_of payload name \<noteq> None"
    using e by (auto simp: map_of_eq_None_iff)
  with map_of_coerced [OF a, of ?keys ?fs "the (map_of payload name)"] e
  have "map_of (map (\<lambda>k. (coerceUTF8 k, the (?fs k))) ?keys) name = map_of payload name"
    by (auto simp: map_add_def)
  with False show ?thesis by (simp add: marshalOpenAIChatRequest_def Let_def)
qed (simp add: marshalOpenAIChatRequest_def)

lemma checkExtraBody_reserved: "checkExtraBody body = Inr extra \<Longrightarrow> list_all (\<lambda>(k, j). k \<notin> set reservedFields) extra"
  by (induction body arbitrary: extra) (auto split: if_splits document.splits sum.splits)

lemma New_extraBody:
  "NewOpenAICompatibleModel parse render dc config = Inr m \<Longrightarrow> list_all (\<lambda>(k, j). k \<notin> set reservedFields) (om_extraBody m)"
  by (auto simp: NewOpenAICompatibleModel_def Let_def dest: checkExtraBody_reserved split: sum.splits if_splits option.splits)

section \<open>Error bodies\<close>

text \<open>
  The body of a provider error is cut after 4096 bytes, which may be in the middle of a character: here
  4095 ASCII letters are followed by one two-byte character.
\<close>

definition splitBody :: string where
  "splitBody = replicate 4095 (CHR ''a'') @ [CHR 0xC3, CHR 0xA9]"

lemma validString_letters: "validString (replicate n (CHR ''a'') @ s) \<longleftrightarrow> validString s"
  by (induction n) (simp_all add: validString_ASCII)

lemma trimLeftSpace_ascii: "byte c < 0x80 \<Longrightarrow> \<not> isSpace (byte c) \<Longrightarrow> trimLeftSpace (c # s) = c # s"
  by (subst trimLeftSpace.simps) (simp add: decodeRune_def runeWidth_def Let_def)

lemma trimRightSpace_ascii:
  assumes "byte c < 0x80" "\<not> isSpace (byte c)"
  shows "trimRightSpace (s @ [c]) = s @ [c]"
proof -
  have "[1..<Suc (min 4 (length (s @ [c])))] = 1 # [2..<Suc (min 4 (length (s @ [c])))]"
    by (subst upt_conv_Cons) (simp_all add: numeral_2_eq_2)
  then have "decodeLastRune (s @ [c]) = Some (byte c, 1)"
    using assms(1) by (simp add: decodeLastRune_def decodeRune_def runeWidth_def Let_def del: upt_Suc)
  then show ?thesis using assms(2) by (subst trimRightSpace.simps) simp
qed

lemma trimSpace_ascii: "byte c < 0x80 \<Longrightarrow> \<not> isSpace (byte c) \<Longrightarrow> trimSpace [c] = [c]"
  using trimRightSpace_ascii [of c "[]"] by (simp add: trimSpace_def trimLeftSpace_ascii)

lemma trimRightSpace_accent: "trimRightSpace (s @ [CHR 0xC3, CHR 0xA9]) = s @ [CHR 0xC3, CHR 0xA9]"
proof -
  have "decodeLastRune (s @ [CHR 0xC3, CHR 0xA9]) = Some (0xE9, 2)"
    by (simp add: decodeLastRune_def upt_rec nth_append decodeRune_def runeWidth_def secondRange_def contByte_def Let_def)
  then show ?thesis by (subst trimRightSpace.simps) (simp add: isSpace_def)
qed

lemma splitBody_facts:
  "validString splitBody" "errorBody splitBody = replicate 4095 (CHR ''a'') @ [CHR 0xC3]" "\<not> validString (errorBody splitBody)"
proof -
  show v: "validString splitBody"
    unfolding splitBody_def validString_letters
    by (subst validString.simps) (simp add: decodeRune_def runeWidth_def secondRange_def contByte_def Let_def)
  have eq: "splitBody = CHR ''a'' # replicate 4094 (CHR ''a'') @ [CHR 0xC3, CHR 0xA9]"
    by (simp add: splitBody_def numeral_eq_Suc)
  have "trimLeftSpace splitBody = splitBody" by (subst (1 2) eq) (simp add: trimLeftSpace_ascii isSpace_def)
  then have t: "trimSpace splitBody = splitBody"
    by (simp add: trimSpace_def splitBody_def trimRightSpace_accent)
  show e: "errorBody splitBody = replicate 4095 (CHR ''a'') @ [CHR 0xC3]"
    unfolding errorBody_def t Let_def by (simp add: splitBody_def)
  show "\<not> validString (errorBody splitBody)"
    unfolding e validString_letters
    by (subst validString.simps) (simp add: decodeRune_def runeWidth_def secondRange_def contByte_def Let_def)
qed

end
