(* ===== verification/Tool_Adapters.thy ===== *)
theory Tool_Adapters
  imports Json_Codec
begin

text \<open>
  The tool executors around third-party clients: \<^verbatim>\<open>mcp_executor.go\<close> and \<^verbatim>\<open>sandbox_executor.go\<close>. The MCP
  session, the sandbox runtime, their request types and the caller's resolvers are arguments. The text
  that \<^verbatim>\<open>json.Marshal\<close> produces is the tool's output, so it is modelled to the byte.
\<close>

section \<open>The MCP executor\<close>

text \<open>
  A tool result: whether it needs input, the encodings of its content and of its structured content (which
  may fail in the client's types), and its error flag.
\<close>

record mcp_result =
  mx_NeedsInput :: bool
  mx_Content :: "goerr + json"
  mx_StructuredContent :: "goerr + json option"
  mx_IsError :: bool

record 'p MCPToolExecutor =
  mx_caller :: "'p \<Rightarrow> goerr + mcp_result option"
  mx_resolve :: "ToolCall \<Rightarrow> goerr + 'p option"

definition NewMCPToolExecutor ::
  "('p \<Rightarrow> goerr + mcp_result option) option \<Rightarrow> (ToolCall \<Rightarrow> goerr + 'p option) option \<Rightarrow> goerr + 'p MCPToolExecutor" where
  "NewMCPToolExecutor caller resolver =
     (case caller of None \<Rightarrow> Inl (errMsg ErrInvalidRequest ''MCP tool caller is required'') | Some c \<Rightarrow>
      (case resolver of None \<Rightarrow> Inl (errMsg ErrInvalidRequest ''MCP request resolver is required'') | Some r \<Rightarrow>
       Inr \<lparr>mx_caller = c, mx_resolve = r\<rparr>))"

text \<open>\<^verbatim>\<open>MCPToolOutput\<close>\<close>

definition marshalMCPOutput :: "mcp_result \<Rightarrow> goerr + json" where
  "marshalMCPOutput result =
     (case mx_Content result of Inl err \<Rightarrow> Inl err | Inr content \<Rightarrow>
      (case mx_StructuredContent result of Inl err \<Rightarrow> Inl err | Inr structured \<Rightarrow>
       Inr (JObj ([(''content'', content)] @
                  (case structured of None \<Rightarrow> [] | Some j \<Rightarrow> [(''structuredContent'', j)]) @
                  [(''isError'', JBool (mx_IsError result))]))))"

definition mcpExecute :: "('p \<Rightarrow> string) \<Rightarrow> 'p MCPToolExecutor \<Rightarrow> ToolCall \<Rightarrow> string \<times> goerr option" where
  "mcpExecute nameOf e call =
     (case mx_resolve e call of
        Inl err \<Rightarrow> ([], Some (Errorf [Lit ''resolve MCP request for tool '', Quoted (tc_Name call), Lit '': '', W err]))
      | Inr params \<Rightarrow>
      if (case params of None \<Rightarrow> True | Some p \<Rightarrow> nameOf p = [])
      then ([], Some (errMsg ErrInvalidRequest ''MCP tool name is required''))
      else let p = the params in
      case mx_caller e p of
        Inl err \<Rightarrow> ([], Some (Errorf [Lit ''call MCP tool '', Quoted (nameOf p), Lit '': '', W err]))
      | Inr None \<Rightarrow> ([], Some (Errorf [Lit ''call MCP tool '', Quoted (nameOf p), Lit '': nil result'']))
      | Inr (Some result) \<Rightarrow>
      if mx_NeedsInput result
      then ([], Some (Errorf [W (Sentinel ErrMCPInputRequired), Lit '': tool '', Quoted (nameOf p)]))
      else case marshalMCPOutput result of
        Inl err \<Rightarrow> ([], Some (Errorf [Lit ''encode MCP result for tool '', Quoted (nameOf p), Lit '': '', W err]))
      | Inr j \<Rightarrow> (printJSON j, None))"

section \<open>The sandbox executor\<close>

record sandbox_result =
  sx_ExitCode :: int
  sx_Stdout :: string
  sx_Stderr :: string
  sx_OutputTruncated :: bool
  sx_Termination :: string

record 'q SandboxToolExecutor =
  sx_runtime :: "'q \<Rightarrow> goerr + sandbox_result"
  sx_resolve :: "ToolCall \<Rightarrow> goerr + 'q"

definition NewSandboxToolExecutor ::
  "('q \<Rightarrow> goerr + sandbox_result) option \<Rightarrow> (ToolCall \<Rightarrow> goerr + 'q) option \<Rightarrow> goerr + 'q SandboxToolExecutor" where
  "NewSandboxToolExecutor runtime resolver =
     (case runtime of None \<Rightarrow> Inl (errMsg ErrInvalidRequest ''sandbox runtime is required'') | Some r \<Rightarrow>
      (case resolver of None \<Rightarrow> Inl (errMsg ErrInvalidRequest ''sandbox request resolver is required'') | Some res \<Rightarrow>
       Inr \<lparr>sx_runtime = r, sx_resolve = res\<rparr>))"

text \<open>\<^verbatim>\<open>SandboxToolOutput\<close>; its encoding cannot fail.\<close>

definition marshalSandboxOutput :: "sandbox_result \<Rightarrow> json" where
  "marshalSandboxOutput result =
     JObj [(''exit_code'', JNum (sx_ExitCode result)), (''stdout'', JStr (sx_Stdout result)),
           (''stderr'', JStr (sx_Stderr result)), (''output_truncated'', JBool (sx_OutputTruncated result)),
           (''termination'', JStr (sx_Termination result))]"

text \<open>\<^verbatim>\<open>json.Unmarshal\<close> of a tool's output into a zero \<^verbatim>\<open>SandboxToolOutput\<close>, as clients of the executor do.\<close>

definition readSandboxOutput :: "sandbox_result reader" where
  "readSandboxOutput = readStruct
     [(''exit_code'', jsonField sx_ExitCode (\<lambda>v x. x\<lparr>sx_ExitCode := v\<rparr>) (readInt fitsInt64)),
      (''stdout'', jsonField sx_Stdout (\<lambda>v x. x\<lparr>sx_Stdout := v\<rparr>) readString),
      (''stderr'', jsonField sx_Stderr (\<lambda>v x. x\<lparr>sx_Stderr := v\<rparr>) readString),
      (''output_truncated'', jsonField sx_OutputTruncated (\<lambda>v x. x\<lparr>sx_OutputTruncated := v\<rparr>) readBool),
      (''termination'', jsonField sx_Termination (\<lambda>v x. x\<lparr>sx_Termination := v\<rparr>) readString)]"

definition unmarshalSandboxOutput :: "string \<Rightarrow> sandbox_result option" where
  "unmarshalSandboxOutput data =
     (case parseJSON data of
        Malformed \<Rightarrow> None
      | Doc j \<Rightarrow> readSandboxOutput j \<lparr>sx_ExitCode = 0, sx_Stdout = [], sx_Stderr = [], sx_OutputTruncated = False, sx_Termination = []\<rparr>)"

definition sandboxExecute :: "('q \<Rightarrow> goerr option) \<Rightarrow> 'q SandboxToolExecutor \<Rightarrow> ToolCall \<Rightarrow> string \<times> goerr option" where
  "sandboxExecute validate e call =
     (case sx_resolve e call of
        Inl err \<Rightarrow> ([], Some (Errorf [Lit ''resolve sandbox request for tool '', Quoted (tc_Name call), Lit '': '', W err]))
      | Inr req \<Rightarrow>
      case validate req of
        Some err \<Rightarrow> ([], Some (Errorf [Lit ''validate sandbox request for tool '', Quoted (tc_Name call), Lit '': '', W err]))
      | None \<Rightarrow>
      case sx_runtime e req of
        Inl err \<Rightarrow> ([], Some (Errorf [Lit ''execute sandbox tool '', Quoted (tc_Name call), Lit '': '', W err]))
      | Inr result \<Rightarrow> (printJSON (marshalSandboxOutput result), None))"

section \<open>Encoded text is valid UTF-8\<close>

lemma validString_append: "validString a \<Longrightarrow> validString b \<Longrightarrow> validString (a @ b)"
proof (induction a rule: validString.induct)
  case (1 a)
  show ?case
  proof (cases "a = []")
    case False
    with "1.prems"(1) obtain r w where d: "decodeRune a = Some (r, w)" "validString (drop w a)"
      by (subst (asm) validString.simps) (auto split: option.splits)
    have "take w a @ drop w a @ b = a @ b" by (simp add: append_assoc [symmetric] del: append_assoc)
    with decodeRune_prefix [OF d(1), of "drop w a @ b"] have "decodeRune (a @ b) = Some (r, w)" by simp
    moreover have "drop w (a @ b) = drop w a @ b" using decodeRune_width [OF d(1)] by simp
    ultimately show ?thesis
      using "1.IH" [OF d(1) refl d(2) "1.prems"(2)] False by (subst validString.simps) simp
  qed (use "1.prems" in simp)
qed

lemma ascii_quoted: "list_all (\<lambda>c. byte c < 0x80) (CHR 0x5C # ''ufffd'')"
  by simp

lemma hexDigit_ascii: "n < 16 \<Longrightarrow> byte (hexDigit n) < 0x80"
  using nth_mem [of n "''0123456789abcdef''"] by (auto simp: hexDigit_def)

lemma escapeASCII_valid:
  assumes "byte c < 0x80"
  shows "validString (escapeASCII c)"
proof (rule ascii_valid)
  have "byte c div 16 < 16" "byte c mod 16 < 16" using assms by auto
  then show "list_all (\<lambda>c. byte c < 0x80) (escapeASCII c)"
    using assms by (simp add: escapeASCII_def Let_def hexDigit_ascii)
qed

lemma rune_valid: "decodeRune s = Some (r, w) \<Longrightarrow> validString (take w s)"
  using decodeRune_prefix [of s r w "[]"] by (subst validString.simps) simp

lemma quoteJSONBody_valid: "validString (quoteJSONBody s)"
proof (induction s rule: quoteJSONBody.induct)
  case (1 s)
  show ?case
  proof (cases s)
    case (Cons c t)
    show ?thesis
    proof (cases "decodeRune s")
      case None
      with "1.IH"(1) [OF Cons None] Cons ascii_valid [OF ascii_quoted] show ?thesis
        by (subst quoteJSONBody.simps) (simp add: validString_append [of "CHR 0x5C # ''ufffd''", simplified])
    next
      case (Some rw)
      obtain r w where rw: "rw = (r, w)" by force
      have "validString (if byte c < 0x80 then escapeASCII c
              else if r = 0x2028 \<or> r = 0x2029 then CHR 0x5C # ''u202'' @ [hexDigit (r mod 16)]
              else take w s)"
        using Some rw Cons escapeASCII_valid rune_valid by (auto intro!: ascii_valid simp: hexDigit_ascii)
      from validString_append [OF this "1.IH"(2) [OF Cons Some rw [symmetric]]] Some rw Cons show ?thesis
        by (subst quoteJSONBody.simps) simp
    qed
  qed (simp add: quoteJSONBody.simps)
qed

lemma quoteJSON_valid: "validString (quoteJSON s)"
  unfolding quoteJSON_def by (intro validString_append quoteJSONBody_valid ascii_valid) simp_all

text \<open>Numbers are ASCII text.\<close>

fun numbersASCII :: "json \<Rightarrow> bool" where
  "numbersASCII (JFrac s) = list_all (\<lambda>c. byte c < 0x80) s"
| "numbersASCII (JArr js) = list_all numbersASCII js"
| "numbersASCII (JObj ms) = list_all (\<lambda>(k, j). numbersASCII j) ms"
| "numbersASCII _ = True"

lemma natDecimal_ascii: "list_all (\<lambda>c. byte c < 0x80) (natDecimal n)"
proof (induction n rule: natDecimal.induct)
  case (1 n)
  have d: "byte (''0123456789'' ! k) < 0x80" if "k < 10" for k
    using nth_mem [of k "''0123456789''"] that by auto
  with 1 show ?case by (subst natDecimal.simps) (simp add: d)
qed

lemma decimal_valid: "validString (decimal n)"
  using natDecimal_ascii by (intro ascii_valid) (simp add: decimal_def)

lemma printJSON_valid:
  "numbersASCII j \<Longrightarrow> validString (printJSON j)"
  "list_all numbersASCII js \<Longrightarrow> validString (printElements js)"
  "list_all (\<lambda>(k, j). numbersASCII j) ms \<Longrightarrow> validString (printMembers ms)"
proof (induction j and js and ms rule: printJSON_printElements_printMembers.induct)
  case (2 b)
  then show ?case by (cases b) (auto intro!: ascii_valid)
next
  case (4 s)
  then show ?case by (auto intro: ascii_valid)
next
  case (10 j j' js)
  then show ?case by (auto intro!: validString_append simp: validString_ASCII)
next
  case (12 k j)
  then show ?case by (auto intro!: validString_append quoteJSON_valid simp: validString_ASCII)
next
  case (13 k j m ms)
  then show ?case by (auto intro!: validString_append quoteJSON_valid simp: validString_ASCII)
qed (auto intro!: validString_append decimal_valid quoteJSON_valid simp: validString_ASCII)

text \<open>A result whose content is plain JSON.\<close>

definition plainResult :: "mcp_result \<Rightarrow> bool" where
  "plainResult result \<longleftrightarrow>
     (\<forall>j. mx_Content result = Inr j \<longrightarrow> numbersASCII j) \<and>
     (\<forall>j. mx_StructuredContent result = Inr (Some j) \<longrightarrow> numbersASCII j)"

lemma mcp_output_valid:
  assumes "\<And>p result. mx_caller e p = Inr (Some result) \<Longrightarrow> plainResult result"
    and "mcpExecute nameOf e call = (out, None)"
  shows "validString out"
proof -
  from assms(2) obtain p result j where "mx_caller e p = Inr (Some result)" "marshalMCPOutput result = Inr j" "out = printJSON j"
    by (auto simp: mcpExecute_def Let_def split: sum.splits option.splits if_splits)
  with assms(1) [of p result] show ?thesis
    by (auto simp: marshalMCPOutput_def plainResult_def intro!: printJSON_valid(1) split: sum.splits option.splits)
qed

lemma sandbox_output_valid: "sandboxExecute validate e call = (out, None) \<Longrightarrow> validString out"
  using printJSON_valid(1) [of "marshalSandboxOutput result" for result]
  by (auto simp: sandboxExecute_def marshalSandboxOutput_def simp del: printJSON.simps split: sum.splits option.splits)

section \<open>Sandbox output decodes to the result\<close>

definition coercedResult :: "sandbox_result \<Rightarrow> sandbox_result" where
  "coercedResult r = r\<lparr>sx_Stdout := coerceUTF8 (sx_Stdout r), sx_Stderr := coerceUTF8 (sx_Stderr r),
     sx_Termination := coerceUTF8 (sx_Termination r)\<rparr>"

lemma unmarshal_sandbox:
  assumes "fitsInt64 (sx_ExitCode result)"
  shows "unmarshalSandboxOutput (printJSON (marshalSandboxOutput result)) = Some (coercedResult result)"
proof -
  have "parseJSON (printJSON (marshalSandboxOutput result)) = Doc (coercedJSON (marshalSandboxOutput result))"
    by (rule parse_print) (simp_all add: marshalSandboxOutput_def maxNestingDepth_def)
  with assms show ?thesis
    by (simp add: unmarshalSandboxOutput_def marshalSandboxOutput_def readSandboxOutput_def readStruct_def findField_def jsonField_def
        readString_def readBool_def coerceUTF8_valid validString_ASCII coercedResult_def)
qed

lemma sandbox_output_decodes:
  assumes "sandboxExecute validate e call = (out, None)"
  obtains req result where "sx_resolve e call = Inr req" "validate req = None" "sx_runtime e req = Inr result"
    "fitsInt64 (sx_ExitCode result) \<longrightarrow> unmarshalSandboxOutput out = Some (coercedResult result)"
  using assms unmarshal_sandbox by (auto simp: sandboxExecute_def split: sum.splits option.splits)

end
