(* ===== verification/Adapter_Guarantees.thy ===== *)
theory Adapter_Guarantees
  imports OpenAI_Model Tool_Adapters
begin

text \<open>
  What the adapters guarantee to the runtime: the model adapter for chat-completions providers and the
  tool executors for MCP sessions and sandboxes.
\<close>

section \<open>Concrete adapters\<close>

definition demoParse :: "string \<Rightarrow> goerr + URL" where
  "demoParse s = Inr \<lparr>url_Scheme = ''https'', url_Host = ''api.example'', url_Path = ''/v1/'', url_RawQuery = [], url_Fragment = []\<rparr>"

definition demoClient :: http_client where
  "demoClient = \<lparr>hc_FollowsRedirects = True, hc_Do = (\<lambda>req. Inl (Sentinel ContextCanceled))\<rparr>"

definition demoConfig :: OpenAICompatibleModelConfig where
  "demoConfig = \<lparr>cf_BaseURL = ''b'', cf_APIKey = ''key'', cf_Model = ''m'', cf_SystemPrompt = [],
     cf_Tools = [], cf_ExtraBody = [(''t'', ''0'')], cf_HTTPClient = None\<rparr>"

definition demoChat :: OpenAICompatibleModel where
  "demoChat = \<lparr>om_endpoint = ''https://api.example/v1/chat/completions'', om_apiKey = ''key'', om_model = ''m'',
     om_systemPrompt = [], om_tools = [], om_extraBody = [(''t'', JNum 0)],
     om_client = \<lparr>hc_FollowsRedirects = False, hc_Do = (\<lambda>req. Inl (Sentinel ContextCanceled))\<rparr>\<rparr>"

definition demoInput :: ModelInput where
  "demoInput = \<lparr>mi_Prompt = ''2+2?'', mi_Steps = []\<rparr>"

lemma demo_new:
  "NewOpenAICompatibleModel demoParse (\<lambda>u. url_Scheme u @ ''://'' @ url_Host u @ url_Path u) demoClient demoConfig = Inr demoChat"
proof -
  have "parseJSON ''0'' = Doc (JNum 0)" by code_simp
  then show ?thesis
    by (simp add: NewOpenAICompatibleModel_def chatCompletionsEndpoint_def demoConfig_def demoParse_def demoChat_def
        demoClient_def trimSpace_ascii isSpace_def trimRightSlash_def reservedFields_def)
qed



section \<open>Properties\<close>



text \<open>
  C37. For every response of a provider, the adapter returns either a final or a tool-call decision all of whose
  strings are valid UTF-8, or the zero decision with an error that wraps the provider, the response,
  the request or the configuration sentinel; it never returns a decision beside an error.
\<close>

theorem model_answers_are_sound:
  "case openAINext ctxNil encodeErr buildErr jsonErr m input of
      (d, None) \<Rightarrow> validDecision d
    | (d, Some e) \<Rightarrow> d = zeroDecision \<and>
        (errorsIs e ErrModelProvider \<or> errorsIs e ErrModelResponse \<or> errorsIs e ErrInvalidRequest \<or> errorsIs e ErrModelAdapterConfig)"
  by (rule openAINext_cases)

text \<open>
  The request carries the whole history: from the messages a provider receives it can read back the system
  prompt, the prompt and every tool call with its identifier, name, arguments and result, in order.
\<close>

lemma messages_roundtrip:
  "readDialogue (messages m input) =
     (om_systemPrompt m, mi_Prompt input, map (\<lambda>s. (sp_Call s, tr_Output (sp_Result s))) (mi_Steps input))"
  by (rule readDialogue_messages)

text \<open>
  C39. Configuration cannot subvert a request: for a model built by \<^verbatim>\<open>NewOpenAICompatibleModel\<close>, whatever its extra
  body, the fields model, messages and tools are the adapter's own and stream is absent, and with an
  API key the endpoint is HTTPS and redirects are not followed.
\<close>

theorem request_is_adapter_owned:
  assumes "NewOpenAICompatibleModel parse render dc config = Inr m"
  shows "requestField (openAIRequest m input) ''model'' = Some (jsonString (cf_Model config)) \<and>
    requestField (openAIRequest m input) ''messages'' = Some (JArr (map jsonChatMessage (messages m input))) \<and>
    requestField (openAIRequest m input) ''tools'' = (if om_tools m = [] then None else Some (JArr (map jsonChatTool (om_tools m)))) \<and>
    requestField (openAIRequest m input) ''stream'' = None \<and>
    (cf_APIKey config = [] \<or> \<not> hc_FollowsRedirects (om_client m) \<and>
       (\<exists>u. parse (hq_URL (openAIRequest m input)) = Inr u \<and> url_Scheme u = ''https''))"
proof -
  have p: "list_all (\<lambda>(k, j). list_all (\<lambda>c. byte c < 0x80) k) (payloadFields m input)" by (simp add: payloadFields_def)
  have f: "requestField (openAIRequest m input) name = map_of (payloadFields m input) name"
    if "name \<in> set reservedFields" for name
    using marshal_owned [OF that New_extraBody [OF assms] p] by (auto simp: requestField_def openAIRequest_def)
  have "om_model m = cf_Model config"
    using assms by (auto simp: NewOpenAICompatibleModel_def Let_def split: sum.splits if_splits option.splits)
  moreover have "cf_APIKey config = [] \<or> \<not> hc_FollowsRedirects (om_client m) \<and>
       (\<exists>u. parse (om_endpoint m) = Inr u \<and> url_Scheme u = ''https'')"
    using assms by (auto simp: NewOpenAICompatibleModel_def Let_def split: sum.splits if_splits option.splits)
  ultimately show ?thesis
    using f [of "''model''"] f [of "''messages''"] f [of "''tools''"] f [of "''stream''"]
    by (auto simp: reservedFields_def payloadFields_def openAIRequest_def)
qed

theorem request_is_adapter_owned_witness:
  "requestField (openAIRequest demoChat demoInput) ''model'' = Some (jsonString ''m'') \<and>
   requestField (openAIRequest demoChat demoInput) ''stream'' = None \<and> \<not> hc_FollowsRedirects (om_client demoChat)"
  using request_is_adapter_owned [OF demo_new, of demoInput] by (simp add: demoConfig_def)

text \<open>
  C40. The body of a provider error is cut at a byte count, not at a character: there is an error response with a
  valid UTF-8 body after which the adapter's error makes every terminal checkpoint that records it fail
  validation, so that the failed execution is never stored as failed.
\<close>

theorem provider_error_defeats_checkpoint:
  "\<exists>response. validString (hr_Body response) \<and>
     (\<forall>m input jsonErr tb cp.
        case openAINext False None None jsonErr (m\<lparr>om_client := \<lparr>hc_FollowsRedirects = False, hc_Do = (\<lambda>req. Inr response)\<rparr>\<rparr>) input of
          (d, None) \<Rightarrow> False
        | (d, Some e) \<Rightarrow> validateCheckpoint (cp\<lparr>cp_Error := errorText tb (Errorf [Lit ''model step: '', W e])\<rparr>) \<noteq> None)"
proof -
  define response where "response = \<lparr>hr_StatusCode = 500, hr_Body = splitBody, hr_ReadError = None\<rparr>"
  have small: "length splitBody = 4097" by (simp add: splitBody_def)
  have next500: "openAINext False None None jsonErr (m\<lparr>om_client := \<lparr>hc_FollowsRedirects = False, hc_Do = (\<lambda>req. Inr response)\<rparr>\<rparr>) input =
      (zeroDecision, Some (HTTPError 500 (errorBody splitBody)))" for jsonErr m input
    using small by (simp add: openAINext_def response_def maxModelResponseBytes_def)
  have "\<not> validString (''model step: model provider error: HTTP 500: '' @ errorBody splitBody)"
    using splitBody_facts(3) by (simp add: validString_ASCII)
  moreover have "errorText tb (Errorf [Lit ''model step: '', W (HTTPError 500 (errorBody splitBody))]) =
      ''model step: model provider error: HTTP 500: '' @ errorBody splitBody" for tb
  proof -
    have "decimal 500 = ''500''" by code_simp
    then show ?thesis by (simp add: httpErrorText_def splitBody_facts(2))
  qed
  ultimately have "\<not> validString (errorText tb (Errorf [Lit ''model step: '', W (HTTPError 500 (errorBody splitBody))]))" for tb
    by metis
  then have "validateCheckpoint (cp\<lparr>cp_Error := errorText tb (Errorf [Lit ''model step: '', W (HTTPError 500 (errorBody splitBody))])\<rparr>) \<noteq> None"
    for tb cp
    unfolding validateCheckpoint_iff by (auto simp: wfCheckpoint_def checkpointStrings_def)
  with next500 splitBody_facts(1) show ?thesis by (intro exI [of _ response]) (simp add: response_def)
qed

end
