(* ===== verification/Progress.thy ===== *)
theory Progress
  imports World_Invariants
begin

text \<open>
  What a call of \<^verbatim>\<open>run\<close> achieves, not only what it avoids. \<open>dialogue\<close> is the agent loop a reader of the API has
  in mind: ask the model with the steps so far, run the tool it asks for, stop at a final answer. When
  model and tools answer, the caller does not cancel and no write or renewal is refused, \<^verbatim>\<open>run\<close> performs
  exactly this dialogue and returns its answer.
\<close>

section \<open>The dialogue\<close>

fun dialogue ::
  "(ModelInput \<Rightarrow> Decision option) \<Rightarrow> (ToolCall \<Rightarrow> string option) \<Rightarrow> string \<Rightarrow> nat \<Rightarrow> Step list \<Rightarrow> (Step list \<times> string) option" where
  "dialogue model tool prompt 0 steps = None"
| "dialogue model tool prompt (Suc attempts) steps =
     (case model \<lparr>mi_Prompt = prompt, mi_Steps = steps\<rparr> of
        None \<Rightarrow> None
      | Some d \<Rightarrow>
          if Validate d \<noteq> None then None
          else if d_Kind d = DecisionFinal then Some (steps, d_Output d)
          else if tc_ID (d_ToolCall d) \<in> stepID ` set steps then None
          else case tool (d_ToolCall d) of
            None \<Rightarrow> None
          | Some out \<Rightarrow> dialogue model tool prompt attempts (steps @ [completedStep steps (d_ToolCall d) out]))"

text \<open>
  Callbacks that answer as \<open>model\<close> and \<open>tool\<close> do wherever these are defined, a caller that does not cancel, a store that
  fits the token.
\<close>

definition cooperative :: "('s, 'o) session \<Rightarrow> (ModelInput \<Rightarrow> Decision option) \<Rightarrow> (ToolCall \<Rightarrow> string option) \<Rightarrow> bool" where
  "cooperative X model tool \<longleftrightarrow>
     (\<exists>m. rt_model (ss_rt X) = BaseModel m \<and> (\<forall>t inp d. model inp = Some d \<longrightarrow> m t inp = Some (d, None))) \<and>
     (\<forall>call out. tool call = Some out \<longrightarrow>
        (\<exists>ops. rt_tools (ss_rt X) = Some (BaseTools ops) \<and> (\<forall>t. to_Execute ops t call = Some (out, None)))) \<and>
     (\<forall>t. en_ctx (ss_env X) t = None) \<and>
     (ss_token X \<noteq> 0 \<longrightarrow> (\<forall>st. rt_store (ss_rt X) = Some st \<longrightarrow> st_Fenced st \<noteq> None))"

section \<open>Refused writes and renewals\<close>

fun refusal :: "effect \<Rightarrow> bool" where
  "refusal (Wrote create cp tok (Some e)) = True"
| "refusal (Renewed tok (Some e)) = True"
| "refusal _ = False"

definition refusedSince :: "nat \<Rightarrow> ('s, 'o, 'z) world_scheme \<Rightarrow> bool" where
  "refusedSince l s \<longleftrightarrow> list_ex refusal (drop l (w_log s))"

interpretation refused: world_invariant X initial "refusedSince l" for X initial l
proof (unfold_locales, goal_cases)
  case (1 s)
  then show ?case using passTime_log [of X s] by (auto simp: refusedSince_def)
qed (auto simp: refusedSince_def emit_def)

text \<open>Without a store nothing can be refused.\<close>

interpretation storeless: world_invariant X initial "\<lambda>s. rt_store (ss_rt X) = None \<longrightarrow> \<not> refusedSince l s" for X initial l
  by unfold_locales (auto simp: refusedSince_def emit_def passTime_def renewStep_def Let_def drop_Cons' elim!: isCallback.elims)

lemma refused_observe: "refusedSince l s \<Longrightarrow> refusedSince l (observe X ev s)"
  for s :: "('s, 'o) rstate"
proof (cases "rt_observer (ss_rt X)")
  case (Some obs)
  assume "refusedSince l s"
  then have "refusedSince l (emit (Observed ev) (s\<lparr>w_obs := deliverObserver obs ev (w_obs s)\<rparr>))"
    by (simp add: refusedSince_def)
  from refused.passTime [OF this] Some show ?thesis by (simp add: observe_def)
qed (simp add: observe_def)

lemma refused_observeTerminal: "refusedSince l s \<Longrightarrow> refusedSince l (observeTerminal X initial t0 res err s)"
  by (simp add: observeTerminal_def Let_def refused_observe)

text \<open>A statement that a refusal excuses; as long as there is none the context is live.\<close>

definition unless :: "nat \<Rightarrow> (('s, 'o) rstate \<Rightarrow> bool) \<Rightarrow> ('s, 'o) rstate \<Rightarrow> bool" where
  "unless l Q s \<longleftrightarrow> refusedSince l s \<or> (l \<le> length (w_log s) \<and> w_done s = None \<and> Q s)"

lemma triple_unless:
  assumes "steady (refusedSince l) m"
    and "\<And>s. l \<le> length (w_log s) \<Longrightarrow> w_done s = None \<Longrightarrow> P s \<Longrightarrow>
      (case m s of (s', Go x) \<Rightarrow> unless l (Q x) s' | (s', Ret r) \<Rightarrow> unless l (R r) s' | (s', Panic) \<Rightarrow> unless l C s')"
  shows "triple (unless l P) m (\<lambda>x. unless l (Q x)) (\<lambda>r. unless l (R r)) (unless l C)"
  unfolding triple_def
proof (intro allI impI)
  fix s
  assume "unless l P s"
  then show "case m s of (s', Go x) \<Rightarrow> unless l (Q x) s' | (s', Ret r) \<Rightarrow> unless l (R r) s' | (s', Panic) \<Rightarrow> unless l C s'"
    unfolding unless_def [of l P]
  proof
    assume "refusedSince l s"
    with assms(1) have "refusedSince l (fst (m s))" by (simp add: steady_def)
    then show ?thesis by (auto simp: unless_def split: prod.splits flow.splits)
  next
    assume "l \<le> length (w_log s) \<and> w_done s = None \<and> P s"
    then show ?thesis by (intro assms(2)) simp_all
  qed
qed

section \<open>The operations of the loop\<close>

text \<open>The local variables that matter for the dialogue.\<close>

definition standsAt :: "execution \<Rightarrow> int \<Rightarrow> Step list \<Rightarrow> ('s, 'o) rstate \<Rightarrow> bool" where
  "standsAt ex it steps s \<longleftrightarrow> r_exec s = ex \<and> r_iterations s = it \<and> r_steps s = steps \<and> \<not> r_storeFailed s"

lemma standsAt_sameLocals: "standsAt ex it steps s \<Longrightarrow> sameLocals s t \<Longrightarrow> standsAt ex it steps t"
  by (simp add: standsAt_def sameLocals_def)

lemma unless_passTime:
  assumes "cooperative X model tool" and "unless l (standsAt ex it steps) s"
  shows "unless l (standsAt ex it steps) (passTime X s)"
proof (cases "refusedSince l s")
  case True
  then show ?thesis by (simp add: unless_def refused.passTime)
next
  case False
  with assms(2) have s: "l \<le> length (w_log s)" "w_done s = None" "standsAt ex it steps s" by (auto simp: unless_def)
  have "refusedSince l (passTime X s) \<or> l \<le> length (w_log (passTime X s)) \<and> w_done (passTime X s) = None"
    using s(1,2) assms(1)
    by (auto simp: cooperative_def passTime_def renewStep_def emit_def refusedSince_def Let_def
        split: option.splits prod.splits)
  with standsAt_sameLocals [OF s(3) sameLocals_passTime] show ?thesis by (auto simp: unless_def)
qed

lemma unless_emit:
  assumes "unless l (standsAt ex it steps) s"
  shows "unless l (standsAt ex it steps) (emit e (s\<lparr>w_obs := b\<rparr>))" "unless l (standsAt ex it steps) (emit e s)"
  using assms by (auto simp: unless_def standsAt_def emit_def refusedSince_def)

lemma unless_observe:
  assumes "cooperative X model tool" and "unless l (standsAt ex it steps) s"
  shows "unless l (standsAt ex it steps) (observe X ev s)"
  using assms by (auto simp: observe_def split: option.splits intro: unless_passTime unless_emit)

lemma persist_unless:
  assumes "cooperative X model tool" and "l \<le> length (w_log s)" and "w_done s = None" and "standsAt ex it steps s"
    and p: "persist X initial current cause create s = (s', r)"
  shows "unless l (standsAt ex it steps) s'" and "r \<noteq> None \<Longrightarrow> refusedSince l s'"
proof -
  have "unless l (standsAt ex it steps) s' \<and> (r \<noteq> None \<longrightarrow> refusedSince l s')"
  proof (cases "rt_store (ss_rt X)")
    case None
    with assms show ?thesis by (auto simp: persist_def unless_def)
  next
    case (Some st)
    have "\<exists>cp ans. writeCheckpoint X st (assembleCheckpoint X initial current cause s) create s = finishWrite X create cp ans s"
      using assms(1,3) Some
      by (cases "ss_token X = 0")
         (auto simp: writeCheckpoint_def leaseLost_def cooperative_def Let_def simp del: split_paired_Ex,
          (rule exI, rule exI, rule refl)+)
    then obtain cp st' a where w: "writeCheckpoint X st (assembleCheckpoint X initial current cause s) create s =
        (passTime X (emit (Wrote create cp (ss_token X) a) (s\<lparr>w_store := st'\<rparr>)), map_option (storeError (cp_ExecutionID cp)) a)"
      by (auto simp: finishWrite_def)
    let ?e = "emit (Wrote create cp (ss_token X) a) (s\<lparr>w_store := st'\<rparr>)"
    show ?thesis
    proof (cases a)
      case None
      have "unless l (standsAt ex it steps) ?e"
        using assms(2-4) by (auto simp: unless_def standsAt_def emit_def)
      from unless_passTime [OF assms(1) this] p w Some None show ?thesis
        by (auto simp: persist_def unless_def standsAt_def refusedSince_def)
    next
      case e: (Some e)
      have "refusedSince l ?e" using assms(2) e by (simp add: refusedSince_def emit_def)
      from refused.passTime [OF this] p w Some e show ?thesis
        by (auto simp: persist_def unless_def refusedSince_def)
    qed
  qed
  then show "unless l (standsAt ex it steps) s'" and "r \<noteq> None \<Longrightarrow> refusedSince l s'" by blast+
qed

lemma progress_checkContext: "triple (unless l P) checkContext (\<lambda>_. unless l P) (\<lambda>r. unless l (R r)) (unless l C)"
  by (rule triple_unless [OF refused.steady_pieces(2)])
     (simp add: checkContext_def reads_def executionContextErr_def pass_def unless_def)

lemma progress_save:
  assumes "cooperative X model tool"
  shows "triple (unless l (standsAt ex it steps)) (save X initial) (\<lambda>_. unless l (standsAt ex it steps)) (\<lambda>r. unless l (R r)) (unless l C)"
proof (rule triple_unless [OF refused.steady_pieces(3)])
  fix s :: "('a, 'b) rstate"
  assume s: "l \<le> length (w_log s)" "w_done s = None" "standsAt ex it steps s"
  obtain s' r where p: "persist X initial (snapshot (r_exec s) (r_steps s) []) None False s = (s', r)" by force
  from persist_unless [OF assms s p] p
  show "case save X initial s of (s', Go x) \<Rightarrow> unless l (standsAt ex it steps) s' | (s', Ret r) \<Rightarrow> unless l (R r) s'
      | (s', Panic) \<Rightarrow> unless l C s'"
    by (cases r) (auto simp: save_def unless_def)
qed

lemma triple_advance:
  assumes "transition ex st = (ex', None)"
  shows "triple (unless l (standsAt ex it steps)) (advance st) (\<lambda>_. unless l (standsAt ex' it steps)) (\<lambda>r. unless l (R r)) (unless l C)"
  by (rule triple_unless [OF refused.steady_pieces(4)])
     (use assms in \<open>auto simp: advance_def unless_def standsAt_def\<close>)

lemma progress_callModel:
  assumes "cooperative X model tool" and d: "model \<lparr>mi_Prompt = rq_Prompt (cp_Request initial), mi_Steps = steps\<rparr> = Some d"
  shows "triple (unless l (standsAt ex it steps)) (callModel X initial)
    (\<lambda>a. unless l (\<lambda>s. standsAt ex it steps s \<and> a = (d, None)))
    (\<lambda>r. unless l (R r)) (unless l C)"
proof (rule triple_unless [OF refused.steady_callModel])
  fix s :: "('a, 'b) rstate"
  assume s: "l \<le> length (w_log s)" "w_done s = None" "standsAt ex it steps s"
  let ?s1 = "observe X (plainEvent EventModelStarted (rq_ExecutionID (cp_Request initial)) StatusRunningModel (r_iterations s)) s"
  let ?inp = "\<lparr>mi_Prompt = rq_Prompt (cp_Request initial), mi_Steps = steps\<rparr>"
  have s1: "unless l (standsAt ex it steps) ?s1"
    by (rule unless_observe [OF assms(1)]) (simp add: unless_def s)
  have steps: "cloneSteps (r_steps ?s1) = steps"
    using s(3) sameLocals_observe [of s X] by (simp add: standsAt_def sameLocals_def cloneSteps_def)
  obtain m where m: "rt_model (ss_rt X) = BaseModel m" "\<And>t. m t ?inp = Some (d, None)"
    using assms by (auto simp: cooperative_def)
  have "unless l (standsAt ex it steps) (observe X ev (passTime X (emit (ModelCalled ?inp) ?s1)))" for ev
    by (intro unless_observe [OF assms(1)] unless_passTime [OF assms(1)] unless_emit s1)
  with m steps show "case callModel X initial s of
      (s', Go a) \<Rightarrow> unless l (\<lambda>s. standsAt ex it steps s \<and> a = (d, None)) s'
    | (s', Ret r) \<Rightarrow> unless l (R r) s' | (s', Panic) \<Rightarrow> unless l C s'"
    by (simp add: callModel_def Let_def)
qed

lemma progress_callTool:
  assumes "cooperative X model tool" and "rt_tools (ss_rt X) = Some tools" and "tool call = Some out"
  shows "triple (unless l (standsAt ex it steps)) (callTool X initial tools call)
    (\<lambda>a. unless l (\<lambda>s. standsAt ex it steps s \<and> a = (out, None))) (\<lambda>r. unless l (R r)) (unless l C)"
proof (rule triple_unless [OF refused.steady_callTool])
  fix s :: "('a, 'b) rstate"
  assume s: "l \<le> length (w_log s)" "w_done s = None" "standsAt ex it steps s"
  let ?s1 = "observe X (toolEvent EventToolStarted (rq_ExecutionID (cp_Request initial)) (r_iterations s) call) s"
  have s1: "unless l (standsAt ex it steps) ?s1"
    by (rule unless_observe [OF assms(1)]) (simp add: unless_def s)
  obtain ops where m: "tools = BaseTools ops" "\<And>t. to_Execute ops t call = Some (out, None)"
    using assms unfolding cooperative_def by (metis option.inject)
  have "unless l (standsAt ex it steps) (observe X ev (passTime X (emit (ToolExecuted call) ?s1)))" for ev
    by (intro unless_observe [OF assms(1)] unless_passTime [OF assms(1)] unless_emit s1)
  with m show "case callTool X initial tools call s of
      (s', Go a) \<Rightarrow> unless l (\<lambda>s. standsAt ex it steps s \<and> a = (out, None)) s'
    | (s', Ret r) \<Rightarrow> unless l (R r) s' | (s', Panic) \<Rightarrow> unless l C s'"
    by (simp add: callTool_def Let_def)
qed

lemma triple_change:
  assumes "\<And>s. standsAt ex it steps s \<Longrightarrow> standsAt ex' it' steps' (f s)" and "\<And>s. w_log (f s) = w_log s" "\<And>s. w_done (f s) = w_done s"
  shows "triple (unless l (standsAt ex it steps)) (modify f) (\<lambda>_. unless l (standsAt ex' it' steps')) (\<lambda>r. unless l (R r)) (unless l C)"
  using assms by (intro triple_modify) (auto simp: unless_def refusedSince_def)

text \<open>A fact about the values at hand, and values that are only known to exist.\<close>

lemma triple_unless_if:
  assumes "steady (refusedSince l) m"
    and "\<phi> \<Longrightarrow> triple (unless l P) m (\<lambda>x. unless l (Q x)) (\<lambda>r. unless l (R r)) (unless l C)"
  shows "triple (unless l (\<lambda>s. P s \<and> \<phi>)) m (\<lambda>x. unless l (Q x)) (\<lambda>r. unless l (R r)) (unless l C)"
proof (cases \<phi>)
  case True
  with assms(2) show ?thesis by simp
next
  case False
  then show ?thesis by (intro triple_unless [OF assms(1)]) simp
qed

lemma triple_unless_ex:
  assumes "\<And>x. triple (unless l (P x)) m Q R C"
  shows "triple (unless l (\<lambda>s. \<exists>x. P x s)) m Q R C"
proof -
  have "\<exists>x. unless l (P x) s" if "unless l (\<lambda>s. \<exists>x. P x s) s" for s
    using that by (auto simp: unless_def)
  with assms show ?thesis unfolding triple_def by metis
qed

lemma triple_known:
  assumes "triple (unless l P) m (\<lambda>a. unless l (\<lambda>s. P' s \<and> a = b)) (\<lambda>r. unless l (R r)) (unless l C)"
    and "\<And>a. steady (refusedSince l) (k a)"
    and "triple (unless l P') (k b) (\<lambda>x. unless l (Q x)) (\<lambda>r. unless l (R r)) (unless l C)"
  shows "triple (unless l P) (andThen m k) (\<lambda>x. unless l (Q x)) (\<lambda>r. unless l (R r)) (unless l C)"
  by (rule triple_andThen [OF assms(1) triple_unless_if [OF assms(2)]]) (use assms(3) in simp)

section \<open>One attempt\<close>

definition continues ::
  "(ModelInput \<Rightarrow> Decision option) \<Rightarrow> (ToolCall \<Rightarrow> string option) \<Rightarrow> Checkpoint \<Rightarrow> Step list \<times> string \<Rightarrow> execution \<times> int \<times> Step list \<Rightarrow> bool" where
  "continues model tool initial answer = (\<lambda>(ex, it, steps).
     ex_status ex = StatusRunningModel \<and>
     dialogue model tool (rq_Prompt (cp_Request initial)) (nat (cp_MaxSteps initial - it)) steps = Some answer)"

definition underway ::
  "(ModelInput \<Rightarrow> Decision option) \<Rightarrow> (ToolCall \<Rightarrow> string option) \<Rightarrow> Checkpoint \<Rightarrow> Step list \<times> string \<Rightarrow> ('s, 'o) rstate \<Rightarrow> bool" where
  "underway model tool initial answer s \<longleftrightarrow>
     (\<exists>at. (case at of (ex, it, steps) \<Rightarrow> standsAt ex it steps s) \<and> continues model tool initial answer at)"

definition answered :: "Step list \<times> string \<Rightarrow> Result \<times> goerr option \<Rightarrow> ('s, 'o) rstate \<Rightarrow> bool" where
  "answered answer r s \<longleftrightarrow>
     \<not> r_storeFailed s \<and> snd r = None \<and> rs_Status (fst r) = StatusCompleted \<and>
     rs_Steps (fst r) = fst answer \<and> rs_Output (fst r) = snd answer"

lemma progress_runTool:
  assumes c: "cooperative X model tool" and tools: "rt_tools (ss_rt X) = Some tools" "tool call = Some out"
    and t: "transition ex StatusRunningModel = (ex', None)"
  shows "triple (unless l (standsAt ex it steps)) (runTool X initial tools call)
    (\<lambda>_. unless l (standsAt ex' it (steps @ [completedStep steps call out]))) (\<lambda>r. unless l (R r)) (unless l C)"
  unfolding runTool_def
proof (rule triple_known [OF progress_callTool [OF c tools]], goal_cases)
  case (1 a)
  show ?case by (intro refused.steady_all)
next
  case 2
  let ?new = "steps @ [completedStep steps call out]"
  have "triple (unless l (standsAt ex' it ?new)) (andThen (modify (\<lambda>s. s\<lparr>r_pendingTool := None\<rparr>)) (\<lambda>_. save X initial))
      (\<lambda>_. unless l (standsAt ex' it ?new)) (\<lambda>r. unless l (R r)) (unless l C)"
    by (rule triple_andThen [OF triple_change progress_save [OF c]]) (simp_all add: standsAt_def)
  note commit = triple_andThen [OF triple_advance [OF t] this]
  have "triple (unless l (standsAt ex it steps))
      (modify (\<lambda>s. s\<lparr>r_steps := r_steps s @ [completedStep (r_steps s) call out]\<rparr>))
      (\<lambda>_. unless l (standsAt ex it ?new)) (\<lambda>r. unless l (R r)) (unless l C)"
    by (rule triple_change) (simp_all add: standsAt_def)
  from triple_andThen [OF progress_checkContext triple_andThen [OF this commit]] show ?case by simp
qed

lemma progress_dispatchTool:
  assumes c: "cooperative X model tool" and "ex_status ex = StatusRunningModel" and new: "tc_ID call \<notin> stepID ` set steps"
    and out: "tool call = Some out"
  shows "triple (unless l (standsAt ex it steps)) (dispatchTool X initial call)
    (\<lambda>_. unless l (\<lambda>s. \<exists>ex'. ex_status ex' = StatusRunningModel \<and> standsAt ex' it (steps @ [completedStep steps call out]) s))
    (\<lambda>r. unless l (R r)) (unless l C)"
proof (rule triple_unless [OF refused.steady_dispatchTool])
  fix s :: "('a, 'b) rstate"
  assume s: "l \<le> length (w_log s)" "w_done s = None" "standsAt ex it steps s"
  obtain tools where tools: "rt_tools (ss_rt X) = Some tools" using c out unfolding cooperative_def by blast
  obtain ex1 where t1: "transition ex StatusRunningTool = (ex1, None)" "ex_status ex1 = StatusRunningTool"
    using assms(2) by (simp add: transition_def)
  obtain ex2 where t2: "transition ex1 StatusRunningModel = (ex2, None)" "ex_status ex2 = StatusRunningModel"
    using t1(2) by (simp add: transition_def)
  let ?s = "s\<lparr>r_exec := ex1, r_pendingTool := Some call\<rparr>"
  let ?rest = "andThen (save X initial) (\<lambda>_. andThen checkContext (\<lambda>_. runTool X initial tools call))"
  have "unless l (standsAt ex1 it steps) ?s" using s by (simp add: unless_def standsAt_def)
  moreover have "dispatchTool X initial call s = ?rest ?s"
    using s(3) new tools t1(1)
    by (auto simp: dispatchTool_def reads_def advance_def modify_def standsAt_def image_iff
        andThen_def [of "advance _"] andThen_def [of "modify _"])
  moreover have "triple (unless l (standsAt ex1 it steps)) ?rest
      (\<lambda>_. unless l (\<lambda>s. \<exists>ex'. ex_status ex' = StatusRunningModel \<and> standsAt ex' it (steps @ [completedStep steps call out]) s))
      (\<lambda>r. unless l (R r)) (unless l C)"
    by (rule triple_post [OF triple_andThen [OF progress_save [OF c] triple_andThen [OF progress_checkContext progress_runTool [OF c tools out t2(1)]]]])
       (use t2(2) in \<open>auto simp: unless_def\<close>)
  ultimately show "case dispatchTool X initial call s of
      (s', Go _) \<Rightarrow> unless l (\<lambda>s. \<exists>ex'. ex_status ex' = StatusRunningModel \<and>
        standsAt ex' it (steps @ [completedStep steps call out]) s) s'
    | (s', Ret r) \<Rightarrow> unless l (R r) s' | (s', Panic) \<Rightarrow> unless l C s'"
    by (simp add: triple_def)
qed

lemma progress_handleDecision:
  assumes c: "cooperative X model tool" and "ex_status ex = StatusRunningModel"
    and d: "dialogue model tool (rq_Prompt (cp_Request initial)) (Suc n) steps = Some answer"
    and m: "model \<lparr>mi_Prompt = rq_Prompt (cp_Request initial), mi_Steps = steps\<rparr> = Some decision"
    and n: "nat (cp_MaxSteps initial - it) = n"
  shows "triple (unless l (standsAt ex it steps))
    (handleDecision X initial decision)
    (\<lambda>_. unless l (underway model tool initial answer)) (\<lambda>r. unless l (answered answer r)) (unless l (\<lambda>_. False))"
proof -
  have v: "Validate decision = None" using d m by (auto split: if_splits)
  show ?thesis
  proof (cases "d_Kind decision")
    case DecisionFinal
    then have a: "answer = (steps, d_Output decision)" using d m v by simp
    show ?thesis
    proof (rule triple_unless [OF refused.steady_handleDecision])
      fix s :: "('a, 'b) rstate"
      assume "l \<le> length (w_log s)" "w_done s = None" "standsAt ex it steps s"
      then show "case handleDecision X initial decision s of (s', Go x) \<Rightarrow> unless l (underway model tool initial answer) s'
          | (s', Ret r) \<Rightarrow> unless l (answered answer r) s' | (s', Panic) \<Rightarrow> unless l (\<lambda>_. False) s'"
        using v DecisionFinal a assms(2)
        by (auto simp: handleDecision_def andThen_def advance_def transition_def reads_def returns_def unless_def
            answered_def standsAt_def snapshot_def cloneSteps_def)
    qed
  next
    case DecisionToolCall
    then obtain out where k: "tc_ID (d_ToolCall decision) \<notin> stepID ` set steps"
        "dialogue model tool (rq_Prompt (cp_Request initial)) n
           (steps @ [completedStep steps (d_ToolCall decision) out]) = Some answer"
        "tool (d_ToolCall decision) = Some out"
      using d m v by (auto split: if_splits option.splits)
    have "triple (unless l (standsAt ex it steps)) (dispatchTool X initial (d_ToolCall decision))
      (\<lambda>_. unless l (underway model tool initial answer)) (\<lambda>r. unless l (answered answer r)) (unless l (\<lambda>_. False))"
      by (rule triple_post [OF progress_dispatchTool [OF c assms(2) k(1,3)]])
         (use k(2) n in \<open>auto simp: unless_def underway_def continues_def\<close>)
    with v DecisionToolCall show ?thesis by (simp add: handleDecision_def)
  next
    case (DecisionOther x)
    with v show ?thesis by (simp add: Validate_def)
  qed
qed

lemma progress_iteration:
  assumes c: "cooperative X model tool"
  shows "triple (\<lambda>s. unless l (underway model tool initial answer) s \<and> r_iterations s < cp_MaxSteps initial) (iteration X initial)
    (\<lambda>_. unless l (underway model tool initial answer)) (\<lambda>r. unless l (answered answer r)) (unless l (\<lambda>_. False))"
proof -
  have "triple (unless l (\<lambda>s. \<exists>at. (case at of (ex, it, steps) \<Rightarrow> standsAt ex it steps s) \<and>
        (continues model tool initial answer at \<and> fst (snd at) < cp_MaxSteps initial))) (iteration X initial)
      (\<lambda>_. unless l (underway model tool initial answer)) (\<lambda>r. unless l (answered answer r)) (unless l (\<lambda>_. False))"
  proof (intro triple_unless_ex triple_unless_if refused.steady_iteration)
    fix at
    assume at: "continues model tool initial answer at \<and> fst (snd at) < cp_MaxSteps initial"
    obtain ex it steps where e: "at = (ex, it, steps)" by (cases at)
    have n: "nat (cp_MaxSteps initial - it) = Suc (nat (cp_MaxSteps initial - (it + 1)))" using at e by auto
    have d: "dialogue model tool (rq_Prompt (cp_Request initial)) (Suc (nat (cp_MaxSteps initial - (it + 1)))) steps = Some answer"
      and x: "ex_status ex = StatusRunningModel"
      using at unfolding e continues_def by (auto simp del: dialogue.simps simp flip: n)
    from d obtain decision where m: "model \<lparr>mi_Prompt = rq_Prompt (cp_Request initial), mi_Steps = steps\<rparr> = Some decision"
      by (auto split: option.splits)
    have decide: "triple (unless l (standsAt ex (it + 1) steps)) (andThen checkContext (\<lambda>_. handleDecision X initial decision))
        (\<lambda>_. unless l (underway model tool initial answer)) (\<lambda>r. unless l (answered answer r)) (unless l (\<lambda>_. False))"
      by (rule triple_andThen [OF progress_checkContext progress_handleDecision [OF c x d m refl]])
    have ask: "triple (unless l (standsAt ex (it + 1) steps)) (andThen (callModel X initial) (\<lambda>(decision, err).
         case err of Some e \<Rightarrow> handleModelError X initial e
         | None \<Rightarrow> andThen checkContext (\<lambda>_. handleDecision X initial decision)))
        (\<lambda>_. unless l (underway model tool initial answer)) (\<lambda>r. unless l (answered answer r)) (unless l (\<lambda>_. False))"
    proof (rule triple_known [OF progress_callModel [OF c m]], goal_cases)
      case (1 a)
      show ?case by (intro refused.steady_all refused.steady_handleModelError refused.steady_handleDecision)
    qed (use decide in simp)
    have count: "triple (unless l (standsAt ex it steps)) (modify (\<lambda>s. s\<lparr>r_iterations := r_iterations s + 1\<rparr>))
        (\<lambda>_. unless l (standsAt ex (it + 1) steps)) (\<lambda>r. unless l (answered answer r)) (unless l (\<lambda>_. False))"
      by (rule triple_change) (simp_all add: standsAt_def)
    show "triple (unless l (\<lambda>s. case at of (ex, it, steps) \<Rightarrow> standsAt ex it steps s)) (iteration X initial)
        (\<lambda>_. unless l (underway model tool initial answer)) (\<lambda>r. unless l (answered answer r)) (unless l (\<lambda>_. False))"
      unfolding iteration_def e prod.case
      by (rule triple_andThen [OF progress_checkContext triple_andThen [OF count
            triple_andThen [OF progress_save [OF c] triple_andThen [OF progress_checkContext ask]]]])
  qed
  then show ?thesis by (rule triple_pre) (auto simp: unless_def underway_def standsAt_def)
qed

lemma progress_runLoop:
  assumes c: "cooperative X model tool"
  shows "triple (unless l (underway model tool initial answer)) (runLoop X initial)
    (\<lambda>_ _. False) (\<lambda>r. unless l (answered answer r)) (unless l (\<lambda>_. False))"
proof (rule runLoop_triple [OF progress_iteration [OF c]])
  have "triple (unless l (\<lambda>_. False)) exhausted (\<lambda>_. unless l (\<lambda>_. False)) (\<lambda>r. unless l (answered answer r)) (unless l (\<lambda>_. False))"
    by (rule triple_unless [OF refused.steady_exhausted]) simp
  then show "triple (\<lambda>s. unless l (underway model tool initial answer) s \<and> \<not> r_iterations s < cp_MaxSteps initial) exhausted
      (\<lambda>_ _. False) (\<lambda>r. unless l (answered answer r)) (unless l (\<lambda>_. False))"
    by (intro triple_exhausted_leaves) (erule triple_pre, auto simp: unless_def underway_def standsAt_def continues_def)
qed

section \<open>The whole call\<close>

lemma runBody_answers:
  fixes X :: "('s, 'o) session"
  assumes c: "cooperative X model tool"
    and s: "unless l (\<lambda>s. standsAt \<lparr>ex_status = st, ex_transitions = ts\<rparr> it steps s) s" and "st = StatusCreated \<or> st = StatusRunningModel"
    and d: "dialogue model tool (rq_Prompt (cp_Request initial)) (nat (cp_MaxSteps initial - it)) steps = Some answer"
    and r: "runBody X initial s = (s', f)"
  shows "refusedSince l s' \<or> (\<exists>res. f = Ret res \<and> unless l (answered answer res) s')"
proof -
  have "steady (refusedSince l) (startRunning :: ('s, 'o, unit) body)"
    by (auto simp: steady_def startRunning_def refusedSince_def split: prod.splits option.splits)
  then have "triple (unless l (standsAt \<lparr>ex_status = st, ex_transitions = ts\<rparr> it steps)) (startRunning :: ('s, 'o, unit) body)
      (\<lambda>_. unless l (underway model tool initial answer)) (\<lambda>r. unless l (answered answer r)) (unless l (\<lambda>_. False))"
    by (rule triple_unless)
       (use assms(3) d in \<open>auto simp: startRunning_def transition_def unless_def underway_def continues_def standsAt_def\<close>)
  from triple_andThen [OF this progress_runLoop [OF c]] s r show ?thesis
    by (cases f) (auto simp: triple_def runBody_def unless_def)
qed

lemma finishRun_answers:
  assumes c: "cooperative X model tool" and r: "refusedSince l s \<or> (\<exists>res. f = Ret res \<and> unless l (answered answer res) s)"
    and fin: "finishRun X initial t0 (s, f) = (s', out)"
  shows "refusedSince l s' \<or>
    (\<exists>res. out = Returned res None \<and> rs_Status res = StatusCompleted \<and> rs_Steps res = fst answer \<and> rs_Output res = snd answer)"
proof (cases "refusedSince l s")
  case True
  then have "refusedSince l (fst (s, f))" by simp
  from refused.finishRun_shape [OF this fin] have "refusedSince l s'"
    by (elim disjE exE conjE) (simp_all add: refused_observeTerminal)
  then show ?thesis ..
next
  case False
  with r obtain res where f: "f = Ret (res, None)" and a: "rs_Status res = StatusCompleted" "rs_Steps res = fst answer"
      "rs_Output res = snd answer" and s: "l \<le> length (w_log s)" "w_done s = None" "\<not> r_storeFailed s"
    by (auto simp: unless_def answered_def)
  let ?res = "res\<lparr>rs_ExecutionID := rq_ExecutionID (cp_Request initial)\<rparr>"
  obtain s1 e where p: "persist X initial ?res None False s = (s1, e)" by force
  show ?thesis
  proof (cases e)
    case None
    with fin f p a s(3) show ?thesis by (auto simp: finishRun_def persistTerminal_def)
  next
    case (Some err)
    have "standsAt (r_exec s) (r_iterations s) (r_steps s) s" using s(3) by (simp add: standsAt_def)
    from persist_unless(2) [OF c s(1,2) this p] Some have "refusedSince l s1" by simp
    with refused_observeTerminal [OF this] fin f p a s(3) Some show ?thesis
      by (auto simp: finishRun_def persistTerminal_def)
  qed
qed

lemma run_answers:
  assumes c: "cooperative X model tool" and live: "w_done w = None"
    and st: "cp_Status initial = StatusCreated \<or> cp_Status initial = StatusRunningModel"
    and d: "dialogue model tool (rq_Prompt (cp_Request initial)) (nat (cp_MaxSteps initial - cp_ModelIterations initial))
        (cp_Steps initial) = Some answer"
    and ok: "\<not> list_ex refusal (history X initial create w)"
  shows "\<exists>res. outcomeOf X initial create w = Returned res None \<and> rs_Status res = StatusCompleted \<and>
    rs_Steps res = fst answer \<and> rs_Output res = snd answer"
proof -
  let ?l = "length (w_log w)" and ?s0 = "startState initial w"
  let ?ex = "\<lparr>ex_status = cp_Status initial, ex_transitions = cp_Transitions initial\<rparr>"
  have s0: "?l \<le> length (w_log ?s0)" "w_done ?s0 = None" "standsAt ?ex (cp_ModelIterations initial) (cp_Steps initial) ?s0"
    using live by (simp_all add: startState_def standsAt_def cloneSteps_def)
  obtain s' out where r: "run X initial create w = (s', out)" by force
  have good: "\<not> refusedSince ?l s'" using ok r by (simp add: refusedSince_def history_def)
  have body: "refusedSince ?l s' \<or> (\<exists>res. out = Returned res None \<and> rs_Status res = StatusCompleted \<and>
      rs_Steps res = fst answer \<and> rs_Output res = snd answer)"
    if s: "unless ?l (standsAt ?ex (cp_ModelIterations initial) (cp_Steps initial)) s"
      and e: "finishRun X initial (now X w) (runBody X initial s) = (s', out)" for s
  proof -
    obtain s1 f where b: "runBody X initial s = (s1, f)" by force
    from runBody_answers [OF c s st d b] e b show ?thesis by (intro finishRun_answers [OF c]) simp_all
  qed
  show ?thesis
  proof (cases create)
    case True
    obtain s1 e where p: "persist X initial (r_lastSaved ?s0) None True ?s0 = (s1, e)" by force
    note u = persist_unless [OF c s0 p]
    show ?thesis
    proof (cases e)
      case None
      from body [OF unless_observe [OF c u(1)]] good r p True None show ?thesis
        by (auto simp: run_def Let_def outcomeOf_def)
    next
      case (Some err)
      with u(2) r p True good show ?thesis by (auto simp: run_def Let_def)
    qed
  next
    case False
    have "unless ?l (standsAt ?ex (cp_ModelIterations initial) (cp_Steps initial)) ?s0" using s0 by (simp add: unless_def)
    from body [OF this] good r False show ?thesis by (auto simp: run_def Let_def outcomeOf_def)
  qed
qed

end
