(* ===== verification/Takeover.thy ===== *)
theory Takeover
  imports Progress Recovery Memory_Lease_Store Sqlite_Store
begin

text \<open>
  A crashed owner blocks an execution only until its lease expires: from then on another process can
  acquire the lease, load the last checkpoint and finish the execution. The locale \<open>takeover_store\<close> adds to
  the contract of a leased store that an unowned execution can be acquired; both leased stores
  interpret it.
\<close>

section \<open>Sessions around an acquisition\<close>

lemma passTime_own:
  assumes "\<not> ss_renewing X" and "en_ctx (ss_env X) (Suc (w_tick w)) = None"
  shows "passTime X w = w\<lparr>w_tick := Suc (w_tick w)\<rparr>"
  using assms by (cases "w_done w") (simp_all add: passTime_def renewStep_def Let_def)

lemma log_passTime_own: "\<not> ss_renewing X \<Longrightarrow> w_log (passTime X w) = w_log w"
  by (simp add: passTime_def renewStep_def Let_def)

lemma passTime_alive:
  assumes "w_done w = None" and "en_ctx (ss_env X) (Suc (w_tick w)) = None"
  shows "w_done (passTime X w) = None \<or> list_ex refusal (drop (length (w_log w)) (w_log (passTime X w)))"
  using assms by (auto simp: passTime_def renewStep_def emit_def Let_def split: option.splits prod.splits)

lemma cooperative_session:
  "cooperative X model tool \<Longrightarrow> ss_env Y = ss_env X \<Longrightarrow> ss_rt Y = ss_rt X \<Longrightarrow>
     (\<And>st. rt_store (ss_rt X) = Some st \<Longrightarrow> st_Fenced st \<noteq> None) \<Longrightarrow> cooperative Y model tool"
  by (simp add: cooperative_def)

definition busyError :: "string \<Rightarrow> goerr" where
  "busyError i = Errorf [W (Sentinel ErrCheckpointStore), Lit '': lease execution '', Quoted i, Lit '': '', W (Sentinel ErrExecutionBusy)]"

section \<open>The contract\<close>

text \<open>\<open>room c i s\<close>: the deadline of a lease taken now is representable and tokens are left.\<close>

locale takeover_store = leased_checkpoint_store +
  fixes room :: "store_call \<Rightarrow> string \<Rightarrow> 'a \<Rightarrow> bool"
  assumes loads: "st_Load st = load"
    and acquirable: "good s \<Longrightarrow> undisturbed c \<Longrightarrow> i \<noteq> [] \<Longrightarrow> room c i s \<Longrightarrow> owner (sc_now c) i s = None \<Longrightarrow>
      \<exists>s' tok rel. acquire c i s = (s', Inr (tok, rel)) \<and> 0 < interval s'"
    and occupied: "good s \<Longrightarrow> undisturbed c \<Longrightarrow> i \<noteq> [] \<Longrightarrow> room c i s \<Longrightarrow> owner (sc_now c) i s = Some tok \<Longrightarrow>
      acquire c i s = (s, Inl (Sentinel ErrExecutionBusy))"
begin

text \<open>While the lease of another process is active, neither entry point gets past the acquisition.\<close>

lemma blocked:
  fixes rt :: "('a, 'o) Runtime"
  assumes rt: "rt_store rt = Some st" and "i \<noteq> []" and w: "good (w_store w)" "undisturbed (en_call E (w_tick w))"
      "room (en_call E (w_tick w)) i (w_store w)" "owner (sc_now (en_call E (w_tick w))) i (w_store w) = Some tok"
  shows "underOwnership (ownSession E rt i) i required body w =
    (passTime (ownSession E rt i) w, Returned zeroResult (Some (busyError i)))"
  using occupied [OF w(1,2) assms(2) w(3,4)] ops rt
  by (simp add: underOwnership_def acquireExecutionOwnership_def ownSession_def busyError_def)

text \<open>
  Past a free lease, \<^verbatim>\<open>Resume\<close> is a run from the stored checkpoint under the new token, between an acquisition
  and a release.
\<close>

lemma Resume_unfolds:
  fixes rt :: "('a, 'o) Runtime"
  assumes rt: "rt_store rt = Some st" and ctx: "\<And>t. en_ctx E t = None" and "i \<noteq> []"
    and w: "good (w_store w)" "stored i (w_store w) = Some cp"
    and calls: "undisturbed (en_call E (w_tick w))" "undisturbed (en_call E (Suc (w_tick w)))"
    and free: "owner (sc_now (en_call E (w_tick w))) i (w_store w) = None" "room (en_call E (w_tick w)) i (w_store w)"
    and cp: "goInts cp" "resumable cp" "cp_ExecutionID cp = i" "cp_PendingTool cp = None"
      "cp_MaxModelRetries cp = 0 \<or> mr_MaxRetries (rt_modelRetry rt) = cp_MaxModelRetries cp"
    and X: "X = (ownSession E rt i)\<lparr>ss_token := tok, ss_renewing := True\<rparr>"
    and a: "acquire (en_call E (w_tick w)) i (w_store w) = (s1, Inr (tok, rel))"
    and wb: "wb = passTime X (emit (Loaded i (Inr cp)) (w\<lparr>w_store := s1, w_tick := Suc (w_tick w)\<rparr>))"
  shows "Resume E rt False i w =
    (releaseOwnership (ownSession E rt i) \<lparr>ow_fencingToken = tok, ow_release = release i tok\<rparr> (fst (runWorld X cp False wb)),
     snd (runWorld X cp False wb))"
proof -
  let ?c = "en_call E (w_tick w)" and ?own = "ownSession E rt i"
  have iv: "0 < interval s1" using acquirable [OF w(1) calls(1) assms(3) free(2,1)] a by auto
  have g: "good s1" "rel = Some (release i tok)" "tok \<noteq> 0" "stored i s1 = Some cp"
    using acquire_ok [OF w(1) a] w(2) by auto
  let ?wa = "w\<lparr>w_store := s1, w_tick := Suc (w_tick w)\<rparr>"
  have own: "acquireExecutionOwnership ?own i True w = (?wa, Inr \<lparr>ow_fencingToken = tok, ow_release = release i tok\<rparr>)"
    using a g(2,3) ops rt ctx
    by (simp add: acquireExecutionOwnership_def ownSession_def passTime_own)
  have start: "startExecutionLeaseRenewal (withExecutionFencingToken tok ?own) tok s1 = Inr X"
    using g(3) ops(3) rt iv by (simp add: X startExecutionLeaseRenewal_def withExecutionFencingToken_def ownSession_def)
  have "load (en_call E (Suc (w_tick w))) i s1 = Inr cp" by (rule load_ready [OF g(1,4) cp(1) assms(3) calls(2)])
  then have load: "loadExecution X st i ?wa = (wb, Inr cp)" by (simp add: X wb loadExecution_def loads ownSession_def Let_def)
  have body: "resumeBody st i X ?wa = runWorld X cp False wb"
  proof -
    have "validateCheckpoint cp = None" "\<not> terminal (cp_Status cp)" "\<not> cp_SchemaVersion cp < 2"
      using cp(2) by (auto simp: resumable_def validateCheckpoint_iff)
    with load cp(3-5) show ?thesis by (auto simp: X resumeBody_def Let_def terminal_def ownSession_def)
  qed
  show ?thesis
    using own start body rt assms(3) by (cases "runWorld X cp False wb") (auto simp: Resume_def underOwnership_def)
qed

lemma Resume_runs:
  fixes rt :: "('a, 'o) Runtime"
  assumes "Resume E rt False i w =
    (releaseOwnership (ownSession E rt i) ownership (fst (runWorld X cp False wb)), snd (runWorld X cp False wb))"
  shows "w_log (fst (Resume E rt False i w)) = w_log wb @ history X cp False wb"
    and "snd (Resume E rt False i w) = outcomeOf X cp False wb"
  using run_log [of X cp False wb] unfolding assms
  by (cases "run X cp False wb"; simp add: runWorld_def releaseOwnership_def log_passTime_own ownSession_def world.truncate_def outcomeOf_def)+

text \<open>So it ends with the answer of the dialogue, if nothing is refused on the way.\<close>

lemma Resume_answers:
  fixes rt :: "('a, 'o) Runtime"
  assumes rt: "rt_store rt = Some st" and coop: "cooperative (ownSession E rt i) model tool" and "i \<noteq> []"
    and w: "w_done w = None" "good (w_store w)" "stored i (w_store w) = Some cp"
    and calls: "undisturbed (en_call E (w_tick w))" "undisturbed (en_call E (Suc (w_tick w)))"
    and free: "owner (sc_now (en_call E (w_tick w))) i (w_store w) = None" "room (en_call E (w_tick w)) i (w_store w)"
    and cp: "goInts cp" "resumable cp" "cp_ExecutionID cp = i" "cp_PendingTool cp = None"
      "cp_MaxModelRetries cp = 0 \<or> mr_MaxRetries (rt_modelRetry rt) = cp_MaxModelRetries cp"
    and d: "dialogue model tool (rq_Prompt (cp_Request cp)) (nat (cp_MaxSteps cp - cp_ModelIterations cp)) (cp_Steps cp) = Some answer"
    and r: "Resume E rt False i w = (w', out)" "w_log w' = w_log w @ es" "\<not> list_ex refusal es"
  shows "\<exists>res. out = Returned res None \<and> rs_Status res = StatusCompleted \<and> rs_Steps res = fst answer \<and> rs_Output res = snd answer"
proof -
  obtain s1 tok rel where a: "acquire (en_call E (w_tick w)) i (w_store w) = (s1, Inr (tok, rel))"
    using acquirable [OF w(2) calls(1) assms(3) free(2,1)] by blast
  have ctx: "\<And>t. en_ctx E t = None" using coop by (simp add: cooperative_def ownSession_def)
  define X where "X = (ownSession E rt i)\<lparr>ss_token := tok, ss_renewing := True\<rparr>"
  define ea where "ea = emit (Loaded i (Inr cp)) (w\<lparr>w_store := s1, w_tick := Suc (w_tick w)\<rparr>)"
  define wb where "wb = passTime X ea"
  note runs = Resume_runs [OF Resume_unfolds [OF rt ctx assms(3) w(2,3) calls free cp X_def a wb_def [unfolded ea_def]]]
  have es: "es = drop (length (w_log w)) (w_log wb) @ history X cp False wb"
    using runs(1) r(1,2) passTime_log [of X ea] by (auto simp: ea_def wb_def emit_def)
  have "w_done wb = None"
    unfolding wb_def using passTime_alive [of ea X] w(1) ctx r(3) es passTime_log [of X ea]
    by (auto simp: X_def ea_def wb_def emit_def ownSession_def)
  moreover have "cooperative X model tool"
    unfolding X_def by (rule cooperative_session [OF coop]) (use rt ops(2) in \<open>simp_all add: ownSession_def\<close>)
  moreover have "cp_Status cp = StatusCreated \<or> cp_Status cp = StatusRunningModel"
    using resumable_runnable [OF cp(2,4)] by (auto simp: runnable_def)
  moreover have "\<not> list_ex refusal (history X cp False wb)" using r(3) es by simp
  ultimately show ?thesis using run_answers [of X model tool wb cp answer False] d runs(2) r(1) by simp
qed

end

section \<open>Both leased stores\<close>

definition memRoom :: "store_call \<Rightarrow> string \<Rightarrow> MemoryLeaseStore \<Rightarrow> bool" where
  "memRoom c i s \<longleftrightarrow> 0 < ms_leaseDuration s \<and> tokenOf (ms_lastToken s) i + 1 \<noteq> 0"

definition sqliteRoom :: "store_call \<Rightarrow> string \<Rightarrow> SQLiteCheckpointStore \<Rightarrow> bool" where
  "sqliteRoom c i s \<longleftrightarrow> 0 < sq_leaseDuration s \<and> sc_now c \<le> maxInt64 - sq_leaseDuration s \<and>
     (\<forall>row. sq_rows s i = Some row \<longrightarrow> sq_fencing_token row < maxInt64)"

interpretation memTakeover: takeover_store memoryStore memAcquireExecutionLease memRenewExecutionLease memWriteFenced
  memExecutionLeaseRenewalInterval memRelease memGood memIssued memOwner "\<lambda>i s. ms_records s i" memLoad memRoom
proof (unfold_locales, goal_cases)
  case 1
  show ?case by (simp add: memoryStore_def)
next
  case (2 s c i)
  then show ?case
    by (auto simp: memAcquireExecutionLease_def checkMemoryLeaseContext_def undisturbed_def memRoom_def memOwner_def
        memExecutionLeaseRenewalInterval_def Let_def split: option.splits if_splits)
next
  case (3 s c i tok)
  then show ?case
    by (auto simp: memAcquireExecutionLease_def checkMemoryLeaseContext_def undisturbed_def memOwner_def
        split: option.splits if_splits)
qed

interpretation sqliteTakeover: takeover_store sqliteStore sqliteAcquireExecutionLease sqliteRenewExecutionLease sqliteWriteFenced
  sqliteExecutionLeaseRenewalInterval sqliteRelease sqliteGood sqliteIssued sqliteOwner sqliteStored sqliteLoad sqliteRoom
proof (unfold_locales, goal_cases)
  case 1
  show ?case by (simp add: sqliteStore_def)
next
  case (2 s c i)
  then show ?case
    by (auto simp: sqliteAcquireExecutionLease_def checkSQLiteStoreContext_def undisturbed_def sqliteRoom_def sqliteOwner_def
        sqliteLeaseExpiry_def queryAcquire_def upsertLease_def sqliteExecutionLeaseRenewalInterval_def Let_def
        split: option.splits if_splits)
next
  case (3 s c i tok)
  then show ?case
    by (auto simp: sqliteAcquireExecutionLease_def checkSQLiteStoreContext_def undisturbed_def sqliteRoom_def sqliteOwner_def
        sqliteLeaseExpiry_def queryAcquire_def upsertLease_def classifyLeaseAcquisition_def Let_def
        split: option.splits if_splits)
qed

end
