(* ===== verification/Bounded_Work.thy ===== *)
theory Bounded_Work
  imports World_Invariants
begin

text \<open>
  The loop of \<^verbatim>\<open>run\<close> ends, and how much it does before: a bound on the external operations of a call (store
  writes, callbacks, events) in terms of the model attempts left. Renewals happen in the background for
  as long as the call takes and are not counted.
\<close>

definition effort :: "('s, 'o, 'z) world_scheme \<Rightarrow> nat" where
  "effort s = length (filter (\<lambda>e. \<not> isRenewal e) (w_log s))"

definition costs :: "nat \<Rightarrow> ('s, 'o, 'a) body \<Rightarrow> bool" where
  "costs n m \<longleftrightarrow> (\<forall>s. effort (fst (m s)) \<le> effort s + n)"

lemma effort_passTime [simp]: "effort (passTime X s) = effort s"
  using passTime_log [of X s] by (auto simp: effort_def filter_empty_conv list_all_iff)

lemma effort_emit [simp]: "effort (emit e s) = effort s + (if isRenewal e then 0 else 1)"
  by (simp add: effort_def)

lemma effort_update [simp]:
  "effort (s\<lparr>w_obs := b\<rparr>) = effort s" "effort (s\<lparr>w_store := st\<rparr>) = effort s"
  "effort (t\<lparr>r_exec := ex\<rparr>) = effort t" "effort (t\<lparr>r_iterations := it\<rparr>) = effort t"
  "effort (t\<lparr>r_modelRetries := n\<rparr>) = effort t" "effort (t\<lparr>r_steps := ss\<rparr>) = effort t"
  "effort (t\<lparr>r_pendingTool := pt\<rparr>) = effort t" "effort (t\<lparr>r_lastSaved := ls\<rparr>) = effort t"
  "effort (t\<lparr>r_storeFailed := sf\<rparr>) = effort t"
  by (simp_all add: effort_def)

lemma effort_observe: "effort (observe X ev s) \<le> effort s + 1"
  by (simp add: observe_def split: option.split)

lemma effort_persist: "persist X initial current cause create s = (s', r) \<Longrightarrow> effort s' \<le> effort s + 1"
  by (auto simp: persist_def writeCheckpoint_def finishWrite_def Let_def split: option.splits prod.splits if_splits)

lemma effort_Next: "Next X m inp s = (s', r) \<Longrightarrow> effort s' \<le> effort s + 1"
  by (induction X m inp s arbitrary: s' r rule: Next.induct) (auto split: prod.splits option.splits)

lemma effort_Execute: "Execute X m call s = (s', r) \<Longrightarrow> effort s' \<le> effort s + 1"
  by (induction X m call s arbitrary: s' r rule: Execute.induct)
     (auto simp: executeWithTimeout_def split: prod.splits option.splits)

lemma costs_andThen:
  assumes "costs a m" and "\<And>x. costs b (k x)" and "a + b \<le> n"
  shows "costs n (andThen m k)"
  unfolding costs_def
proof
  fix s
  obtain s' f where m: "m s = (s', f)" by (cases "m s")
  with assms(1) have "effort s' \<le> effort s + a" by (metis costs_def fst_conv)
  moreover have "effort (fst (k x s')) \<le> effort s + n" for x
    using assms(2) [of x, unfolded costs_def, rule_format, of s'] calculation assms(3) by linarith
  ultimately show "effort (fst (andThen m k s)) \<le> effort s + n"
    using m assms(3) by (cases f) (auto simp: andThen_def)
qed

lemma costs_reads: "(\<And>s. costs n (k s)) \<Longrightarrow> costs n (reads k)"
  by (simp add: costs_def reads_def)

lemma costs_option: "costs n m \<Longrightarrow> (\<And>y. costs n (f y)) \<Longrightarrow> costs n (case x of None \<Rightarrow> m | Some y \<Rightarrow> f y)"
  by (cases x) auto

lemma costs_if: "costs n m \<Longrightarrow> costs n m' \<Longrightarrow> costs n (if b then m else m')"
  by simp

lemma costs_pure: "costs n (pass x)" "costs n (returns r)"
  by (simp_all add: costs_def pass_def returns_def)

lemma costs_modify: "(\<And>s. effort (f s) = effort s) \<Longrightarrow> costs n (modify f)"
  by (simp add: costs_def modify_def)

lemma costs_abort: "costs n (abort st err)"
  by (simp add: costs_def abort_def andThen_def modify_def reads_def returns_def)

lemma costs_checkContext: "costs n checkContext"
  unfolding checkContext_def by (intro costs_reads costs_option costs_pure costs_abort)

lemma costs_save: "1 \<le> n \<Longrightarrow> costs n (save X initial)"
  unfolding costs_def save_def using effort_persist by (fastforce split: prod.split option.split)

lemma costs_advance: "costs n (advance st)"
  by (simp add: costs_def advance_def split: prod.split option.split)

lemma costs_waitModelRetry: "costs n (waitModelRetry X)"
  by (simp add: costs_def waitModelRetry_def Let_def)

lemma costs_callModel:
  fixes X :: "('s, 'o) session"
  shows "costs 3 (callModel X initial)"
  unfolding costs_def
proof
  fix s :: "('s, 'o) rstate"
  let ?s1 = "observe X (plainEvent EventModelStarted (rq_ExecutionID (cp_Request initial)) StatusRunningModel (r_iterations s)) s"
  let ?inp = "\<lparr>mi_Prompt = rq_Prompt (cp_Request initial), mi_Steps = cloneSteps (r_steps ?s1)\<rparr>"
  obtain s2 r where n: "Next X (rt_model (ss_rt X)) ?inp ?s1 = (s2, r)" by force
  have "effort s2 \<le> effort s + 2" 
    by (rule order_trans [OF effort_Next [OF n]]) (use effort_observe [of X _ s] in simp)
  moreover have "effort (observe X ev s2) \<le> effort s + 3" for ev
    using effort_observe [of X ev s2] calculation by linarith
  ultimately show "effort (fst (callModel X initial s)) \<le> effort s + 3"
    using n by (cases r) (auto simp: callModel_def Let_def)
qed

lemma costs_callTool:
  fixes X :: "('s, 'o) session"
  shows "costs 3 (callTool X initial tools call)"
  unfolding costs_def
proof
  fix s :: "('s, 'o) rstate"
  let ?s1 = "observe X (toolEvent EventToolStarted (rq_ExecutionID (cp_Request initial)) (r_iterations s) call) s"
  obtain s2 r where n: "Execute X tools call ?s1 = (s2, r)" by force
  have "effort s2 \<le> effort s + 2" 
    by (rule order_trans [OF effort_Execute [OF n]]) (use effort_observe [of X _ s] in simp)
  moreover have "effort (observe X ev s2) \<le> effort s + 3" for ev
    using effort_observe [of X ev s2] calculation by linarith
  ultimately show "effort (fst (callTool X initial tools call s)) \<le> effort s + 3"
    using n by (cases r) (auto simp: callTool_def Let_def)
qed

text \<open>Sequencing, by the first operation: what it costs is taken off the budget of the rest.\<close>

lemma costs_free: "costs 0 m \<Longrightarrow> (\<And>x. costs n (k x)) \<Longrightarrow> costs n (andThen m k)"
  by (rule costs_andThen [where a = 0 and b = n]) simp_all

lemma costs_first: "costs a m \<Longrightarrow> a \<le> n \<Longrightarrow> (\<And>x. costs (n - a) (k x)) \<Longrightarrow> costs n (andThen m k)"
  by (rule costs_andThen [where a = a and b = "n - a"]) simp_all

lemma costs_first_pair:
  "costs a m \<Longrightarrow> a \<le> n \<Longrightarrow> (\<And>x y. costs (n - a) (k x y)) \<Longrightarrow> costs n (andThen m (\<lambda>(x, y). k x y))"
  by (rule costs_first) (auto split: prod.split)

lemmas costs_then =
  costs_free [OF costs_checkContext] costs_free [OF costs_advance] costs_free [OF costs_modify] costs_free [OF costs_waitModelRetry]
  costs_first [OF costs_save [of 1, simplified]] costs_first_pair [OF costs_callModel] costs_first_pair [OF costs_callTool]

lemmas costs_rules =
  costs_then costs_reads costs_option costs_if costs_pure costs_abort costs_save

lemma costs_handleModelError: "1 \<le> n \<Longrightarrow> costs n (handleModelError X initial err)"
  unfolding handleModelError_def by (intro costs_rules) simp_all

lemma costs_runTool: "4 \<le> n \<Longrightarrow> costs n (runTool X initial tools call)"
  unfolding runTool_def by (intro costs_rules) simp_all

lemma costs_dispatchTool: "5 \<le> n \<Longrightarrow> costs n (dispatchTool X initial call)"
  unfolding dispatchTool_def by (intro costs_rules costs_runTool) simp_all

lemma costs_handleDecision: "5 \<le> n \<Longrightarrow> costs n (handleDecision X initial d)"
  unfolding handleDecision_def
  by (cases "d_Kind d"; simp only: DecisionKind.case) (intro costs_rules costs_dispatchTool; simp)+

lemma costs_iteration: "costs 9 (iteration X initial)"
  unfolding iteration_def by (intro costs_rules costs_handleModelError costs_handleDecision) simp_all

lemma costs_exhausted: "costs n exhausted"
  unfolding exhausted_def by (intro costs_rules)

section \<open>The whole call\<close>

lemma effort_runLoop: "effort (fst (runLoop X initial s)) \<le> effort s + 9 * nat (cp_MaxSteps initial - r_iterations s)"
proof (induction X initial s rule: runLoop.induct)
  case (1 X initial s)
  show ?case
  proof (cases "r_iterations s < cp_MaxSteps initial")
    case True
    obtain s' f where it: "iteration X initial s = (s', f)" by (cases "iteration X initial s")
    have c: "effort s' \<le> effort s + 9" using costs_iteration [of X initial] it by (metis costs_def fst_conv)
    have n: "nat (cp_MaxSteps initial - r_iterations s) = Suc (nat (cp_MaxSteps initial - (r_iterations s + 1)))"
      using True by auto
    show ?thesis
    proof (cases f)
      case (Go u)
      from iteration_iterations it Go have "r_iterations s' = r_iterations s + 1" by blast
      with 1 [OF True it [symmetric] Go] c True it Go n show ?thesis by (subst runLoop.simps) simp
    qed (use True it c n in \<open>subst runLoop.simps; simp\<close>)+
  next
    case False
    with costs_exhausted [of 0, unfolded costs_def, rule_format, of s] show ?thesis by (subst runLoop.simps) simp
  qed
qed

lemma effort_runBody: "effort (fst (runBody X initial s)) \<le> effort s + 9 * nat (cp_MaxSteps initial - r_iterations s)"
proof -
  have "runBody X initial s = runLoop X initial s \<or> (\<exists>ex. runBody X initial s = runLoop X initial (s\<lparr>r_exec := ex\<rparr>)) \<or>
      (\<exists>ex r. runBody X initial s = (s\<lparr>r_exec := ex\<rparr>, Ret r))"
    by (auto simp: runBody_def andThen_def startRunning_def split: prod.split option.split)
  then show ?thesis
    using effort_runLoop [of X initial s] effort_runLoop [of X initial "s\<lparr>r_exec := ex\<rparr>" for ex] by auto
qed

lemma effort_finishRun: "effort (fst (finishRun X initial t0 (s, f))) \<le> effort s + 2"
proof -
  have p: "effort s1 \<le> effort s + 1" if "persistTerminal X initial res err s = (s1, res', err')" for res err s1 res' err'
    using that by (auto simp: persistTerminal_def dest: effort_persist split: if_splits prod.splits option.splits)
  have o: "effort (observeTerminal X initial t0 res err s1) \<le> effort s1 + 1" for res err s1
    unfolding observeTerminal_def Let_def by (auto intro: order_trans [OF effort_observe])
  show ?thesis
  proof (cases f)
    case (Ret r)
    obtain s1 res err where t: "persistTerminal X initial ((fst r)\<lparr>rs_ExecutionID := rq_ExecutionID (cp_Request initial)\<rparr>) (snd r) s = (s1, res, err)"
      by (metis surj_pair)
    with p [OF t] o [of res err s1] Ret show ?thesis by (cases r) (simp add: finishRun_def)
  qed (simp_all add: finishRun_def)
qed

lemma effort_run:
  "effort (fst (run X initial create w)) \<le> effort w + 9 * nat (cp_MaxSteps initial - cp_ModelIterations initial) + 4"
proof -
  let ?n = "9 * nat (cp_MaxSteps initial - cp_ModelIterations initial)"
  have body: "effort (fst (finishRun X initial t0 (runBody X initial s))) \<le> effort s + ?n + 2"
    if "r_iterations s = cp_ModelIterations initial" for s t0
    using effort_finishRun [of X initial t0 "fst (runBody X initial s)" "snd (runBody X initial s)"]
      effort_runBody [of X initial s] that by simp
  have s0: "effort (startState initial w) = effort w" "r_iterations (startState initial w) = cp_ModelIterations initial"
    by (simp_all add: startState_def effort_def)
  show ?thesis
  proof (cases create)
    case True
    obtain s1 e where p: "persist X initial (r_lastSaved (startState initial w)) None True (startState initial w) = (s1, e)" by force
    let ?s2 = "observe X (plainEvent EventExecutionStarted (rq_ExecutionID (cp_Request initial)) StatusCreated 0) s1"
    have "effort ?s2 \<le> effort w + 2" by (rule order_trans [OF effort_observe]) (use effort_persist [OF p] s0(1) in simp)
    moreover have "r_iterations ?s2 = cp_ModelIterations initial"
      using persist_locals(2) [OF p] s0(2) sameLocals_observe [of s1 X] by (simp add: sameLocals_def)
    ultimately show ?thesis
      using body [of ?s2 "now X w"] effort_persist [OF p] p True s0(1) by (cases e) (simp_all add: run_def Let_def)
  next
    case False
    with body [of "startState initial w" "now X w"] s0 show ?thesis by (simp add: run_def Let_def)
  qed
qed

lemma history_effort:
  "length (filter (\<lambda>e. \<not> isRenewal e) (history X initial create w)) \<le>
     9 * nat (cp_MaxSteps initial - cp_ModelIterations initial) + 4"
  using effort_run [of X initial create w] by (simp add: effort_def run_log)

end
