(* ===== verification/Progress_Guarantees.thy ===== *)
theory Progress_Guarantees
  imports Takeover Bounded_Work Scenario
begin

text \<open>
  What the runtime achieves: a cooperative execution completes, every call ends after a bounded amount of
  work, and the execution of a crashed owner is finished by another process once the lease has
  expired.
\<close>

section \<open>Concrete inputs\<close>

definition demoAnswers :: "ModelInput \<Rightarrow> Decision option" where
  "demoAnswers input = map_option fst (demoModel 0 input)"

definition demoOutput :: "ToolCall \<Rightarrow> string option" where
  "demoOutput call = Some ''4''"

lemma demo_cooperative: "cooperative demoSession demoAnswers demoOutput"
  by (simp add: cooperative_def demoSession_def demoRuntime_def demoEnv_def demoModel_def demoAnswers_def demoTools_def
      demoOutput_def memoryStore_def)

lemma demo_dialogue:
  "dialogue demoAnswers demoOutput ''2+2?'' 3 [] = Some ([completedStep [] demoCall ''4''], ''4'')"
  by (simp add: numeral_3_eq_3 demoAnswers_def demoModel_def Validate_def demoCall_def demoOutput_def)

lemma demo_unrefused: "\<not> list_ex refusal demoHistory"
  by code_simp

text \<open>A database left behind by a process that died in its first model call.\<close>

definition demoAskedCp :: Checkpoint where
  "demoAskedCp = demoInitial\<lparr>cp_Revision := 2, cp_ModelIterations := 1,
     cp_Result := (cp_Result demoInitial)\<lparr>rs_Status := StatusRunningModel,
        rs_Transitions := [\<lparr>tn_From = StatusCreated, tn_To = StatusRunningModel\<rparr>]\<rparr>\<rparr>"

definition demoAbandoned :: SQLiteCheckpointStore where
  "demoAbandoned = \<lparr>sq_leaseDuration = 60, sq_rows = [''job'' \<mapsto>
     \<lparr>sq_checkpoint_json = Some (encodeCheckpoint demoAskedCp), sq_revision = 2, sq_fencing_token = 1, sq_lease_expires = 6\<rparr>]\<rparr>"

definition demoAt :: "nat \<Rightarrow> (SQLiteCheckpointStore, unit) world" where
  "demoAt t = \<lparr>w_tick = t, w_store = demoAbandoned, w_obs = (), w_done = None, w_log = []\<rparr>"

definition demoFinal :: "ModelInput \<Rightarrow> Decision" where
  "demoFinal input = \<lparr>d_Kind = DecisionFinal, d_Output = ''4'', d_ToolCall = zeroToolCall\<rparr>"

definition demoSqliteRuntime :: "(SQLiteCheckpointStore, unit) Runtime" where
  "demoSqliteRuntime =
     \<lparr>rt_store = Some sqliteStore, rt_model = BaseModel (\<lambda>t input. Some (demoFinal input, None)), rt_tools = Some (BaseTools demoTools),
      rt_observer = None, rt_maxSteps = 3, rt_modelRetry = \<lparr>mr_MaxRetries = 0, mr_Delay = 0\<rparr>\<rparr>"

lemma demoAskedCp_facts:
  "validateCheckpoint demoAskedCp = None" "goInts demoAskedCp" "resumable demoAskedCp" "cp_ExecutionID demoAskedCp = ''job''"
  "cp_PendingTool demoAskedCp = None" "cp_MaxModelRetries demoAskedCp = 0"
proof -
  show v: "validateCheckpoint demoAskedCp = None" by code_simp
  show "goInts demoAskedCp" "cp_ExecutionID demoAskedCp = ''job''" "cp_PendingTool demoAskedCp = None"
      "cp_MaxModelRetries demoAskedCp = 0"
    by (simp_all add: demoAskedCp_def demoInitial_def zeroCheckpoint_def goInts_def fitsInt64_def zeroResult_def)
  from v show "resumable demoAskedCp"
    by (simp add: resumable_def validateCheckpoint_iff)
       (simp add: demoAskedCp_def demoInitial_def zeroCheckpoint_def terminal_def)
qed

lemma demoAbandoned_good: "sqliteGood demoAbandoned"
  by (auto simp: sqliteGood_def sqliteRowGood_def demoAbandoned_def maxInt64_def demoAskedCp_facts
      intro!: exI [of _ demoAskedCp]) (simp add: demoAskedCp_def)


lemma demo_calls: "undisturbed (en_call demoEnv t)" "sc_now (en_call demoEnv t) = int t"
  by (simp_all add: demoEnv_def demoCallEnv_def undisturbed_def)







section \<open>Properties\<close>

text \<open>
  C22. While the lease of an execution in a SQLite database is active, another process gets neither
  \<^verbatim>\<open>Run\<close> nor \<^verbatim>\<open>Resume\<close> past the acquisition: both fail with \<^verbatim>\<open>ErrExecutionBusy\<close>, call nothing, write nothing and
  leave the database as it is.
\<close>

theorem live_lease_excludes:
  assumes "rt_store rt = Some sqliteStore" and "sqliteGood (w_store w)" and "undisturbed (en_call E (w_tick w))"
    and "sqliteRoom (en_call E (w_tick w)) (rq_ExecutionID req) (w_store w)"
    and "sqliteOwner (sc_now (en_call E (w_tick w))) (rq_ExecutionID req) (w_store w) = Some tok"
    and "rq_ExecutionID req \<noteq> []" and "rq_Prompt req \<noteq> []"
    and "r = Resume E rt False (rq_ExecutionID req) w \<or> r = Run E rt False req w"
  shows "\<exists>err. snd r = Returned zeroResult (Some err) \<and> errorsIs err ErrExecutionBusy \<and> w_log (fst r) = w_log w \<and>
    w_store (fst r) = w_store w"
proof -
  have "r = (passTime (ownSession E rt (rq_ExecutionID req)) w, Returned zeroResult (Some (busyError (rq_ExecutionID req))))"
    using assms(8) sqliteTakeover.blocked [OF assms(1,6,2-5)] assms(1,6,7) by (auto simp: Resume_def Run_def)
  then show ?thesis by (simp add: busyError_def log_passTime_own passTime_def renewStep_def Let_def ownSession_def)
qed

theorem live_lease_excludes_witness:
  "\<exists>err. snd (Resume demoEnv demoSqliteRuntime False ''job'' (demoAt 2)) = Returned zeroResult (Some err) \<and>
    errorsIs err ErrExecutionBusy \<and> w_log (fst (Resume demoEnv demoSqliteRuntime False ''job'' (demoAt 2))) = w_log (demoAt 2) \<and>
    w_store (fst (Resume demoEnv demoSqliteRuntime False ''job'' (demoAt 2))) = w_store (demoAt 2)"
proof (rule live_lease_excludes [where req = demoRequest and tok = 1 and E = demoEnv and rt = demoSqliteRuntime])
  show "rt_store demoSqliteRuntime = Some sqliteStore" by (simp add: demoSqliteRuntime_def)
  show "sqliteGood (w_store (demoAt 2))" by (simp add: demoAt_def demoAbandoned_good)
qed (simp_all add: demo_calls demoAt_def demoAbandoned_def demoRequest_def sqliteRoom_def sqliteOwner_def maxInt64_def)



text \<open>
  C25. A cooperative execution completes: when model and tools answer, the caller does not cancel and no
  write and no renewal is refused, \<^verbatim>\<open>run\<close> performs exactly the dialogue of the model with the tools and
  returns its steps and its answer as a completed result, provided the dialogue ends within the step
  budget.
\<close>

theorem run_completes:
  assumes "cooperative X model tool" and "w_done w = None"
    and "cp_Status initial = StatusCreated \<or> cp_Status initial = StatusRunningModel"
    and "dialogue model tool (rq_Prompt (cp_Request initial)) (nat (cp_MaxSteps initial - cp_ModelIterations initial))
        (cp_Steps initial) = Some answer"
    and "\<not> list_ex refusal (history X initial create w)"
  shows "\<exists>res. outcomeOf X initial create w = Returned res None \<and> rs_Status res = StatusCompleted \<and>
    rs_Steps res = fst answer \<and> rs_Output res = snd answer"
  by (rule run_answers [OF assms])

theorem run_completes_witness:
  "\<exists>res. outcomeOf demoSession demoInitial True demoWorld = Returned res None \<and> rs_Status res = StatusCompleted \<and>
    rs_Steps res = fst ([completedStep [] demoCall ''4''], ''4'') \<and> rs_Output res = snd ([completedStep [] demoCall ''4''], ''4'')"
proof (rule run_completes [OF demo_cooperative _ _ _ demo_unrefused])
  show "dialogue demoAnswers demoOutput (rq_Prompt (cp_Request demoInitial))
      (nat (cp_MaxSteps demoInitial - cp_ModelIterations demoInitial)) (cp_Steps demoInitial) =
      Some ([completedStep [] demoCall ''4''], ''4'')"
    using demo_dialogue by (simp add: demoInitial_def zeroCheckpoint_def zeroResult_def del: dialogue.simps)
qed (simp_all add: demoWorld_def demoInitial_def)

text \<open>
  C38. Every call of \<^verbatim>\<open>run\<close> ends, whatever the callbacks, the store and the environment do, and before it does it
  performs at most nine external operations (writes, callbacks, events) for each model attempt left
  in the budget and four more.
\<close>

theorem run_work_is_bounded:
  "length (filter (\<lambda>e. \<not> isRenewal e) (history X initial create w)) \<le>
     9 * nat (cp_MaxSteps initial - cp_ModelIterations initial) + 4"
  by (rule history_effort)

end
