(* ===== verification/Example_Support.thy ===== *)
theory Example_Support
  imports Runtime_API
begin

text \<open>
  What the programs under \<^verbatim>\<open>examples/\<close> share: how they end, what their \<^verbatim>\<open>main\<close> makes of it, and the errors they wrap. What a
  program prints is kept in the observer component of the world.
\<close>

definition newline :: string where
  "newline = [CHR 0x0A]"

definition second :: int where
  "second = 1000000000"

abbreviation failing :: "string \<Rightarrow> goerr \<Rightarrow> goerr" where
  "failing text err \<equiv> Errorf [Lit text, W err]"

text \<open>How \<^verbatim>\<open>run\<close> of an example ends: it returns, the program exits inside a call, or a panic ends it.\<close>

datatype program_end = Ended "goerr option" | Exited int | Crashed

text \<open>\<^verbatim>\<open>main\<close>: the exit code and what goes to standard error.\<close>

definition exampleMain :: "(nat \<Rightarrow> bool) \<Rightarrow> program_end \<Rightarrow> int \<times> string" where
  "exampleMain table e =
     (case e of
        Ended None \<Rightarrow> (0, [])
      | Ended (Some err) \<Rightarrow> (1, errorText table err @ newline)
      | Exited code \<Rightarrow> (code, [])
      | Crashed \<Rightarrow> (2, []))"

end
