(* ===== verification/Sandbox_Agents.thy ===== *)
theory Sandbox_Agents
  imports Example_Support Traces OpenAI_Model Tool_Adapters File_Store
begin

text \<open>
  The example agents that run tools in a sandbox: \<^verbatim>\<open>examples/sandbox-agent\<close>, whose model is a script, and
  \<^verbatim>\<open>examples/deepseek-sandbox-agent\<close>, which asks a provider. The Docker backend, the request type of the sandbox
  (\<open>mk\<close> builds a value from command, arguments and timeout) with its validation, and the environment variables are
  arguments; what the programs print is the state of their observer.
\<close>

section \<open>What both programs share\<close>

text \<open>\<^verbatim>\<open>(time.Duration).Round\<close> for a positive multiple\<close>

definition roundDuration :: "int \<Rightarrow> int \<Rightarrow> int" where
  "roundDuration m d =
     (let r = \<bar>d\<bar> mod m; v = (if r + r < m then \<bar>d\<bar> - r else \<bar>d\<bar> - r + m); x = (if d < 0 then - v else v)
      in if x < - (2 ^ 63) then - (2 ^ 63) else if 2 ^ 63 - 1 < x then 2 ^ 63 - 1 else x)"

text \<open>The line that an event prints.\<close>

definition eventLine :: "(nat \<Rightarrow> bool) \<Rightarrow> Event \<Rightarrow> string" where
  "eventLine table event =
     ''event='' @ eventTypeText (ev_Type event) @ '' status='' @ statusText (ev_Status event) @
     (if ev_ModelAttempt event \<noteq> 0 then '' attempt='' @ decimal (ev_ModelAttempt event) else []) @
     (if ev_ToolName event \<noteq> [] then '' tool='' @ ev_ToolName event @ '' call='' @ ev_ToolCallID event else []) @
     (if ev_Duration event \<noteq> 0 then '' duration='' @ durationString (roundDuration 1000 (ev_Duration event)) else []) @
     (case ev_Error event of None \<Rightarrow> [] | Some err \<Rightarrow> '' error='' @ quote table (errorText table err)) @
     newline"

definition printEvent :: "(nat \<Rightarrow> bool) \<Rightarrow> string observer" where
  "printEvent table event out = (out @ eventLine table event, False)"

definition sandboxImage :: string where
  "sandboxImage = ''alpine:3.22@sha256:14358309a308569c32bdc37e2e0e9694be33a9d99e68afb0f5ff33cc1f695dce''"

text \<open>A sandbox executor as the tools of a runtime: it neither reconciles nor replays.\<close>

definition sandboxTools :: "('q \<Rightarrow> goerr option) \<Rightarrow> 'q SandboxToolExecutor \<Rightarrow> tool_ops" where
  "sandboxTools validate e =
     \<lparr>to_Execute = (\<lambda>t call. Some (sandboxExecute validate e call)), to_ReconcileToolOutcome = None, to_Replay = None\<rparr>"

section \<open>The scripted agent\<close>

abbreviation jsonQuoted :: "string \<Rightarrow> string" where
  "jsonQuoted s \<equiv> CHR 0x22 # s @ [CHR 0x22]"

text \<open>\<^verbatim>\<open>printf '%s\\n' 'hello from sandbox'\<close>, as it stands inside the JSON of the tool call and as the shell gets it.\<close>

definition scriptText :: "string \<Rightarrow> string" where
  "scriptText backslash =
     ''printf '' @ [CHR 0x27] @ ''%s'' @ backslash @ ''n'' @ [CHR 0x27, CHR 0x20, CHR 0x27] @ ''hello from sandbox'' @ [CHR 0x27]"

definition shellCall :: ToolCall where
  "shellCall = \<lparr>tc_ID = ''shell-1'', tc_Name = ''shell'',
     tc_Arguments = ''{'' @ jsonQuoted ''command'' @ '':'' @ jsonQuoted ''sh'' @ '','' @ jsonQuoted ''args'' @ '':['' @
       jsonQuoted ''-c'' @ '','' @ jsonQuoted (scriptText [CHR 0x5C, CHR 0x5C]) @ '']}''\<rparr>"

definition demoModelNext :: "goerr \<Rightarrow> ModelInput \<Rightarrow> Decision \<times> goerr option" where
  "demoModelNext jsonErr input =
     (case mi_Steps input of
        [] \<Rightarrow> (\<lparr>d_Kind = DecisionToolCall, d_Output = [], d_ToolCall = shellCall\<rparr>, None)
      | [step] \<Rightarrow>
          (case unmarshalSandboxOutput (tr_Output (sp_Result step)) of
             None \<Rightarrow> (zeroDecision, Some (failing ''decode sandbox tool output: '' jsonErr))
           | Some out \<Rightarrow>
               (\<lparr>d_Kind = DecisionFinal,
                 d_Output = (if sx_ExitCode out \<noteq> 0
                   then ''sandbox exited with code '' @ decimal (sx_ExitCode out) @ '': '' @ trimSpace (sx_Stderr out)
                   else trimSpace (sx_Stdout out)),
                 d_ToolCall = zeroToolCall\<rparr>, None))
      | steps \<Rightarrow> (zeroDecision, Some (Errorf [Lit ''unexpected tool history length '', Num (int (length steps))])))"

record shellArguments =
  sh_Command :: string
  sh_Args :: "string list"

definition unmarshalShellArguments :: "string \<Rightarrow> shellArguments option" where
  "unmarshalShellArguments data =
     (case parseJSON data of
        Malformed \<Rightarrow> None
      | Doc j \<Rightarrow> readStruct
          [(''command'', jsonField sh_Command (\<lambda>v x. x\<lparr>sh_Command := v\<rparr>) readString),
           (''args'', jsonField sh_Args (\<lambda>v x. x\<lparr>sh_Args := v\<rparr>) (readSlice readString []))]
          j \<lparr>sh_Command = [], sh_Args = []\<rparr>)"

definition resolveShell :: "goerr \<Rightarrow> (string \<Rightarrow> string list \<Rightarrow> int \<Rightarrow> 'q) \<Rightarrow> ToolCall \<Rightarrow> goerr + 'q" where
  "resolveShell jsonErr mk call =
     (if tc_Name call \<noteq> ''shell'' then Inl (Errorf [Lit ''unsupported tool '', Quoted (tc_Name call)])
      else case unmarshalShellArguments (tc_Arguments call) of
        None \<Rightarrow> Inl (failing ''decode shell arguments: '' jsonErr)
      | Some arguments \<Rightarrow> Inr (mk (sh_Command arguments) (sh_Args arguments) (5 * second)))"

definition sandboxAgentRun ::
  "env \<Rightarrow> goerr \<Rightarrow> (string \<Rightarrow> string list \<Rightarrow> int \<Rightarrow> 'q) \<Rightarrow> ('q \<Rightarrow> goerr option) \<Rightarrow>
     (string \<Rightarrow> goerr + ('q \<Rightarrow> goerr + sandbox_result)) \<Rightarrow> (unit, string) world \<Rightarrow> (unit, string) world \<times> program_end" where
  "sandboxAgentRun E jsonErr mk validate docker w =
     (case docker sandboxImage of
        Inl err \<Rightarrow> (w, Ended (Some (failing ''create Docker sandbox runtime: '' err)))
      | Inr sandboxRuntime \<Rightarrow>
      case NewSandboxToolExecutor (Some sandboxRuntime) (Some (resolveShell jsonErr mk)) of
        Inl err \<Rightarrow> (w, Ended (Some (failing ''create sandbox tool executor: '' err)))
      | Inr toolExecutor \<Rightarrow>
      case New (Some (BaseModel (\<lambda>t input. Some (demoModelNext jsonErr input)))) (Some (BaseTools (sandboxTools validate toolExecutor)))
             [Some (WithObserver (Some (printEvent (en_isPrint E))))] of
        Inl err \<Rightarrow> (w, Ended (Some (failing ''create Harness runtime: '' err)))
      | Inr runtime \<Rightarrow>
      case Run E runtime False \<lparr>rq_ExecutionID = ''sandbox-dogfood'', rq_Prompt = ''run one command in the sandbox''\<rparr> w of
        (w1, Panicked) \<Rightarrow> (w1, Crashed)
      | (w1, Returned result (Some err)) \<Rightarrow> (w1, Ended (Some (failing ''run Harness: '' err)))
      | (w1, Returned result None) \<Rightarrow>
          (w1\<lparr>w_obs := w_obs w1 @ ''final='' @ quote (en_isPrint E) (rs_Output result) @ newline\<rparr>, Ended None))"

section \<open>The provider-backed agent\<close>

definition defaultBaseURL :: string where
  "defaultBaseURL = ''https://api.deepseek.com''"

definition defaultModel :: string where
  "defaultModel = ''deepseek-v4-flash''"

definition probeID :: string where
  "probeID = ''deepseek-sandbox-dogfood''"

definition expectedCommand :: string where
  "expectedCommand = ''printf deepseek-harness-ok''"

definition expectedOutput :: string where
  "expectedOutput = ''deepseek-harness-ok''"

definition unmarshalShellCommand :: "string \<Rightarrow> string option" where
  "unmarshalShellCommand data =
     (case parseJSON data of
        Malformed \<Rightarrow> None
      | Doc j \<Rightarrow> readStruct [(''command'', jsonField id (\<lambda>v x. v) readString)] j [])"

definition resolveProbeShell :: "goerr \<Rightarrow> (string \<Rightarrow> string list \<Rightarrow> int \<Rightarrow> 'q) \<Rightarrow> ToolCall \<Rightarrow> goerr + 'q" where
  "resolveProbeShell jsonErr mk call =
     (if tc_Name call \<noteq> ''shell'' then Inl (Errorf [Lit ''unsupported tool '', Quoted (tc_Name call)])
      else case unmarshalShellCommand (tc_Arguments call) of
        None \<Rightarrow> Inl (failing ''decode shell arguments: '' jsonErr)
      | Some command \<Rightarrow>
          if command \<noteq> expectedCommand then Inl (Errorf [Lit ''unexpected dogfood command '', Quoted command])
          else Inr (mk ''sh'' [''-lc'', command] (5 * second)))"

definition printProbeEvent :: "(nat \<Rightarrow> bool) \<Rightarrow> string observer" where
  "printProbeEvent table event out = (out @ eventLine table event, False)"

definition envOrDefault :: "(string \<Rightarrow> string) \<Rightarrow> string \<Rightarrow> string \<Rightarrow> string" where
  "envOrDefault getenv name fallback = (let val = trimSpace (getenv name) in if val \<noteq> [] then val else fallback)"

text \<open>The machine the program runs on: environment variables, file system, provider and sandbox.\<close>

record 'q probe_host =
  pb_getenv :: "string \<Rightarrow> string"
  pb_mkdirTemp :: "goerr + string"
  pb_call :: store_call
  pb_abs :: "string \<Rightarrow> string"
  pb_isDir :: bool
  pb_digest :: "string \<Rightarrow> string"
  pb_parse :: "string \<Rightarrow> goerr + URL"
  pb_render :: "URL \<Rightarrow> string"
  pb_transport :: "http_request \<Rightarrow> goerr + http_response"
  pb_encodeErr :: "nat \<Rightarrow> goerr option"
  pb_buildErr :: "nat \<Rightarrow> goerr option"
  pb_jsonErr :: goerr
  pb_mk :: "string \<Rightarrow> string list \<Rightarrow> int \<Rightarrow> 'q"
  pb_validate :: "'q \<Rightarrow> goerr option"
  pb_docker :: "string \<Rightarrow> goerr + ('q \<Rightarrow> goerr + sandbox_result)"

definition probeParameters :: string where
  "probeParameters = (let nl = CHR 0x0A # replicate 4 (CHR 0x09); tab = [CHR 0x09] in
     ''{'' @ nl @ jsonQuoted ''type'' @ '':'' @ jsonQuoted ''object'' @ '','' @
     nl @ jsonQuoted ''properties'' @ '':{'' @
     nl @ tab @ jsonQuoted ''command'' @ '':{'' @ jsonQuoted ''type'' @ '':'' @ jsonQuoted ''string'' @ '','' @
       jsonQuoted ''description'' @ '':'' @ jsonQuoted ''The exact command requested by the user.'' @ ''}'' @
     nl @ ''},'' @
     nl @ jsonQuoted ''required'' @ '':['' @ jsonQuoted ''command'' @ ''],'' @
     nl @ jsonQuoted ''additionalProperties'' @ '':false'' @ CHR 0x0A # replicate 3 (CHR 0x09) @ ''}'')"

definition probeConfig :: "'q probe_host \<Rightarrow> string \<Rightarrow> OpenAICompatibleModelConfig" where
  "probeConfig H apiKey =
     \<lparr>cf_BaseURL = envOrDefault (pb_getenv H) ''DEEPSEEK_BASE_URL'' defaultBaseURL,
      cf_APIKey = apiKey,
      cf_Model = envOrDefault (pb_getenv H) ''DEEPSEEK_MODEL'' defaultModel,
      cf_SystemPrompt = ''You are a tool-using execution agent. For this probe, call the shell tool exactly once with the command requested by the user. After the tool result arrives, do not call another tool; answer with exactly the stdout text and no explanation.'',
      cf_Tools = [\<lparr>ot_Name = ''shell'',
         ot_Description = ''Run the one exact shell command requested by this dogfood probe inside an isolated sandbox.'',
         ot_Parameters = probeParameters, ot_Strict = False\<rparr>],
      cf_ExtraBody = [(''thinking'', ''{'' @ jsonQuoted ''type'' @ '':'' @ jsonQuoted ''disabled'' @ ''}'')],
      cf_HTTPClient = Some \<lparr>hc_FollowsRedirects = True, hc_Do = pb_transport H\<rparr>\<rparr>"

definition probeRequest :: Request where
  "probeRequest = \<lparr>rq_ExecutionID = probeID,
     rq_Prompt = ''Use the shell tool exactly once to run this exact command: '' @ expectedCommand @
       ''. After the tool result, answer with exactly the stdout and nothing else.''\<rparr>"

text \<open>What the program checks of a result.\<close>

definition checkProbeResult :: "goerr \<Rightarrow> Result \<Rightarrow> goerr option" where
  "checkProbeResult jsonErr result =
     (if rs_Status result \<noteq> StatusCompleted
      then Some (Errorf [Lit ''unexpected final status '', Quoted (statusText (rs_Status result))])
      else if length (rs_Steps result) \<noteq> 1
      then Some (Errorf [Lit ''completed with '', Num (int (length (rs_Steps result))), Lit '' tool steps, want 1''])
      else case unmarshalSandboxOutput (tr_Output (sp_Result (rs_Steps result ! 0))) of
        None \<Rightarrow> Some (failing ''decode sandbox output: '' jsonErr)
      | Some toolOutput \<Rightarrow>
          if sx_ExitCode toolOutput \<noteq> 0 \<or> trimSpace (sx_Stdout toolOutput) \<noteq> expectedOutput
          then Some (Errorf [Lit ''unexpected sandbox result: exit='', Num (sx_ExitCode toolOutput),
                             Lit '' stdout='', Quoted (sx_Stdout toolOutput), Lit '' stderr='', Quoted (sx_Stderr toolOutput)])
          else if trimSpace (rs_Output result) \<noteq> expectedOutput
          then Some (Errorf [Lit ''unexpected final answer '', Quoted (rs_Output result)])
          else None)"

text \<open>The checkpoint is loaded again at the end, and the checked line printed.\<close>

definition finishProbe ::
  "env \<Rightarrow> 'q probe_host \<Rightarrow> Result \<Rightarrow> (FileStore, string) world \<Rightarrow> (FileStore, string) world \<times> program_end" where
  "finishProbe E H result w =
     (case checkProbeResult (pb_jsonErr H) result of
        Some err \<Rightarrow> (w, Ended (Some err))
      | None \<Rightarrow>
      case fileLoad (pb_digest H) (en_call E (w_tick w)) probeID (w_store w) of
        Inl err \<Rightarrow> (w, Ended (Some (failing ''reload checkpoint: '' err)))
      | Inr checkpoint \<Rightarrow>
          if cp_Status checkpoint \<noteq> StatusCompleted \<or> length (cp_Steps checkpoint) \<noteq> 1
          then (w, Ended (Some (Errorf [Lit ''unexpected persisted checkpoint: status='', Quoted (statusText (cp_Status checkpoint)),
                                        Lit '' steps='', Num (int (length (cp_Steps checkpoint)))])))
          else (w\<lparr>w_obs := w_obs w @ ''model='' @ envOrDefault (pb_getenv H) ''DEEPSEEK_MODEL'' defaultModel @ '' final='' @
                    quote (en_isPrint E) (rs_Output result) @ '' checkpoint_status='' @ statusText (cp_Status checkpoint) @ newline\<rparr>,
                Ended None))"

definition probeRun ::
  "env \<Rightarrow> 'q probe_host \<Rightarrow> string \<Rightarrow> string \<Rightarrow> (FileStore, string) world \<Rightarrow> (FileStore, string) world \<times> program_end" where
  "probeRun E H apiKey checkpointDir w =
     (case NewFileStore (pb_call H) checkpointDir (pb_abs H checkpointDir) (pb_isDir H) (w_store w) of
        Inl err \<Rightarrow> (w, Ended (Some (failing ''create checkpoint store: '' err)))
      | Inr store \<Rightarrow>
      case NewOpenAICompatibleModel (pb_parse H) (pb_render H) \<lparr>hc_FollowsRedirects = True, hc_Do = pb_transport H\<rparr> (probeConfig H apiKey) of
        Inl err \<Rightarrow> (w, Ended (Some (failing ''create DeepSeek model adapter: '' err)))
      | Inr model \<Rightarrow>
      case pb_docker H sandboxImage of
        Inl err \<Rightarrow> (w, Ended (Some (failing ''create Docker sandbox runtime: '' err)))
      | Inr sandboxRuntime \<Rightarrow>
      case NewSandboxToolExecutor (Some sandboxRuntime) (Some (resolveProbeShell (pb_jsonErr H) (pb_mk H))) of
        Inl err \<Rightarrow> (w, Ended (Some (failing ''create sandbox tool executor: '' err)))
      | Inr toolExecutor \<Rightarrow>
      case New (Some (BaseModel (\<lambda>t input. Some (openAINext False (pb_encodeErr H t) (pb_buildErr H t) (pb_jsonErr H) model input))))
             (Some (BaseTools (sandboxTools (pb_validate H) toolExecutor)))
             [Some (WithCheckpointStore (Some (fileStore (pb_digest H)))), Some (WithObserver (Some (printProbeEvent (en_isPrint E)))),
              Some (WithMaxSteps 2)] of
        Inl err \<Rightarrow> (w, Ended (Some (failing ''create Harness runtime: '' err)))
      | Inr runtime \<Rightarrow>
      case Run E runtime False probeRequest (w\<lparr>w_store := store\<rparr>) of
        (w1, Panicked) \<Rightarrow> (w1, Crashed)
      | (w1, Returned result (Some err)) \<Rightarrow> (w1, Ended (Some (failing ''run Harness: '' err)))
      | (w1, Returned result None) \<Rightarrow> finishProbe E H result w1)"

text \<open>\<^verbatim>\<open>defer os.RemoveAll(checkpointDir)\<close>\<close>

definition removeAll :: "string \<Rightarrow> FileStore \<Rightarrow> FileStore" where
  "removeAll dir s = s\<lparr>fs_files := (\<lambda>p. if take (Suc (length dir)) p = dir @ ''/'' then None else fs_files s p)\<rparr>"

definition deepseekRun :: "env \<Rightarrow> 'q probe_host \<Rightarrow> (FileStore, string) world \<Rightarrow> (FileStore, string) world \<times> program_end" where
  "deepseekRun E H w =
     (let apiKey = trimSpace (pb_getenv H ''DEEPSEEK_API_KEY'') in
      if apiKey = [] then (w, Ended (Some (Errorf [Lit ''DEEPSEEK_API_KEY is required''])))
      else case pb_mkdirTemp H of
        Inl err \<Rightarrow> (w, Ended (Some (failing ''create checkpoint directory: '' err)))
      | Inr checkpointDir \<Rightarrow>
          (case probeRun E H apiKey checkpointDir w of
             (w1, e) \<Rightarrow> (w1\<lparr>w_store := removeAll (pb_abs H checkpointDir) (w_store w1)\<rparr>, e)))"

text \<open>\<^verbatim>\<open>main\<close>: the deadline of its context is part of the environment.\<close>

definition probeMain :: "env \<Rightarrow> 'q probe_host \<Rightarrow> (FileStore, string) world \<Rightarrow> (FileStore, string) world \<times> int \<times> string" where
  "probeMain E H w = map_prod id (exampleMain (en_isPrint E)) (deepseekRun E H w)"

end
