(* ===== verification/Agent_Runs.thy ===== *)
theory Agent_Runs
  imports Sandbox_Agents Genuine_Steps Progress Recovery
begin

text \<open>
  The two sandbox programs as clients of the runtime: a run without a checkpoint store is the dialogue of
  model and tools, and the steps of any result are what the sandbox produced.
\<close>

section \<open>The scripted agent\<close>

lemma shell_arguments: "unmarshalShellArguments (tc_Arguments shellCall) = Some \<lparr>sh_Command = ''sh'', sh_Args = [''-c'', scriptText [CHR 0x5C]]\<rparr>"
  by code_simp

lemma storeless_unrefused:
  assumes "rt_store (ss_rt X) = None"
  shows "\<not> list_ex refusal (history X initial create w)"
proof -
  have "\<not> refusedSince (length (w_log w)) (fst (run X initial create w))"
    using storeless.run_keeps [of X "length (w_log w)" initial w create] assms by (simp add: refusedSince_def startState_def)
  with run_log [of X initial create w] show ?thesis by (simp add: refusedSince_def)
qed

text \<open>A run without a checkpoint store is \<^verbatim>\<open>run\<close> from the fresh checkpoint.\<close>

lemma Run_storeless:
  assumes "rt_store rt = None" and "rq_Prompt req \<noteq> []"
  shows "snd (Run E rt False req w) = outcomeOf (ownSession E rt (rq_ExecutionID req)) (initialCheckpoint rt req) True w"
  using assms
  by (simp add: Run_def underOwnership_def acquireExecutionOwnership_def noop_def startExecutionLeaseRenewal_def
      withExecutionFencingToken_def ownSession_def runWorld_def outcomeOf_def split: prod.splits)

text \<open>The request that the sandbox gets, and the answer that its result stands for.\<close>

definition scriptRequest :: "(string \<Rightarrow> string list \<Rightarrow> int \<Rightarrow> 'q) \<Rightarrow> 'q" where
  "scriptRequest mk = mk ''sh'' [''-c'', scriptText [CHR 0x5C]] (5 * second)"

definition scriptAnswer :: "sandbox_result \<Rightarrow> string" where
  "scriptAnswer result =
     (if sx_ExitCode result \<noteq> 0
      then ''sandbox exited with code '' @ decimal (sx_ExitCode result) @ '': '' @ trimSpace (coerceUTF8 (sx_Stderr result))
      else trimSpace (coerceUTF8 (sx_Stdout result)))"

lemma resolve_script: "resolveShell jsonErr mk shellCall = Inr (scriptRequest mk)"
proof -
  have "tc_Name shellCall = ''shell''" by (simp add: shellCall_def)
  then show ?thesis by (simp add: resolveShell_def shell_arguments scriptRequest_def)
qed

lemma execute_script:
  assumes "validate (scriptRequest mk) = None" and "execute (scriptRequest mk) = Inr result"
  shows "sandboxExecute validate \<lparr>sx_runtime = execute, sx_resolve = resolveShell jsonErr mk\<rparr> shellCall =
    (printJSON (marshalSandboxOutput result), None)"
  using assms by (simp add: sandboxExecute_def resolve_script)

definition answers :: "(ModelInput \<Rightarrow> Decision \<times> goerr option) \<Rightarrow> ModelInput \<Rightarrow> Decision option" where
  "answers f inp = (case f inp of (d, None) \<Rightarrow> Some d | (d, Some err) \<Rightarrow> None)"

definition outputs :: "(ToolCall \<Rightarrow> string \<times> goerr option) \<Rightarrow> ToolCall \<Rightarrow> string option" where
  "outputs f call = (case f call of (out, None) \<Rightarrow> Some out | (out, Some err) \<Rightarrow> None)"

lemma script_dialogue:
  assumes "validate (scriptRequest mk) = None" and "execute (scriptRequest mk) = Inr result" and "fitsInt64 (sx_ExitCode result)"
  shows "\<exists>steps. dialogue (answers (demoModelNext jsonErr))
      (outputs (sandboxExecute validate \<lparr>sx_runtime = execute, sx_resolve = resolveShell jsonErr mk\<rparr>)) prompt (Suc (Suc n)) [] =
    Some (steps, scriptAnswer result)"
proof -
  have "Validate \<lparr>d_Kind = DecisionToolCall, d_Output = [], d_ToolCall = shellCall\<rparr> = None"
    by (simp add: Validate_def shellCall_def)
  moreover have "Validate \<lparr>d_Kind = DecisionFinal, d_Output = x, d_ToolCall = zeroToolCall\<rparr> = None" for x
    by (simp add: Validate_def)
  ultimately show ?thesis
    using execute_script [of validate mk execute result jsonErr, OF assms(1,2)] unmarshal_sandbox [OF assms(3)]
    by (simp add: answers_def outputs_def demoModelNext_def completedStep_def scriptAnswer_def coercedResult_def)
qed

lemma cooperative_script:
  assumes "rt_model rt = BaseModel (\<lambda>t inp. Some (f inp))" and "rt_tools rt = Some (BaseTools ops)"
    and "to_Execute ops = (\<lambda>t call. Some (g call))" and "\<And>t. en_ctx E t = None"
  shows "cooperative (ownSession E rt i) (answers f) (outputs g)"
  using assms by (auto simp: cooperative_def answers_def outputs_def split: prod.splits option.splits)

section \<open>The probe\<close>

definition probeCommand :: "'q probe_host \<Rightarrow> 'q" where
  "probeCommand H = pb_mk H ''sh'' [''-lc'', expectedCommand] (5 * second)"

lemma resolveProbe_expected: "resolveProbeShell jsonErr (pb_mk H) call = Inr req \<Longrightarrow> req = probeCommand H"
  by (auto simp: resolveProbeShell_def probeCommand_def split: if_splits option.splits)

text \<open>What the tools of the probe answer is the sandbox's result for the expected command.\<close>

lemma sandbox_output_range:
  "unmarshalSandboxOutput (printJSON (marshalSandboxOutput result)) = Some out \<Longrightarrow> out = coercedResult result"
proof -
  assume a: "unmarshalSandboxOutput (printJSON (marshalSandboxOutput result)) = Some out"
  have "parseJSON (printJSON (marshalSandboxOutput result)) = Doc (coercedJSON (marshalSandboxOutput result))"
    by (rule parse_print) (simp_all add: marshalSandboxOutput_def maxNestingDepth_def)
  with a have "fitsInt64 (sx_ExitCode result)"
    by (auto simp: unmarshalSandboxOutput_def marshalSandboxOutput_def readSandboxOutput_def readStruct_def findField_def jsonField_def
        readInt_def coerceUTF8_valid validString_ASCII split: if_splits)
  from unmarshal_sandbox [OF this] a show ?thesis by simp
qed

lemma probe_tool_output:
  assumes "sandboxExecute (pb_validate H) \<lparr>sx_runtime = execute, sx_resolve = resolveProbeShell (pb_jsonErr H) (pb_mk H)\<rparr> call = (text, None)"
    and "unmarshalSandboxOutput text = Some out"
  obtains result where "execute (probeCommand H) = Inr result" "out = coercedResult result" "pb_validate H (probeCommand H) = None"
proof -
  from assms(1) obtain req result where r: "resolveProbeShell (pb_jsonErr H) (pb_mk H) call = Inr req" "pb_validate H req = None"
      "execute req = Inr result" "text = printJSON (marshalSandboxOutput result)"
    by (auto simp: sandboxExecute_def split: sum.splits option.splits)
  from resolveProbe_expected [OF r(1)] r(2,3) sandbox_output_range [OF assms(2) [unfolded r(4)]] show thesis
    by (intro that) auto
qed

lemma Run_steps_genuine:
  assumes "Run E rt nilCtx req w = (w', Returned res None)" and "st \<in> set (rs_Steps res)"
  obtains tools where "rt_tools rt = Some tools" "toolProduces tools (sp_Call st) (tr_Output (sp_Result st))"
proof -
  have u: "underOwnership (ownSession E rt (rq_ExecutionID req)) (rq_ExecutionID req) False
      (\<lambda>X. runWorld X (initialCheckpoint rt req) True) w = (w', Returned res None)"
    using assms(1) by (auto simp: Run_def split: if_splits)
  have "\<not> ss_renewing (ownSession E rt (rq_ExecutionID req))" by simp
  from this u obtain X w1 w2 where X: "ss_rt X = rt" "runWorld X (initialCheckpoint rt req) True w1 = (w2, Returned res None)"
    by (cases rule: underOwnership_cases) auto
  have "outcomeOf X (initialCheckpoint rt req) True w1 = Returned res None"
    using runWorld_outcome [of X "initialCheckpoint rt req" True w1] X(2) by simp
  from history_genuine(2) [OF this] assms(2) X(1) that show thesis
    by (auto simp: list_all_iff genuine_def initialCheckpoint_def snapshot_def cloneSteps_def)
qed

end
