(* ===== verification/Sqlite_Recovery.thy ===== *)
theory Sqlite_Recovery
  imports Example_Support File_Store Sqlite_Store
begin

text \<open>
  The crash demonstration \<^verbatim>\<open>examples/sqlite-recovery\<close>: a child process takes the lease of an execution and exits inside
  its first model callback; the parent is refused while the lease lives and finishes the execution
  afterwards. Both processes act on the rows of one database file, which \<^verbatim>\<open>Close\<close> leaves as they are, and on one
  time line: every operation takes the next tick of the environment, and so does sleeping.
\<close>

definition recoveryID :: string where
  "recoveryID = ''sqlite-crash-recovery-demo''"

definition leaseDuration :: int where
  "leaseDuration = 2 * second"

definition crashExitCode :: int where
  "crashExitCode = 42"

text \<open>\<^verbatim>\<open>os.Exit\<close> in a callback: the callback does not return.\<close>

definition crashModel :: Model where
  "crashModel = BaseModel (\<lambda>t input. None)"

definition recoveryModel :: Model where
  "recoveryModel = BaseModel (\<lambda>t input.
     Some (\<lparr>d_Kind = DecisionFinal, d_Output = ''recovered after process crash'', d_ToolCall = zeroToolCall\<rparr>, None))"

type_synonym recovery_world = "(SQLiteCheckpointStore, string) world"

definition say :: "string \<Rightarrow> recovery_world \<Rightarrow> recovery_world" where
  "say text w = w\<lparr>w_obs := w_obs w @ text @ newline\<rparr>"

definition newRuntime ::
  "store_call \<Rightarrow> string \<Rightarrow> Model \<Rightarrow> (string \<rightharpoonup> sqliteRow) \<Rightarrow> goerr + (SQLiteCheckpointStore, string) Runtime \<times> SQLiteCheckpointStore" where
  "newRuntime c path model rows =
     (case NewSQLiteCheckpointStore c path leaseDuration rows of
        Inl err \<Rightarrow> Inl (failing ''open SQLite checkpoint store: '' err)
      | Inr store \<Rightarrow>
          (case New (Some model) None [Some (WithCheckpointStore (Some sqliteStore))] of
             Inl err \<Rightarrow> Inl (failing ''create Harness runtime: '' err)
           | Inr runtime \<Rightarrow> Inr (runtime, store)))"

text \<open>
  \<^verbatim>\<open>Run\<close> in a process that a callback may end: then no deferred function runs, the lease is not released and
  nothing else happens.
\<close>

definition exitingRun ::
  "env \<Rightarrow> (SQLiteCheckpointStore, string) Runtime \<Rightarrow> Request \<Rightarrow> recovery_world \<Rightarrow> recovery_world \<times> outcome" where
  "exitingRun E rt req w =
     (let X0 = ownSession E rt (rq_ExecutionID req) in
      case acquireExecutionOwnership X0 (rq_ExecutionID req) False w of
        (w1, Inl err) \<Rightarrow> (w1, Returned zeroResult (Some err))
      | (w1, Inr ownership) \<Rightarrow>
          (case startExecutionLeaseRenewal (withExecutionFencingToken (ow_fencingToken ownership) X0)
                  (ow_fencingToken ownership) (w_store w1) of
             Inl err \<Rightarrow> (releaseOwnership X0 ownership w1, Returned zeroResult (Some err))
           | Inr X \<Rightarrow>
               (case runWorld X (initialCheckpoint rt req) True w1 of
                  (w2, Panicked) \<Rightarrow> (w2, Panicked)
                | (w2, out) \<Rightarrow> (releaseOwnership X0 ownership w2, out))))"

definition recoveryRequest :: Request where
  "recoveryRequest = \<lparr>rq_ExecutionID = recoveryID, rq_Prompt = ''demonstrate crash recovery''\<rparr>"

definition runCrashOwner :: "env \<Rightarrow> string \<Rightarrow> recovery_world \<Rightarrow> recovery_world \<times> program_end" where
  "runCrashOwner E path w =
     (case newRuntime (en_call E (w_tick w)) path crashModel (sq_rows (w_store w)) of
        Inl err \<Rightarrow> (w, Ended (Some err))
      | Inr (runtime, store) \<Rightarrow>
          (case exitingRun E runtime recoveryRequest
                  (say ''owner: starting execution; Harness will persist running_model before the callback''
                    (say (''owner: database='' @ path) (w\<lparr>w_store := store, w_tick := Suc (w_tick w), w_done := None\<rparr>))) of
             (w1, Panicked) \<Rightarrow>
               (say ''owner: model callback started; exiting without releasing the lease'' w1, Exited crashExitCode)
           | (w1, Returned result (Some err)) \<Rightarrow> (w1, Ended (Some (failing ''run owner: '' err)))
           | (w1, Returned result None) \<Rightarrow>
               (w1, Ended (Some (Errorf [Lit ''owner returned without the expected process crash''])))))"

text \<open>The parent after the crash.\<close>

definition recoverExecution ::
  "env \<Rightarrow> string \<Rightarrow> recovery_world \<Rightarrow> recovery_world \<times> program_end" where
  "recoverExecution E path w =
     (case newRuntime (en_call E (w_tick w)) path recoveryModel (sq_rows (w_store w)) of
        Inl err \<Rightarrow> (w, Ended (Some err))
      | Inr (runtime, store) \<Rightarrow>
      case Resume E runtime False recoveryID (w\<lparr>w_store := store, w_tick := Suc (w_tick w), w_done := None\<rparr>) of
        (w1, Panicked) \<Rightarrow> (w1, Crashed)
      | (w1, Returned result1 err1) \<Rightarrow>
      if \<not> (case err1 of None \<Rightarrow> False | Some err \<Rightarrow> errorsIs err ErrExecutionBusy)
      then (w1, Ended (Some (Errorf [Lit ''immediate Resume() error = '',
                  (case err1 of None \<Rightarrow> Lit ''<nil>'' | Some err \<Rightarrow> V err), Lit '', want ErrExecutionBusy''])))
      else
      case Resume E runtime False recoveryID
             ((say (''recovery: waiting for '' @ durationString leaseDuration @ '' lease expiry'')
               (say ''recovery: immediate resume is blocked by the still-live lease'' w1))\<lparr>w_tick := Suc (w_tick w1), w_done := None\<rparr>) of
        (w2, Panicked) \<Rightarrow> (w2, Crashed)
      | (w2, Returned result (Some err)) \<Rightarrow> (w2, Ended (Some (failing ''resume after lease expiry: '' err)))
      | (w2, Returned result None) \<Rightarrow>
      if rs_Status result \<noteq> StatusCompleted
      then (w2, Ended (Some (Errorf [Lit ''resume status = '', Str (statusText (rs_Status result)), Lit '', want '', Str (statusText StatusCompleted)])))
      else
      let w3 = say (''recovery: status='' @ statusText (rs_Status result) @ '' output='' @ quote (en_isPrint E) (rs_Output result)) w2 in
      case sqliteLoad (en_call E (w_tick w3)) recoveryID (w_store w3) of
        Inl err \<Rightarrow> (w3, Ended (Some (failing ''load final checkpoint: '' err)))
      | Inr checkpoint \<Rightarrow>
          (say (''recovery: durable checkpoint status='' @ statusText (cp_Status checkpoint) @ '' revision='' @
                decimal (uint (cp_Revision checkpoint))) w3, Ended None))"

text \<open>
  \<^verbatim>\<open>runDemo\<close>: \<open>mkdirTemp\<close> and \<open>executable\<close> are the answers of \<^verbatim>\<open>os.MkdirTemp\<close> and \<^verbatim>\<open>os.Executable\<close>, \<open>startErr\<close> that of starting the child,
  which is this program in its \<^verbatim>\<open>crash-owner\<close> mode.
\<close>

definition runDemo ::
  "env \<Rightarrow> goerr + string \<Rightarrow> goerr + string \<Rightarrow> goerr option \<Rightarrow> recovery_world \<Rightarrow> recovery_world \<times> program_end" where
  "runDemo E mkdirTemp executable startErr w =
     (case mkdirTemp of
        Inl err \<Rightarrow> (w, Ended (Some (failing ''create demo directory: '' err)))
      | Inr dir \<Rightarrow>
      let path = joinPath dir ''runtime.db''; w0 = say (''demo: database='' @ path) w in
      case executable of
        Inl err \<Rightarrow> (w0, Ended (Some (failing ''resolve executable: '' err)))
      | Inr program \<Rightarrow>
      case startErr of
        Some err \<Rightarrow> (w0, Ended (Some (failing ''owner process failed unexpectedly: '' err)))
      | None \<Rightarrow>
      let (w1, owner) = runCrashOwner E path w0; code = fst (exampleMain (en_isPrint E) owner) in
      if code = 0 then (w1, Ended (Some (Errorf [Lit ''owner process unexpectedly exited successfully''])))
      else if code \<noteq> crashExitCode
      then (w1, Ended (Some (failing ''owner process failed unexpectedly: '' (Errorf [Lit ''exit status '', Num code]))))
      else
      case recoverExecution E path (say ''demo: owner crashed; its release callback did not run'' w1) of
        (w2, Ended None) \<Rightarrow> (say (''demo: SQLite files remain under '' @ dir @ '' for inspection'') w2, Ended None)
      | (w2, e) \<Rightarrow> (w2, e))"

definition crashOwnerMode :: string where
  "crashOwnerMode = ''crash-owner''"

text \<open>\<^verbatim>\<open>main\<close> on its arguments, \<open>base\<close> being \<^verbatim>\<open>filepath.Base\<close> of the program name: the exit code and what goes to standard error.\<close>

definition recoveryMain ::
  "env \<Rightarrow> (string \<Rightarrow> string) \<Rightarrow> goerr + string \<Rightarrow> goerr + string \<Rightarrow> goerr option \<Rightarrow> string list \<Rightarrow> recovery_world \<Rightarrow>
     recovery_world \<times> int \<times> string" where
  "recoveryMain E base mkdirTemp executable startErr args w =
     (if length args = 3 \<and> args ! 1 = crashOwnerMode
      then map_prod id (exampleMain (en_isPrint E)) (runCrashOwner E (args ! 2) w)
      else if length args \<noteq> 1 then (w, 2, ''usage: '' @ base (hd args) @ newline)
      else map_prod id (exampleMain (en_isPrint E)) (runDemo E mkdirTemp executable startErr w))"

end
