(* ===== verification/Recovery_Demo.thy ===== *)
theory Recovery_Demo
  imports Sqlite_Recovery Takeover
begin

text \<open>
  The crash demonstration, followed step by step in an environment without faults: what each of the two
  processes writes into the database, at which tick, and what the other one finds there.
\<close>

section \<open>An environment without faults\<close>

definition quietEnv :: "env \<Rightarrow> bool" where
  "quietEnv E \<longleftrightarrow> (\<forall>t. undisturbed (en_call E t) \<and> en_ctx E t = None \<and> \<not> en_renewTick E t)"

lemma tick_quiet: "quietEnv (ss_env X) \<Longrightarrow> passTime X w = w\<lparr>w_tick := Suc (w_tick w)\<rparr>"
  by (cases "w_done w") (simp_all add: quietEnv_def passTime_def renewStep_def Let_def)

lemma sqlite_write_ok:
  assumes "undisturbed c" "validateCheckpoint cp = None" "tok \<noteq> 0" "uint tok \<le> maxInt64" "uint (cp_Revision cp) \<le> maxInt64"
    and "sq_rows s (cp_ExecutionID cp) = Some row"
    and "publishRow create (encodeCheckpoint cp) (uint (cp_Revision cp)) (uint tok) (sc_now c) row = Some row'"
  shows "sqliteWriteFenced create c cp tok s = (s\<lparr>sq_rows := (sq_rows s)(cp_ExecutionID cp \<mapsto> row')\<rparr>, None)"
  using assms by (simp add: sqliteWriteFenced_def checkSQLiteStoreContext_def undisturbed_def sqliteInt64_def execUpdate_def Let_def)

definition recoveryRuntime :: "Model \<Rightarrow> (SQLiteCheckpointStore, string) Runtime" where
  "recoveryRuntime model = \<lparr>rt_store = Some sqliteStore, rt_model = model, rt_tools = None, rt_observer = None,
     rt_maxSteps = defaultMaxSteps, rt_modelRetry = \<lparr>mr_MaxRetries = 0, mr_Delay = 0\<rparr>\<rparr>"

lemma newRuntime_ok:
  assumes "undisturbed c" "path \<noteq> []"
  shows "newRuntime c path model rows = Inr (recoveryRuntime model, \<lparr>sq_leaseDuration = leaseDuration, sq_rows = rows\<rparr>)"
  using assms by (simp add: newRuntime_def NewSQLiteCheckpointStore_def undisturbed_def sqliteInitialize_def leaseDuration_def second_def
      New_def WithCheckpointStore_def recoveryRuntime_def)

text \<open>As long as no callback exits, \<open>exitingRun\<close> is \<^verbatim>\<open>Run\<close>.\<close>

lemma exitingRun_returns:
  "exitingRun E rt recoveryRequest w = (w', Returned res err) \<Longrightarrow> Run E rt False recoveryRequest w = (w', Returned res err)"
  by (auto simp: exitingRun_def Run_def underOwnership_def Let_def recoveryRequest_def recoveryID_def
      split: prod.splits sum.splits outcome.splits)

text \<open>One write of a session that holds the lease.\<close>

lemma persist_quiet:
  fixes s :: "(SQLiteCheckpointStore, string) rstate"
  assumes "quietEnv (ss_env X)" "rt_store (ss_rt X) = Some sqliteStore" "ss_token X = tok" "tok \<noteq> 0" "uint tok \<le> maxInt64" "w_done s = None"
    and "withRevision (assembleCheckpoint X initial current None s) = cp"
    and "validateCheckpoint cp = None" "uint (cp_Revision cp) \<le> maxInt64" "sq_rows (w_store s) (cp_ExecutionID cp) = Some row"
    and "publishRow create (encodeCheckpoint cp) (uint (cp_Revision cp)) (uint tok) (sc_now (en_call (ss_env X) (w_tick s))) row = Some row'"
  shows "persist X initial current None create s =
    ((emit (Wrote create cp tok None) s)\<lparr>w_store := (w_store s)\<lparr>sq_rows := (sq_rows (w_store s))(cp_ExecutionID cp \<mapsto> row')\<rparr>,
       w_tick := Suc (w_tick s), r_lastSaved := current\<lparr>rs_ExecutionID := rq_ExecutionID (cp_Request initial)\<rparr>\<rparr>, None)"
proof -
  have "undisturbed (en_call (ss_env X) (w_tick s))" using assms(1) by (simp add: quietEnv_def)
  from sqlite_write_ok [OF this assms(8,4,5,9-11)] assms(1-7) show ?thesis
    by (cases create) (simp_all add: persist_def writeCheckpoint_def finishWrite_def leaseLost_def Let_def sqliteStore_def tick_quiet emit_def)
qed

definition leasedRow :: "string option \<Rightarrow> int \<Rightarrow> int \<Rightarrow> int \<Rightarrow> sqliteRow" where
  "leasedRow json revision token expires =
     \<lparr>sq_checkpoint_json = json, sq_revision = revision, sq_fencing_token = token, sq_lease_expires = expires\<rparr>"

definition recoverySession :: "env \<Rightarrow> Model \<Rightarrow> uint64 \<Rightarrow> (SQLiteCheckpointStore, string) session" where
  "recoverySession E model tok = (ownSession E (recoveryRuntime model) recoveryID)\<lparr>ss_token := tok, ss_renewing := True\<rparr>"

lemma recoverySession_simps [simp]:
  "ss_env (recoverySession E model tok) = E"
  "ss_token (recoverySession E model tok) = tok"
  "rt_store (ss_rt (recoverySession E model tok)) = Some sqliteStore"
  "rt_model (ss_rt (recoverySession E model tok)) = model"
  "rt_observer (ss_rt (recoverySession E model tok)) = None"
  by (simp_all add: recoverySession_def ownSession_def recoveryRuntime_def)

text \<open>The local variables and the world of a run of the demonstration.\<close>

definition demoState :: "nat \<Rightarrow> string \<Rightarrow> SQLiteCheckpointStore \<Rightarrow> execution \<Rightarrow> int \<Rightarrow> (SQLiteCheckpointStore, string) rstate \<Rightarrow> bool" where
  "demoState t out db ex it s \<longleftrightarrow>
     w_done s = None \<and> w_tick s = t \<and> w_obs s = out \<and> w_store s = db \<and> r_exec s = ex \<and> r_iterations s = it \<and>
     r_modelRetries s = 0 \<and> r_steps s = [] \<and> r_pendingTool s = None \<and> \<not> r_storeFailed s"

definition recoveryCp :: "execution \<Rightarrow> int \<Rightarrow> string \<Rightarrow> Checkpoint" where
  "recoveryCp ex it output =
     (let cp = (initialCheckpoint (recoveryRuntime crashModel) recoveryRequest)
                 \<lparr>cp_ModelIterations := it, cp_Result := (snapshot ex [] output)\<lparr>rs_ExecutionID := recoveryID\<rparr>\<rparr>
      in cp\<lparr>cp_Revision := checkpointRevision cp\<rparr>)"

abbreviation holding :: "string option \<Rightarrow> int \<Rightarrow> uint64 \<Rightarrow> int \<Rightarrow> SQLiteCheckpointStore \<Rightarrow> SQLiteCheckpointStore" where
  "holding json revision tok expires db \<equiv> db\<lparr>sq_rows := (sq_rows db)(recoveryID \<mapsto> leasedRow json revision (uint tok) expires)\<rparr>"

lemma persist_demo:
  assumes q: "quietEnv E" and s: "demoState t out (holding json r0 tok expires db) ex it s"
    and i: "cp_Request i = recoveryRequest" "cp_MaxSteps i = defaultMaxSteps" "cp_MaxModelRetries i = 0"
    and tok: "tok \<noteq> 0" "uint tok \<le> maxInt64" and now: "sc_now (en_call E t) < expires"
    and res: "res\<lparr>rs_ExecutionID := recoveryID\<rparr> = (snapshot ex' [] output)\<lparr>rs_ExecutionID := recoveryID\<rparr>"
    and cp: "recoveryCp ex' it output = cp" "validateCheckpoint cp = None" "uint (cp_Revision cp) \<le> maxInt64"
    and row: "create \<and> json = None \<or> \<not> create \<and> json \<noteq> None \<and> r0 < uint (cp_Revision cp)"
  shows "\<exists>s'. persist (recoverySession E model tok) i res None create s = (s', None) \<and>
    demoState (Suc t) out (holding (Some (encodeCheckpoint cp)) (uint (cp_Revision cp)) tok expires db) ex it s'"
proof -
  let ?X = "recoverySession E model tok"
  have id: "cp_ExecutionID cp = recoveryID"
    using cp(1) by (auto simp: recoveryCp_def Let_def initialCheckpoint_def recoveryRequest_def)
  have "withRevision (assembleCheckpoint ?X i res None s) = cp"
    using s i res cp(1)
    by (auto simp: assembleCheckpoint_def demoState_def recoveryCp_def initialCheckpoint_def recoveryRuntime_def recoveryRequest_def)
  from persist_quiet [of ?X tok s i res cp "leasedRow json r0 (uint tok) expires" create
      "leasedRow (Some (encodeCheckpoint cp)) (uint (cp_Revision cp)) (uint tok) expires", OF _ _ _ tok _ this cp(2,3)]
  show ?thesis
    using q s now row id
    by (auto simp: demoState_def publishRow_def leasedRow_def emit_def)
qed

definition askedEx :: execution where
  "askedEx = \<lparr>ex_status = StatusRunningModel, ex_transitions = [\<lparr>tn_From = StatusCreated, tn_To = StatusRunningModel\<rparr>]\<rparr>"

definition doneEx :: execution where
  "doneEx = \<lparr>ex_status = StatusCompleted, ex_transitions =
     [\<lparr>tn_From = StatusCreated, tn_To = StatusRunningModel\<rparr>, \<lparr>tn_From = StatusRunningModel, tn_To = StatusCompleted\<rparr>]\<rparr>"

definition recoveredText :: string where
  "recoveredText = ''recovered after process crash''"

lemma recoveryCp_valid:
  "validateCheckpoint (recoveryCp newExecution 0 []) = None"
  "validateCheckpoint (recoveryCp askedEx 1 []) = None"
  "validateCheckpoint (recoveryCp askedEx 2 []) = None"
  "validateCheckpoint (recoveryCp doneEx 2 recoveredText) = None"
  by code_simp+

lemma recoveryCp_revision:
  "cp_Revision (recoveryCp newExecution 0 []) = 1"
  "cp_Revision (recoveryCp askedEx 1 []) = 2"
  "cp_Revision (recoveryCp askedEx 2 []) = 3"
  "cp_Revision (recoveryCp doneEx 2 recoveredText) = 4"
  by code_simp+


text \<open>One model iteration of either process.\<close>

lemma iteration_demo:
  assumes q: "quietEnv E" and s: "demoState t out (holding (Some json) r0 tok expires db) askedEx it s"
    and i: "cp_Request i = recoveryRequest" "cp_MaxSteps i = defaultMaxSteps" "cp_MaxModelRetries i = 0"
    and tok: "tok \<noteq> 0" "uint tok \<le> maxInt64" and now: "sc_now (en_call E t) < expires"
    and cp: "recoveryCp askedEx (it + 1) [] = cp" "validateCheckpoint cp = None" "uint (cp_Revision cp) \<le> maxInt64" "r0 < uint (cp_Revision cp)"
  shows "\<exists>s'. iteration (recoverySession E crashModel tok) i s = (s', Panic) \<and>
      demoState (t + 2) out (holding (Some (encodeCheckpoint cp)) (uint (cp_Revision cp)) tok expires db) askedEx (it + 1) s'"
    and "\<exists>s'. iteration (recoverySession E recoveryModel tok) i s = (s', Ret (snapshot doneEx [] recoveredText, None)) \<and>
      demoState (t + 2) out (holding (Some (encodeCheckpoint cp)) (uint (cp_Revision cp)) tok expires db) doneEx (it + 1) s'"
proof -
  have s1: "demoState t out (holding (Some json) r0 tok expires db) askedEx (it + 1) (s\<lparr>r_iterations := r_iterations s + 1\<rparr>)" (is "demoState _ _ _ _ _ ?s1")
    using s by (simp add: demoState_def)
  have saved: "\<exists>s2. save (recoverySession E model tok) i ?s1 = (s2, Go ()) \<and>
      demoState (Suc t) out (holding (Some (encodeCheckpoint cp)) (uint (cp_Revision cp)) tok expires db) askedEx (it + 1) s2" for model
    using persist_demo [OF q s1 i tok now refl cp(1-3), of False model] cp(4) s
    by (auto simp: save_def demoState_def)
  have quiet: "passTime (recoverySession E model tok) s' = s'\<lparr>w_tick := Suc (w_tick s')\<rparr>" for model s'
    by (rule tick_quiet) (simp add: q)
  note parts = iteration_def andThen_def checkContext_def reads_def modify_def pass_def executionContextErr_def callModel_def observe_def
    demoState_def emit_def Let_def
  show "\<exists>s'. iteration (recoverySession E crashModel tok) i s = (s', Panic) \<and>
      demoState (t + 2) out (holding (Some (encodeCheckpoint cp)) (uint (cp_Revision cp)) tok expires db) askedEx (it + 1) s'"
    using saved [of crashModel] s
    by (auto simp: parts quiet crashModel_def)
  show "\<exists>s'. iteration (recoverySession E recoveryModel tok) i s = (s', Ret (snapshot doneEx [] recoveredText, None)) \<and>
      demoState (t + 2) out (holding (Some (encodeCheckpoint cp)) (uint (cp_Revision cp)) tok expires db) doneEx (it + 1) s'"
    using saved [of recoveryModel] s
    by (auto simp: parts quiet recoveryModel_def handleDecision_def Validate_def advance_def transition_def askedEx_def doneEx_def
        returns_def recoveredText_def)
qed


section \<open>The runs of the two processes\<close>

lemma recoveryCp_simps [simp]:
  "cp_Request (recoveryCp ex it output) = recoveryRequest"
  "cp_MaxSteps (recoveryCp ex it output) = defaultMaxSteps"
  "cp_MaxModelRetries (recoveryCp ex it output) = 0"
  "cp_ModelRetries (recoveryCp ex it output) = 0"
  "cp_ModelIterations (recoveryCp ex it output) = it"
  "cp_Result (recoveryCp ex it output) = (snapshot ex [] output)\<lparr>rs_ExecutionID := recoveryID\<rparr>"
  "cp_ExecutionID (recoveryCp ex it output) = recoveryID"
  "cp_PendingTool (recoveryCp ex it output) = None"
  by (simp_all add: recoveryCp_def Let_def initialCheckpoint_def recoveryRuntime_def recoveryRequest_def)

lemma initial_simps [simp]:
  "cp_Request (initialCheckpoint (recoveryRuntime model) recoveryRequest) = recoveryRequest"
  "cp_MaxSteps (initialCheckpoint (recoveryRuntime model) recoveryRequest) = defaultMaxSteps"
  "cp_MaxModelRetries (initialCheckpoint (recoveryRuntime model) recoveryRequest) = 0"
  "cp_ModelRetries (initialCheckpoint (recoveryRuntime model) recoveryRequest) = 0"
  "cp_ModelIterations (initialCheckpoint (recoveryRuntime model) recoveryRequest) = 0"
  "cp_Result (initialCheckpoint (recoveryRuntime model) recoveryRequest) = (snapshot newExecution [] [])\<lparr>rs_ExecutionID := recoveryID\<rparr>"
  by (simp_all add: initialCheckpoint_def recoveryRuntime_def recoveryRequest_def)

lemma startState_demo:
  assumes "w_done w = None" "cp_ModelRetries i = 0" "cp_Result i = (snapshot ex [] output)\<lparr>rs_ExecutionID := recoveryID\<rparr>"
  shows "demoState (w_tick w) (w_obs w) (w_store w) ex (cp_ModelIterations i) (startState i w)"
    and "r_lastSaved (startState i w) = (snapshot ex [] output)\<lparr>rs_ExecutionID := recoveryID\<rparr>"
  using assms by (simp_all add: startState_def demoState_def snapshot_def cloneSteps_def)

abbreviation askedCp :: "Checkpoint" where
  "askedCp \<equiv> recoveryCp askedEx 1 []"

abbreviation doneCp :: "Checkpoint" where
  "doneCp \<equiv> recoveryCp doneEx 2 recoveredText"

lemma owner_crashes:
  assumes q: "quietEnv E" and w: "w_done w = None" "w_store w = holding None 0 1 expires db"
    and now: "sc_now (en_call E (w_tick w)) < expires" "sc_now (en_call E (w_tick w + 1)) < expires"
  shows "\<exists>w'. runWorld (recoverySession E crashModel 1) (initialCheckpoint (recoveryRuntime crashModel) recoveryRequest) True w = (w', Panicked) \<and>
    w_tick w' = w_tick w + 3 \<and> w_obs w' = w_obs w \<and> w_store w' = holding (Some (encodeCheckpoint askedCp)) 2 1 expires db"
proof -
  let ?X = "recoverySession E crashModel 1" and ?i = "initialCheckpoint (recoveryRuntime crashModel) recoveryRequest"
  define s0 where "s0 = startState ?i w"
  have s0: "demoState (w_tick w) (w_obs w) (holding None 0 1 expires db) newExecution 0 s0"
      "r_lastSaved s0 = (snapshot newExecution [] [])\<lparr>rs_ExecutionID := recoveryID\<rparr>"
    unfolding s0_def using startState_demo [of w ?i newExecution "[]"] w by simp_all
  obtain s1 where s1: "persist ?X ?i (r_lastSaved s0) None True s0 = (s1, None)"
      "demoState (w_tick w + 1) (w_obs w) (holding (Some (encodeCheckpoint (recoveryCp newExecution 0 []))) 1 1 expires db) newExecution 0 s1"
    using persist_demo [OF q s0(1), of ?i "r_lastSaved s0" newExecution "[]" _ True crashModel, OF _ _ _ _ _ _ _ refl] now(1)
    by (auto simp: s0(2) recoveryCp_valid recoveryCp_revision maxInt64_def)
  let ?s2 = "s1\<lparr>r_exec := askedEx\<rparr>"
  have "startRunning s1 = (?s2, Go ())"
    using s1(2) by (simp add: demoState_def startRunning_def transition_def newExecution_def askedEx_def)
  moreover have s2: "demoState (w_tick w + 1) (w_obs w) (holding (Some (encodeCheckpoint (recoveryCp newExecution 0 []))) 1 1 expires db) askedEx 0 ?s2"
    using s1(2) by (simp add: demoState_def)
  obtain s3 where s3: "iteration ?X ?i ?s2 = (s3, Panic)"
      "demoState (w_tick w + 3) (w_obs w) (holding (Some (encodeCheckpoint askedCp)) 2 1 expires db) askedEx 1 s3"
    using iteration_demo(1) [OF q s2, of ?i, OF _ _ _ _ _ _ refl] now(2)
    by (auto simp: recoveryCp_valid recoveryCp_revision maxInt64_def numeral_3_eq_3)
  moreover have "r_iterations ?s2 < cp_MaxSteps ?i" using s2 by (simp add: demoState_def defaultMaxSteps_def)
  ultimately have "runBody ?X ?i s1 = (s3, Panic)"
    by (simp add: runBody_def andThen_def runLoop.simps [of ?X ?i ?s2])
  with s1(1) s3(2) show ?thesis
    by (simp add: runWorld_def run_def s0_def [symmetric] finishRun_def observe_def demoState_def world.truncate_def Let_def)
qed

lemma recovery_completes:
  assumes q: "quietEnv E" and w: "w_done w = None" "w_store w = holding (Some (encodeCheckpoint askedCp)) 2 2 expires db"
    and now: "sc_now (en_call E (w_tick w)) < expires" "sc_now (en_call E (w_tick w + 2)) < expires"
  shows "\<exists>w'. runWorld (recoverySession E recoveryModel 2) askedCp False w = (w', Returned (cp_Result doneCp) None) \<and>
    w_tick w' = w_tick w + 3 \<and> w_obs w' = w_obs w \<and> w_store w' = holding (Some (encodeCheckpoint doneCp)) 4 2 expires db"
proof -
  let ?X = "recoverySession E recoveryModel 2"
  define s0 where "s0 = startState askedCp w"
  have s0: "demoState (w_tick w) (w_obs w) (holding (Some (encodeCheckpoint askedCp)) 2 2 expires db) askedEx 1 s0"
    unfolding s0_def using startState_demo(1) [of w askedCp askedEx "[]"] w by simp
  obtain s1 where s1: "iteration ?X askedCp s0 = (s1, Ret (snapshot doneEx [] recoveredText, None))"
      "demoState (w_tick w + 2) (w_obs w) (holding (Some (encodeCheckpoint (recoveryCp askedEx 2 []))) 3 2 expires db) doneEx 2 s1"
    using iteration_demo(2) [OF q s0, of askedCp, OF _ _ _ _ _ _ refl] now(1)
    by (auto simp: recoveryCp_valid recoveryCp_revision maxInt64_def)
  have "startRunning s0 = (s0, Go ())" "r_iterations s0 < cp_MaxSteps askedCp"
    using s0 by (simp_all add: demoState_def startRunning_def askedEx_def defaultMaxSteps_def)
  then have body: "runBody ?X askedCp s0 = (s1, Ret (snapshot doneEx [] recoveredText, None))"
    using s1(1) by (simp add: runBody_def andThen_def runLoop.simps [of ?X askedCp s0])
  obtain s2 where s2: "persist ?X askedCp (cp_Result doneCp) None False s1 = (s2, None)"
      "demoState (w_tick w + 3) (w_obs w) (holding (Some (encodeCheckpoint doneCp)) 4 2 expires db) doneEx 2 s2"
    using persist_demo [OF q s1(2), of askedCp "cp_Result doneCp" doneEx recoveredText _ False recoveryModel, OF _ _ _ _ _ _ _ refl] now(2)
    by (auto simp: recoveryCp_valid recoveryCp_revision maxInt64_def numeral_3_eq_3)
  from body s1(2) s2 show ?thesis
    by (simp add: runWorld_def run_def s0_def [symmetric] finishRun_def persistTerminal_def observeTerminal_def observe_def demoState_def
        world.truncate_def Let_def snapshot_def recoveryRequest_def doneEx_def)
qed

section \<open>The database between the processes\<close>

definition recoveryDb :: "sqliteRow \<Rightarrow> SQLiteCheckpointStore" where
  "recoveryDb row = \<lparr>sq_leaseDuration = leaseDuration, sq_rows = [recoveryID \<mapsto> row]\<rparr>"

lemma recoveryID_ok: "recoveryID \<noteq> []"
  by (simp add: recoveryID_def)

lemma leaseDuration_pos: "0 < leaseDuration"
  by (simp add: leaseDuration_def second_def)

lemma askedCp_facts: "goInts askedCp" "resumable askedCp" "goInts doneCp"
proof -
  show "goInts askedCp" "goInts doneCp" by (simp_all add: goInts_def fitsInt64_def snapshot_def cloneSteps_def defaultMaxSteps_def)
  have "cp_SchemaVersion askedCp = CheckpointSchemaVersion" by (simp add: recoveryCp_def Let_def initialCheckpoint_def)
  then show "resumable askedCp"
    using recoveryCp_valid(2)
    by (simp add: resumable_def validateCheckpoint_iff CheckpointSchemaVersion_def) (simp add: snapshot_def askedEx_def terminal_def)
qed

lemma recoveryDb_good:
  assumes "validateCheckpoint (recoveryCp ex it output) = None" and "1 \<le> tok" "tok \<le> maxInt64"
  shows "sqliteGood (recoveryDb (leasedRow (Some (encodeCheckpoint (recoveryCp ex it output))) (uint (cp_Revision (recoveryCp ex it output))) tok expires))"
    and "sqliteStored recoveryID (recoveryDb (leasedRow (Some (encodeCheckpoint (recoveryCp ex it output))) r0 tok expires)) =
      Some (recoveryCp ex it output)"
proof -
  show "sqliteGood (recoveryDb (leasedRow (Some (encodeCheckpoint (recoveryCp ex it output))) (uint (cp_Revision (recoveryCp ex it output))) tok expires))"
    using assms by (auto simp: sqliteGood_def sqliteRowGood_def recoveryDb_def leasedRow_def intro!: exI [of _ "recoveryCp ex it output"])
  show "sqliteStored recoveryID (recoveryDb (leasedRow (Some (encodeCheckpoint (recoveryCp ex it output))) r0 tok expires)) =
      Some (recoveryCp ex it output)"
    using unmarshal_marshal [OF valid_encodable_any [OF assms(1)]] by (simp add: sqliteStored_def recoveryDb_def leasedRow_def)
qed

lemma askedDb:
  "sqliteGood (recoveryDb (leasedRow (Some (encodeCheckpoint askedCp)) 2 1 expires))"
  "sqliteStored recoveryID (recoveryDb (leasedRow (Some (encodeCheckpoint askedCp)) 2 1 expires)) = Some askedCp"
  "sqliteGood (recoveryDb (leasedRow (Some (encodeCheckpoint doneCp)) 4 2 expires))"
  "sqliteStored recoveryID (recoveryDb (leasedRow (Some (encodeCheckpoint doneCp)) 4 2 expires)) = Some doneCp"
  using recoveryDb_good [OF recoveryCp_valid(2), of 1] recoveryDb_good [OF recoveryCp_valid(4), of 2]
  by (simp_all add: recoveryCp_revision maxInt64_def)

lemma own_quiet: "quietEnv E \<Longrightarrow> passTime (ownSession E rt i) w = w\<lparr>w_tick := Suc (w_tick w)\<rparr>"
  by (rule tick_quiet) (simp add: ownSession_def)

lemma recoveryRuntime_store: "rt_store (recoveryRuntime model) = Some sqliteStore"
  by (simp add: recoveryRuntime_def)

section \<open>The steps of the demonstration\<close>

lemma owner_exits:
  assumes q: "quietEnv E" and w: "w_done w = None" "w_store w = \<lparr>sq_leaseDuration = leaseDuration, sq_rows = Map.empty\<rparr>"
    and now: "sc_now (en_call E (w_tick w)) \<le> maxInt64 - leaseDuration" "expires = sc_now (en_call E (w_tick w)) + leaseDuration"
      "sc_now (en_call E (w_tick w + 1)) < expires" "sc_now (en_call E (w_tick w + 2)) < expires"
  shows "\<exists>w'. exitingRun E (recoveryRuntime crashModel) recoveryRequest w = (w', Panicked) \<and> w_tick w' = w_tick w + 4 \<and> w_obs w' = w_obs w \<and>
    w_store w' = recoveryDb (leasedRow (Some (encodeCheckpoint askedCp)) 2 1 expires)"
proof -
  let ?own = "ownSession E (recoveryRuntime crashModel) recoveryID"
  let ?db = "holding None 0 1 expires \<lparr>sq_leaseDuration = leaseDuration, sq_rows = Map.empty\<rparr>"
  let ?w1 = "w\<lparr>w_store := ?db, w_tick := w_tick w + 1\<rparr>"
  have u: "undisturbed (en_call E (w_tick w))" using q by (simp add: quietEnv_def)
  have a: "sqliteAcquireExecutionLease (en_call E (w_tick w)) recoveryID (w_store w) = (?db, Inr (1, Some (sqliteRelease recoveryID 1)))"
    using u now w(2) leaseDuration_pos
    by (simp add: sqliteAcquireExecutionLease_def checkSQLiteStoreContext_def undisturbed_def sqliteLeaseExpiry_def queryAcquire_def
        upsertLease_def recoveryID_ok leasedRow_def)
  have "acquireExecutionOwnership ?own recoveryID False w = (?w1, Inr \<lparr>ow_fencingToken = 1, ow_release = sqliteRelease recoveryID 1\<rparr>)"
    using a by (simp add: acquireExecutionOwnership_def own_quiet [OF q] recoveryRuntime_store) (simp add: sqliteStore_def own_quiet [OF q])
  moreover have "startExecutionLeaseRenewal (withExecutionFencingToken 1 ?own) 1 ?db = Inr (recoverySession E crashModel 1)"
    by (simp add: startExecutionLeaseRenewal_def withExecutionFencingToken_def recoverySession_def ownSession_def recoveryRuntime_def
        sqliteStore_def sqliteExecutionLeaseRenewalInterval_def leaseDuration_def second_def)
  moreover obtain w' where "runWorld (recoverySession E crashModel 1) (initialCheckpoint (recoveryRuntime crashModel) recoveryRequest) True ?w1 = (w', Panicked)"
      "w_tick w' = w_tick w + 4" "w_obs w' = w_obs w" "w_store w' = holding (Some (encodeCheckpoint askedCp)) 2 1 expires ?db"
    using owner_crashes [OF q, where w = ?w1 and expires = expires and db = ?db] w(1) now(3,4) by (auto simp: numeral_eq_Suc)
  moreover have "rq_ExecutionID recoveryRequest = recoveryID" by (simp add: recoveryRequest_def)
  ultimately show ?thesis by (simp add: exitingRun_def recoveryDb_def)
qed

lemma resume_blocked:
  assumes q: "quietEnv E" and w: "w_store w = recoveryDb (leasedRow (Some (encodeCheckpoint askedCp)) 2 1 expires)"
    and now: "sc_now (en_call E (w_tick w)) < expires" "sc_now (en_call E (w_tick w)) \<le> maxInt64 - leaseDuration"
  shows "Resume E (recoveryRuntime recoveryModel) False recoveryID w =
    (w\<lparr>w_tick := Suc (w_tick w)\<rparr>, Returned zeroResult (Some (busyError recoveryID)))"
proof -
  note rt = recoveryRuntime_store [of recoveryModel]
  have u: "undisturbed (en_call E (w_tick w))" using q by (simp add: quietEnv_def)
  have "sqliteRoom (en_call E (w_tick w)) recoveryID (w_store w)" "sqliteOwner (sc_now (en_call E (w_tick w))) recoveryID (w_store w) = Some 1"
    using w now leaseDuration_pos by (simp_all add: sqliteRoom_def sqliteOwner_def recoveryDb_def leasedRow_def maxInt64_def)
  from sqliteTakeover.blocked [OF rt recoveryID_ok _ u this] w askedDb(1) rt recoveryID_ok own_quiet [OF q]
  show ?thesis by (simp add: Resume_def)
qed

lemma resume_finishes:
  assumes q: "quietEnv E" and w: "w_done w = None" "w_store w = recoveryDb (leasedRow (Some (encodeCheckpoint askedCp)) 2 1 expires)"
    and now: "expires \<le> sc_now (en_call E (w_tick w))" "sc_now (en_call E (w_tick w)) \<le> maxInt64 - leaseDuration"
      "sc_now (en_call E (w_tick w + 2)) < sc_now (en_call E (w_tick w)) + leaseDuration"
      "sc_now (en_call E (w_tick w + 4)) < sc_now (en_call E (w_tick w)) + leaseDuration"
  shows "\<exists>w'. Resume E (recoveryRuntime recoveryModel) False recoveryID w = (w', Returned (cp_Result doneCp) None) \<and>
    w_tick w' = w_tick w + 6 \<and> w_obs w' = w_obs w \<and> w_store w' = recoveryDb (leasedRow (Some (encodeCheckpoint doneCp)) 4 2 0)"
proof -
  let ?new = "sc_now (en_call E (w_tick w)) + leaseDuration"
  let ?db = "holding (Some (encodeCheckpoint askedCp)) 2 2 ?new (w_store w)" and ?X = "recoverySession E recoveryModel 2"
  define wb where "wb = passTime ?X (emit (Loaded recoveryID (Inr askedCp)) (w\<lparr>w_store := ?db, w_tick := Suc (w_tick w)\<rparr>))"
  have wb: "w_done wb = None" "w_store wb = ?db" "w_tick wb = w_tick w + 2" "w_obs wb = w_obs w"
    using w(1) by (simp_all add: wb_def emit_def tick_quiet q)
  have ticks: "w_tick wb + 2 = w_tick w + 4" "w_tick wb + 3 = w_tick w + 5" by (simp_all add: wb(3))
  note rt = recoveryRuntime_store [of recoveryModel]
  have u: "undisturbed (en_call E t)" "en_ctx E t = None" for t using q by (simp_all add: quietEnv_def)
  have a: "sqliteAcquireExecutionLease (en_call E (w_tick w)) recoveryID (w_store w) = (?db, Inr (2, Some (sqliteRelease recoveryID 2)))"
    using u(1) [of "w_tick w"] now(1,2) w(2) leaseDuration_pos
    by (simp add: sqliteAcquireExecutionLease_def checkSQLiteStoreContext_def undisturbed_def sqliteLeaseExpiry_def queryAcquire_def
        upsertLease_def recoveryID_ok leasedRow_def recoveryDb_def maxInt64_def)
  have free: "sqliteOwner (sc_now (en_call E (w_tick w))) recoveryID (w_store w) = None" "sqliteRoom (en_call E (w_tick w)) recoveryID (w_store w)"
    using w now leaseDuration_pos by (simp_all add: sqliteRoom_def sqliteOwner_def recoveryDb_def leasedRow_def maxInt64_def)
  note resume = sqliteTakeover.Resume_unfolds [OF rt u(2) recoveryID_ok, of w askedCp, unfolded w(2), OF askedDb(1,2) u(1) u(1)
      free [unfolded w(2)] askedCp_facts(1,2) _ _ _ recoverySession_def a [unfolded w(2)] wb_def [unfolded w(2)]]
  obtain w' where "runWorld ?X askedCp False wb = (w', Returned (cp_Result doneCp) None)" "w_tick w' = w_tick w + 5" "w_obs w' = w_obs w"
      "w_store w' = holding (Some (encodeCheckpoint doneCp)) 4 2 ?new (w_store w)"
    using recovery_completes [OF q wb(1,2), unfolded ticks, unfolded wb(3,4), OF now(3,4)] by blast
  with resume show ?thesis
    using u(1) by (simp add: releaseOwnership_def own_quiet [OF q] w(2) recoveryDb_def sqliteRelease_def undisturbed_def leasedRow_def)
qed

abbreviation clockAt :: "env \<Rightarrow> nat \<Rightarrow> int" where
  "clockAt E t \<equiv> sc_now (en_call E t)"

lemma newRuntime_demo:
  assumes "quietEnv E"
  shows "newRuntime (en_call E t) (joinPath dir name) model rows = Inr (recoveryRuntime model, \<lparr>sq_leaseDuration = leaseDuration, sq_rows = rows\<rparr>)"
  by (rule newRuntime_ok) (use assms in \<open>simp_all add: quietEnv_def joinPath_def\<close>)

lemma say_fields: "w_store (say text w) = w_store w" "w_tick (say text w) = w_tick w" "w_done (say text w) = w_done w"
  by (simp_all add: say_def)

lemma busy: "errorsIs (busyError i) ErrExecutionBusy"
  by (simp add: busyError_def)

text \<open>The child process: it leaves the lease and the checkpoint that counts its attempt.\<close>

lemma owner_process:
  assumes q: "quietEnv E" and w: "sq_rows (w_store w) = Map.empty"
    and now: "clockAt E (w_tick w + 1) \<le> maxInt64 - leaseDuration" "expires = clockAt E (w_tick w + 1) + leaseDuration"
      "clockAt E (w_tick w + 2) < expires" "clockAt E (w_tick w + 3) < expires"
  shows "\<exists>w'. runCrashOwner E (joinPath dir name) w = (w', Exited crashExitCode) \<and> w_tick w' = w_tick w + 5 \<and>
    w_store w' = recoveryDb (leasedRow (Some (encodeCheckpoint askedCp)) 2 1 expires)"
proof -
  define wo where "wo = say ''owner: starting execution; Harness will persist running_model before the callback''
      (say (''owner: database='' @ joinPath dir name)
        (w\<lparr>w_store := \<lparr>sq_leaseDuration = leaseDuration, sq_rows = Map.empty\<rparr>, w_tick := Suc (w_tick w), w_done := None\<rparr>))"
  have wo: "w_done wo = None" "w_store wo = \<lparr>sq_leaseDuration = leaseDuration, sq_rows = Map.empty\<rparr>" "w_tick wo = w_tick w + 1"
    by (simp_all add: wo_def say_def)
  obtain w1 where "exitingRun E (recoveryRuntime crashModel) recoveryRequest wo = (w1, Panicked)" "w_tick w1 = w_tick w + 5"
      "w_store w1 = recoveryDb (leasedRow (Some (encodeCheckpoint askedCp)) 2 1 expires)"
    using owner_exits [OF q wo(1,2), of expires] now wo(3) by (auto simp: numeral_eq_Suc)
  with w show ?thesis by (simp add: runCrashOwner_def newRuntime_demo [OF q] wo_def say_def)
qed

text \<open>The parent: refused while the lease lives, finished after its sleep.\<close>

lemma recovery_process:
  assumes q: "quietEnv E" and w: "w_store w = recoveryDb (leasedRow (Some (encodeCheckpoint askedCp)) 2 1 expires)"
    and early: "clockAt E (w_tick w + 1) < expires" "clockAt E (w_tick w + 1) \<le> maxInt64 - leaseDuration"
    and late: "expires \<le> clockAt E (w_tick w + 3)" "clockAt E (w_tick w + 3) \<le> maxInt64 - leaseDuration"
      "clockAt E (w_tick w + 5) < clockAt E (w_tick w + 3) + leaseDuration"
      "clockAt E (w_tick w + 7) < clockAt E (w_tick w + 3) + leaseDuration"
  shows "\<exists>w'. recoverExecution E (joinPath dir name) w = (w', Ended None) \<and>
    w_store w' = recoveryDb (leasedRow (Some (encodeCheckpoint doneCp)) 4 2 0)"
proof -
  define wf where "wf = w\<lparr>w_store := \<lparr>sq_leaseDuration = leaseDuration, sq_rows = sq_rows (w_store w)\<rparr>, w_tick := Suc (w_tick w), w_done := None\<rparr>"
  have wf: "w_store wf = recoveryDb (leasedRow (Some (encodeCheckpoint askedCp)) 2 1 expires)" "w_tick wf = w_tick w + 1"
    using w by (simp_all add: wf_def recoveryDb_def)
  have blocked: "Resume E (recoveryRuntime recoveryModel) False recoveryID wf =
      (wf\<lparr>w_tick := Suc (w_tick wf)\<rparr>, Returned zeroResult (Some (busyError recoveryID)))"
    using resume_blocked [OF q wf(1)] early wf(2) by simp
  define ws where "ws = (say (''recovery: waiting for '' @ durationString leaseDuration @ '' lease expiry'')
      (say ''recovery: immediate resume is blocked by the still-live lease'' (wf\<lparr>w_tick := Suc (w_tick wf)\<rparr>)))
      \<lparr>w_tick := Suc (Suc (w_tick wf)), w_done := None\<rparr>"
  have ws: "w_done ws = None" "w_store ws = recoveryDb (leasedRow (Some (encodeCheckpoint askedCp)) 2 1 expires)" "w_tick ws = w_tick w + 3"
    using wf by (simp_all add: ws_def say_def)
  obtain w2 where w2: "Resume E (recoveryRuntime recoveryModel) False recoveryID ws = (w2, Returned (cp_Result doneCp) None)"
      "w_store w2 = recoveryDb (leasedRow (Some (encodeCheckpoint doneCp)) 4 2 0)"
    using resume_finishes [OF q ws(1,2)] late ws(3) by (auto simp: numeral_eq_Suc)
  have load: "sqliteLoad c recoveryID (w_store w2) = Inr doneCp" if "undisturbed c" for c
    unfolding w2(2) by (rule sqliteLoad_ready [OF askedDb(3,4) askedCp_facts(3) recoveryID_ok that])
  have "cp_Status doneCp = StatusCompleted" by (simp add: snapshot_def doneEx_def)
  then show ?thesis
    using q blocked w2 load
    by (simp add: recoverExecution_def newRuntime_demo [OF q] wf_def [symmetric] busy Let_def ws_def quietEnv_def say_def del: recoveryCp_simps)
qed

end
