(* ===== verification/Example_Guarantees.thy ===== *)
theory Example_Guarantees
  imports Agent_Runs Recovery_Demo Scenario
begin

text \<open>
  Properties of the programs under \<^verbatim>\<open>examples/\<close>: the crash demonstration recovers, the scripted agent reports
  what the sandbox did, and the probe succeeds only if the sandbox really ran the command.
\<close>

section \<open>Inputs of the witnesses\<close>

text \<open>A clock that jumps two seconds ahead while the demonstration sleeps.\<close>

definition jumpingClock :: "nat \<Rightarrow> int" where
  "jumpingClock t = (if t < 8 then int t else int t + 2 * second)"

definition recoveryEnv :: env where
  "recoveryEnv = demoEnv\<lparr>en_call := (\<lambda>t. (demoCallEnv t)\<lparr>sc_now := jumpingClock t\<rparr>), en_renewTick := (\<lambda>_. False)\<rparr>"

definition noDatabase :: recovery_world where
  "noDatabase = \<lparr>w_tick = 0, w_store = \<lparr>sq_leaseDuration = 0, sq_rows = Map.empty\<rparr>, w_obs = [], w_done = None, w_log = []\<rparr>"

lemma recoveryEnv_quiet: "quietEnv recoveryEnv"
  by (simp add: quietEnv_def recoveryEnv_def demoEnv_def demoCallEnv_def undisturbed_def)

lemma recoveryEnv_clock: "clockAt recoveryEnv = jumpingClock" "clockAt recoveryEnv t = jumpingClock t"
  by (simp_all add: recoveryEnv_def)

lemma jumpingClock_mono: "mono jumpingClock"
  by (auto simp: mono_def jumpingClock_def second_def)

text \<open>A sandbox that runs every command as \<^verbatim>\<open>echo\<close> would.\<close>

type_synonym echo_request = "string \<times> string list \<times> int"

definition echoRequest :: "string \<Rightarrow> string list \<Rightarrow> int \<Rightarrow> echo_request" where
  "echoRequest command args timeout = (command, args, timeout)"

definition echoResult :: sandbox_result where
  "echoResult = \<lparr>sx_ExitCode = 0, sx_Stdout = ''hello'' @ newline, sx_Stderr = [], sx_OutputTruncated = False, sx_Termination = ''exited''\<rparr>"

definition agentWorld :: "(unit, string) world" where
  "agentWorld = \<lparr>w_tick = 0, w_store = (), w_obs = [], w_done = None, w_log = []\<rparr>"

section \<open>Properties\<close>

text \<open>
  C19. The crash demonstration works: in an environment without faults, if the parent comes back before the
  lease of the crashed owner has expired, its sleep outlasts that lease, and its own writes stay within
  the lease it then takes, \<^verbatim>\<open>runDemo\<close> ends without an error. The owner's exit loses nothing: the database
  holds the completed execution, with both model attempts counted, at revision 4 and with the lease released.
\<close>

theorem crash_recovery_demo_succeeds:
  assumes "quietEnv E" and "mono (clockAt E)" and "sq_rows (w_store w) = Map.empty"
    and "clockAt E (w_tick w + 6) < clockAt E (w_tick w + 1) + leaseDuration"
    and "clockAt E (w_tick w + 1) + leaseDuration \<le> clockAt E (w_tick w + 8)"
    and "clockAt E (w_tick w + 12) < clockAt E (w_tick w + 8) + leaseDuration"
    and "clockAt E (w_tick w + 8) \<le> maxInt64 - leaseDuration"
  shows "\<exists>w' cp. runDemo E (Inr dir) (Inr program) None w = (w', Ended None) \<and>
    sqliteStored recoveryID (w_store w') = Some cp \<and> cp_Status cp = StatusCompleted \<and>
    rs_Output (cp_Result cp) = ''recovered after process crash'' \<and> cp_ModelIterations cp = 2 \<and> cp_Revision cp = 4 \<and>
    map_option sq_lease_expires (sq_rows (w_store w') recoveryID) = Some 0"
proof -
  let ?path = "joinPath dir ''runtime.db''" and ?e = "clockAt E (w_tick w + 1) + leaseDuration"
  let ?w0 = "say (''demo: database='' @ ?path) w"
  have le: "clockAt E a \<le> clockAt E b" if "a \<le> b" for a b using assms(2) that by (simp add: mono_def)
  obtain w1 where w1: "runCrashOwner E ?path ?w0 = (w1, Exited crashExitCode)" "w_tick w1 = w_tick w + 5"
      "w_store w1 = recoveryDb (leasedRow (Some (encodeCheckpoint askedCp)) 2 1 ?e)"
    using owner_process [OF assms(1), of ?w0 ?e] assms(3,4,7) le [of "w_tick w + 1" "w_tick w + 8"]
      le [of "w_tick w + 2" "w_tick w + 6"] le [of "w_tick w + 3" "w_tick w + 6"]
    by (auto simp: say_fields)
  let ?w1 = "say ''demo: owner crashed; its release callback did not run'' w1"
  obtain w2 where w2: "recoverExecution E ?path ?w1 = (w2, Ended None)"
      "w_store w2 = recoveryDb (leasedRow (Some (encodeCheckpoint doneCp)) 4 2 0)"
    using recovery_process [OF assms(1), of ?w1 ?e] w1(2,3) assms(4-7) le [of "w_tick w + 6" "w_tick w + 8"]
      le [of "w_tick w + 10" "w_tick w + 12"]
    by (auto simp: say_fields numeral_eq_Suc)
  have "\<exists>w'. runDemo E (Inr dir) (Inr program) None w = (w', Ended None) \<and> w_store w' = w_store w2"
    using w1(1) w2(1) by (simp add: runDemo_def Let_def exampleMain_def crashExitCode_def say_fields)
  with w2(2) askedDb(4) recoveryCp_revision(4) show ?thesis
    by (auto simp: recoveryDb_def leasedRow_def snapshot_def doneEx_def recoveredText_def)
qed

theorem crash_recovery_demo_succeeds_witness:
  "\<exists>w' cp. runDemo recoveryEnv (Inr ''/tmp/demo'') (Inr ''demo'') None noDatabase = (w', Ended None) \<and>
    sqliteStored recoveryID (w_store w') = Some cp \<and> cp_Status cp = StatusCompleted \<and>
    rs_Output (cp_Result cp) = ''recovered after process crash'' \<and> cp_ModelIterations cp = 2 \<and> cp_Revision cp = 4 \<and>
    map_option sq_lease_expires (sq_rows (w_store w') recoveryID) = Some 0"
  by (rule crash_recovery_demo_succeeds [OF recoveryEnv_quiet])
     (simp_all add: recoveryEnv_clock jumpingClock_mono noDatabase_def,
      simp_all add: recoveryEnv_clock jumpingClock_def leaseDuration_def second_def maxInt64_def)

text \<open>
  C20. The scripted sandbox agent reports what the sandbox did: when the sandbox is available, accepts the
  script and returns a result, and nobody cancels, the program exits with code 0 and the last line
  it prints quotes the standard output of the script, or its exit code and standard error if it failed.
\<close>

theorem sandbox_agent_reports:
  assumes "docker sandboxImage = Inr execute" and "validate (scriptRequest mk) = None"
    and "execute (scriptRequest mk) = Inr result" and "fitsInt64 (sx_ExitCode result)"
    and "\<And>t. en_ctx E t = None" and "w_done w = None"
    and "sandboxAgentRun E jsonErr mk validate docker w = (w', e)"
  shows "fst (exampleMain (en_isPrint E) e) = 0 \<and>
    (\<exists>events. w_obs w' = events @ ''final='' @ quote (en_isPrint E) (scriptAnswer result) @ newline)"
proof -
  let ?tool = "\<lparr>sx_runtime = execute, sx_resolve = resolveShell jsonErr mk\<rparr>"
  let ?req = "\<lparr>rq_ExecutionID = ''sandbox-dogfood'', rq_Prompt = ''run one command in the sandbox''\<rparr>"
  let ?rt = "\<lparr>rt_store = None, rt_model = BaseModel (\<lambda>t input. Some (demoModelNext jsonErr input)),
      rt_tools = Some (BaseTools (sandboxTools validate ?tool)), rt_observer = Some (printEvent (en_isPrint E)),
      rt_maxSteps = defaultMaxSteps, rt_modelRetry = \<lparr>mr_MaxRetries = 0, mr_Delay = 0\<rparr>\<rparr> :: (unit, string) Runtime"
  have coop: "cooperative (ownSession E ?rt ''sandbox-dogfood'') (answers (demoModelNext jsonErr)) (outputs (sandboxExecute validate ?tool))"
    by (rule cooperative_script [where ops = "sandboxTools validate ?tool"]) (simp_all add: sandboxTools_def assms(5))
  obtain steps where d: "dialogue (answers (demoModelNext jsonErr)) (outputs (sandboxExecute validate ?tool))
      (rq_Prompt ?req) (Suc (Suc 14)) [] = Some (steps, scriptAnswer result)"
    using script_dialogue [of validate mk execute result, OF assms(2-4)] by blast
  have ini: "cp_Status (initialCheckpoint ?rt ?req) = StatusCreated" "cp_Request (initialCheckpoint ?rt ?req) = ?req"
      "cp_Steps (initialCheckpoint ?rt ?req) = []"
      "nat (cp_MaxSteps (initialCheckpoint ?rt ?req) - cp_ModelIterations (initialCheckpoint ?rt ?req)) = Suc (Suc 14)"
    by (simp_all add: initialCheckpoint_def newExecution_def snapshot_def cloneSteps_def defaultMaxSteps_def)
  obtain res where "outcomeOf (ownSession E ?rt (rq_ExecutionID ?req)) (initialCheckpoint ?rt ?req) True w = Returned res None"
      "rs_Output res = scriptAnswer result"
    using run_answers [OF coop assms(6), of "initialCheckpoint ?rt ?req" _ True] ini d
      storeless_unrefused [of "ownSession E ?rt ''sandbox-dogfood''" "initialCheckpoint ?rt ?req" True w]
    by (auto simp del: dialogue.simps)
  then obtain w1 where "Run E ?rt False ?req w = (w1, Returned res None)" "rs_Output res = scriptAnswer result"
    using Run_storeless [of ?rt ?req E w] by (cases "Run E ?rt False ?req w") simp
  with assms(1,7) show ?thesis
    by (auto simp: sandboxAgentRun_def NewSandboxToolExecutor_def New_def WithObserver_def exampleMain_def)
qed

theorem sandbox_agent_reports_witness:
  "\<exists>events. w_obs (fst (sandboxAgentRun demoEnv (Opaque []) echoRequest (\<lambda>_. None) (\<lambda>_. Inr (\<lambda>_. Inr echoResult)) agentWorld)) =
    events @ ''final='' @ quote (en_isPrint demoEnv) (scriptAnswer echoResult) @ newline"
proof -
  have "fst (exampleMain (en_isPrint demoEnv) (snd (sandboxAgentRun demoEnv (Opaque []) echoRequest (\<lambda>_. None)
        (\<lambda>_. Inr (\<lambda>_. Inr echoResult)) agentWorld))) = 0 \<and>
    (\<exists>events. w_obs (fst (sandboxAgentRun demoEnv (Opaque []) echoRequest (\<lambda>_. None) (\<lambda>_. Inr (\<lambda>_. Inr echoResult)) agentWorld)) =
      events @ ''final='' @ quote (en_isPrint demoEnv) (scriptAnswer echoResult) @ newline)"
    by (rule sandbox_agent_reports [where E = demoEnv and w = agentWorld])
       (simp_all add: echoResult_def fitsInt64_def agentWorld_def demoEnv_def)
  then show ?thesis by simp
qed

text \<open>
  C23. The probe never reports a success that did not happen: when it ends without an error, whatever the
  provider answered, the sandbox was available, accepted exactly the expected command and ran it with exit code 0
  and the expected output.
\<close>

theorem probe_success_is_real:
  "case deepseekRun E H w of
     (w', Ended None) \<Rightarrow>
       \<exists>execute result. pb_docker H sandboxImage = Inr execute \<and> pb_validate H (probeCommand H) = None \<and>
         execute (probeCommand H) = Inr result \<and> sx_ExitCode result = 0 \<and>
         trimSpace (coerceUTF8 (sx_Stdout result)) = expectedOutput
   | _ \<Rightarrow> True"
proof (cases "\<exists>w'. deepseekRun E H w = (w', Ended None)")
  case True
  then obtain apiKey dir w1 where "probeRun E H apiKey dir w = (w1, Ended None)"
    by (auto simp: deepseekRun_def Let_def split: if_splits sum.splits prod.splits)
  then obtain execute model store rt w2 res where e: "pb_docker H sandboxImage = Inr execute"
    and r: "Run E rt False probeRequest (w\<lparr>w_store := store\<rparr>) = (w2, Returned res None)"
    and f: "checkProbeResult (pb_jsonErr H) res = None"
    and rt: "rt_tools rt = Some (BaseTools (sandboxTools (pb_validate H)
        \<lparr>sx_runtime = execute, sx_resolve = resolveProbeShell (pb_jsonErr H) (pb_mk H)\<rparr>))"
    by (auto simp: probeRun_def finishProbe_def NewSandboxToolExecutor_def New_def WithCheckpointStore_def WithObserver_def WithMaxSteps_def
        split: sum.splits prod.splits option.splits outcome.splits if_splits)
  from f obtain out where s: "length (rs_Steps res) = 1" "unmarshalSandboxOutput (tr_Output (sp_Result (rs_Steps res ! 0))) = Some out"
      "sx_ExitCode out = 0" "trimSpace (sx_Stdout out) = expectedOutput"
    by (auto simp: checkProbeResult_def split: if_splits option.splits)
  from s(1) have "rs_Steps res ! 0 \<in> set (rs_Steps res)" by simp
  then obtain tools where t: "rt_tools rt = Some tools"
      "toolProduces tools (sp_Call (rs_Steps res ! 0)) (tr_Output (sp_Result (rs_Steps res ! 0)))"
    by (rule Run_steps_genuine [OF r])
  with rt have "sandboxExecute (pb_validate H) \<lparr>sx_runtime = execute, sx_resolve = resolveProbeShell (pb_jsonErr H) (pb_mk H)\<rparr>
      (sp_Call (rs_Steps res ! 0)) = (tr_Output (sp_Result (rs_Steps res ! 0)), None)"
    by (simp add: sandboxTools_def)
  then obtain result where "execute (probeCommand H) = Inr result" "out = coercedResult result" "pb_validate H (probeCommand H) = None"
    using s(2) by (rule probe_tool_output)
  with s(3,4) e True show ?thesis by (auto simp: coercedResult_def)
next
  case False
  then show ?thesis by (auto split: prod.splits program_end.splits option.splits)
qed

end
