(* ===== verification/Spec2Isabelle.thy ===== *)
theory Spec2Isabelle
  imports Run_Guarantees Recovery_Guarantees Lease_Guarantees Checkpoint_Guarantees
    Store_Guarantees Trace_Guarantees Adapter_Guarantees Progress_Guarantees Example_Guarantees
begin

text \<open>
  A verification development for the Agent Harness Runtime, a Go library that runs a model/tool loop
  with durable checkpoints, leases and crash recovery.

  \<^bold>\<open>The program.\<close> \<^verbatim>\<open>runtime.go\<close> holds the state machine of an execution and the loop \<^verbatim>\<open>(*Runtime).run\<close>: reserve a
  model attempt in the store, call the model, commit the intent of a tool call, call the tool, commit
  its step, and so on to a terminal checkpoint. \<^verbatim>\<open>checkpoint.go\<close> defines the checkpoint, its revision and
  the write that every transition goes through. \<^verbatim>\<open>recovery.go\<close>, \<^verbatim>\<open>tool_reconciliation.go\<close> and
  \<^verbatim>\<open>tool_replay.go\<close> resume a stored execution. \<^verbatim>\<open>execution_lease.go\<close> and \<^verbatim>\<open>execution_lease_renewal.go\<close> take
  ownership of an execution and renew it in the background. \<^verbatim>\<open>callback_timeout.go\<close>, \<^verbatim>\<open>model_retry.go\<close> and
  \<^verbatim>\<open>observer.go\<close> are the options around the callbacks. \<^verbatim>\<open>memory_lease_store.go\<close>, \<^verbatim>\<open>file_store.go\<close> and
  \<^verbatim>\<open>sqlite_store.go\<close> are the stores; \<^verbatim>\<open>trace.go\<close>, \<^verbatim>\<open>trace_reader.go\<close> and \<^verbatim>\<open>trace_diff.go\<close> record and inspect
  event traces; \<^verbatim>\<open>openai_model.go\<close>, \<^verbatim>\<open>mcp_executor.go\<close> and \<^verbatim>\<open>sandbox_executor.go\<close> are adapters.
  The programs under \<^verbatim>\<open>examples/\<close> use the library: an agent whose model is a script, a probe that asks a
  provider, and a demonstration in which one process crashes and another recovers the execution.

  \<^bold>\<open>The model.\<close>
  \<^item> \<open>Prelude\<close>: bytes, UTF-8 validity and the formatting functions of Go's \<^verbatim>\<open>strconv\<close> and \<^verbatim>\<open>time\<close> that error
    texts use. \<open>Go_Errors\<close>: error values, \<^verbatim>\<open>errors.Is\<close>, \<^verbatim>\<open>errors.As\<close>, \<^verbatim>\<open>errors.Join\<close> and \<^verbatim>\<open>Error()\<close>.
  \<^item> \<open>Lifecycle\<close>: statuses, transitions, decisions, steps and results of \<^verbatim>\<open>runtime.go\<close>. \<open>Checkpoints\<close>:
    \<^verbatim>\<open>checkpoint.go\<close> and the validation of \<^verbatim>\<open>recovery.go\<close> and \<^verbatim>\<open>file_store.go\<close>.
  \<^item> \<open>Observers\<close>, \<open>Model_Retry\<close>: \<^verbatim>\<open>observer.go\<close> and the predicates of \<^verbatim>\<open>model_retry.go\<close>. \<open>Stores\<close>: the interface
    \<^verbatim>\<open>CheckpointStore\<close> with its optional extensions. \<open>Flow\<close>: the control flow of a Go function with early
    returns and panics as a state transformer with weakest-precondition style triples.
  \<^item> \<open>Sessions\<close>: the world a call runs in (store, observers, clock, context, lease) and the log of its
    effects; \<^verbatim>\<open>writeCheckpoint\<close>, the timeouts and the background renewal. \<open>Runtime_Loop\<close>: \<^verbatim>\<open>run\<close>, piece by piece.
    \<open>Runtime_API\<close>: \<^verbatim>\<open>New\<close>, the options, \<^verbatim>\<open>Run\<close>, \<^verbatim>\<open>Resume\<close> and the pending-tool paths.
  \<^item> \<open>Memory_Lease_Store\<close>, \<open>Sqlite_Store\<close>, \<open>File_Store\<close>: the three stores, instances of the interface. The SQLite
    store is the table of rows with the effect of each statement, and a database call may fail after
    it took effect; the file store is a map from paths to contents with temporary files, links,
    renames and advisory locks, and each system call may fail. \<open>Json_Text\<close>: the text that \<^verbatim>\<open>encoding/json\<close>
    prints for a document and the documents it reads from a text, with escapes, the replacement of invalid
    UTF-8 and the nesting limit; \<open>Json_Codec\<close>: the struct types of a checkpoint on top of it. Stores hold text.
    \<open>Json_Stream\<close>: the decoder that reads one value after the other; \<open>Go_Time\<close>: the calendar, and times in RFC 3339.
  \<^item> \<open>Traces\<close>: \<^verbatim>\<open>trace.go\<close>, \<^verbatim>\<open>trace_reader.go\<close> and \<^verbatim>\<open>trace_diff.go\<close>; a trace file is its text. \<open>OpenAI_Model\<close>: \<^verbatim>\<open>openai_model.go\<close>. \<open>Tool_Adapters\<close>:
    \<^verbatim>\<open>mcp_executor.go\<close> and \<^verbatim>\<open>sandbox_executor.go\<close>, with the text \<^verbatim>\<open>json.Marshal\<close> prints for their results.
  \<^item> \<open>Example_Support\<close>, \<open>Sandbox_Agents\<close>, \<open>Sqlite_Recovery\<close>: the programs under \<^verbatim>\<open>examples/\<close>, from the start of \<^verbatim>\<open>main\<close> to
    the exit code, with everything they print.

  Callbacks (model, tools, observers, stores passed in by the caller), the clock and the scheduling of
  the renewal goroutine are arguments of the model: total functions of the number of the call, so
  every theorem holds for every behaviour of them. The log of effects lists store writes with their
  answers, callbacks, events and renewals in the order the code makes them.

  \<^bold>\<open>The specification and what is proved.\<close>
  \<^item> \<open>Protocol\<close> is the abstract harness protocol: a small machine whose phases say which write was
    acknowledged last and which effect may come next. \<open>Refinement\<close>, \<open>Loop_Refinement\<close> and
    \<open>Run_Refinement\<close> show that every call of \<^verbatim>\<open>run\<close> is a run of that machine; \<open>Histories\<close> derives from the
    machine what a history can contain; \<open>World_Invariants\<close> carries invariants of the world through the
    loop once and for all (locales \<open>loop_invariant\<close> and \<open>world_invariant\<close>); \<open>Trace_Runs\<close> uses it to relate
    the recorded trace to the log of effects.
  \<^item> \<open>Recovery\<close> does the same for \<^verbatim>\<open>Run\<close> and \<^verbatim>\<open>Resume\<close> with the options of the library.
  \<^item> \<open>Store_Contract\<close> states what a checkpoint store promises to a single writer (locale \<open>checkpoint_store\<close>):
    an acknowledged write replaces, a refused one leaves a known state, loads return what is stored.
    \<open>Leases\<close> states the contract of a leased store (locale \<open>lease_store\<close>) and derives fencing from it for
    arbitrary interleavings of workers; \<open>leased_checkpoint_store\<close> joins both. The in-memory and the
    SQLite store interpret the joint contract, the file store the first one; its locks have a step
    relation of their own.
  \<^item> \<open>Progress\<close> compares \<^verbatim>\<open>run\<close> with a pure dialogue of model and tools and shows that a call completes whenever
    nothing refuses it; \<open>Bounded_Work\<close> bounds the external operations of a call. \<open>Takeover\<close> extends the
    joint store contract by when a lease can be acquired (locale \<open>takeover_store\<close>, interpreted by the
    in-memory and the SQLite store) and derives that a live lease excludes a second owner and that an
    expired one is taken over and the execution finished.
  \<^item> \<open>Genuine_Steps\<close> shows that every recorded step was produced by the tools. \<open>Agent_Runs\<close> and \<open>Recovery_Demo\<close> apply
    the results about \<^verbatim>\<open>Run\<close>, \<^verbatim>\<open>Resume\<close> and the stores to the example programs: the first through the dialogue and
    the recorded steps, the second by following both processes on one database tick by tick.
  \<^item> \<open>Run_Guarantees\<close>, \<open>Recovery_Guarantees\<close>, \<open>Lease_Guarantees\<close>, \<open>Checkpoint_Guarantees\<close>,
    \<open>Store_Guarantees\<close>, \<open>Trace_Guarantees\<close>, \<open>Adapter_Guarantees\<close>, \<open>Progress_Guarantees\<close> and
    \<open>Example_Guarantees\<close> state the properties of the program with their witnesses; \<open>Scenario\<close> holds the concrete runs the witnesses use.

  \<^bold>\<open>Bounds.\<close> The loop of \<^verbatim>\<open>run\<close> is a total function: its termination measure is the number of model attempts
  left. No fuel is used. Revisions and fencing tokens are 64-bit words; iteration counters are
  unbounded integers, which a Go \<^verbatim>\<open>int\<close> is for every count the budgets admit.

  \<^bold>\<open>Abstracted.\<close> The body of a request to the provider is a JSON document, not its text; which error the
  decoder of a trace file reports for a malformed value is an argument. The SHA-256 digest in the names of
  checkpoint files, \<^verbatim>\<open>url.Parse\<close>, the HTTP client, the MCP session and the sandbox runtime are arguments,
  and so are the environment variables, temporary directories and child processes of the examples.
  The options of the SQLite connection string are not represented, and a release closure guarded by
  \<^verbatim>\<open>sync.Once\<close> is a step that may happen again, which is harmless. The mutexes of the in-memory store
  and of the recorder make each of their operations one step.

  \<^bold>\<open>Not modelled.\<close> Nothing of the library or the examples is left out beyond the arguments above. The Go files
  for tests are not part of the program.
\<close>

end
